(* ===== verification/Hako_Prelude.thy ===== *)
theory Hako_Prelude
  imports Main "HOL-Library.Word"
begin

text \<open>
  Shared vocabulary of the development: the faults a C++ expression can run into,
  the result type that carries them, checked 64-bit signed arithmetic, checked
  array access, and the list lemmas the component theories use. Nothing here models
  a function of the repository; it models what the language gives to all of them.
\<close>

section \<open>Faults and results\<close>

text \<open>
  \<open>Null_Deref\<close> is the dereference of a null pointer, \<open>Out_Of_Bounds\<close> an access outside
  the extent of an array or of a mapped region, \<open>Signed_Overflow\<close> an overflow of
  signed arithmetic (all three are undefined behaviour of the language), and
  \<open>Blocked\<close> a busy-wait on a flag that the running thread cannot change itself.
\<close>

datatype hako_fault = Null_Deref | Out_Of_Bounds | Signed_Overflow | Blocked

type_synonym 'a result = "hako_fault + 'a"

definition bindE :: "'e + 'a \<Rightarrow> ('a \<Rightarrow> 'e + 'b) \<Rightarrow> 'e + 'b" where
  "bindE r f = (case r of Inl e \<Rightarrow> Inl e | Inr x \<Rightarrow> f x)"

named_theorems fault_simps \<open>rewrite rules for results, checked arithmetic and checked access\<close>

lemma bindE_simps [simp]:
  "bindE (Inl e) f = Inl e"
  "bindE (Inr x) f = f x"
  by (simp_all add: bindE_def)

lemma bindE_eq_Inr_iff [fault_simps]:
  "bindE r f = Inr y \<longleftrightarrow> (\<exists>x. r = Inr x \<and> f x = Inr y)"
  by (cases r) auto

lemma bindE_assoc: "bindE (bindE r f) g = bindE r (\<lambda>x. bindE (f x) g)"
  by (cases r) auto

text \<open>A sequence of calls of one operation; the results they return are collected.\<close>

fun run_all :: "('x \<Rightarrow> 's \<Rightarrow> 'e + ('r \<times> 's)) \<Rightarrow> 'x list \<Rightarrow> 's \<Rightarrow> 'e + ('r list \<times> 's)" where
  "run_all f [] s = Inr ([], s)"
| "run_all f (x # xs) s =
     bindE (f x s) (\<lambda>(r, s). bindE (run_all f xs s) (\<lambda>(rs, s). Inr (r # rs, s)))"

section \<open>64-bit signed arithmetic\<close>

definition INT64_MAX :: int where "INT64_MAX = 9223372036854775807"
definition INT64_MIN :: int where "INT64_MIN = - 9223372036854775808"

definition fits_int64 :: "int \<Rightarrow> bool" where
  "fits_int64 x \<longleftrightarrow> INT64_MIN \<le> x \<and> x \<le> INT64_MAX"

definition checked64 :: "int \<Rightarrow> int result" where
  "checked64 x = (if fits_int64 x then Inr x else Inl Signed_Overflow)"

lemma checked64_Inr [fault_simps]: "checked64 x = Inr y \<longleftrightarrow> fits_int64 x \<and> y = x"
  by (auto simp: checked64_def)

lemma checked64_ok [simp]: "fits_int64 x \<Longrightarrow> checked64 x = Inr x"
  by (simp add: checked64_def)

lemmas int64_defs = fits_int64_def INT64_MAX_def INT64_MIN_def

section \<open>Arrays with bounds\<close>

definition arr_get :: "'a list \<Rightarrow> int \<Rightarrow> 'a result" where
  "arr_get xs i = (if 0 \<le> i \<and> i < int (length xs) then Inr (xs ! nat i) else Inl Out_Of_Bounds)"

definition arr_set :: "'a list \<Rightarrow> int \<Rightarrow> 'a \<Rightarrow> 'a list result" where
  "arr_set xs i v =
     (if 0 \<le> i \<and> i < int (length xs) then Inr (xs[nat i := v]) else Inl Out_Of_Bounds)"

lemma arr_get_in [simp]: "0 \<le> i \<Longrightarrow> i < int (length xs) \<Longrightarrow> arr_get xs i = Inr (xs ! nat i)"
  by (simp add: arr_get_def)

lemma arr_set_in [simp]: "0 \<le> i \<Longrightarrow> i < int (length xs) \<Longrightarrow> arr_set xs i v = Inr (xs[nat i := v])"
  by (simp add: arr_set_def)

lemma arr_get_Inr [fault_simps]:
  "arr_get xs i = Inr v \<longleftrightarrow> 0 \<le> i \<and> i < int (length xs) \<and> v = xs ! nat i"
  by (auto simp: arr_get_def)

lemma arr_set_Inr [fault_simps]:
  "arr_set xs i v = Inr ys \<longleftrightarrow> 0 \<le> i \<and> i < int (length xs) \<and> ys = xs[nat i := v]"
  by (auto simp: arr_set_def)

section \<open>Copying into a region of bytes\<close>

type_synonym byte = "8 word"

text \<open>\<open>memcpy(&mem[off], src, length src)\<close> on a region held as a list.\<close>

definition splice :: "'a list \<Rightarrow> nat \<Rightarrow> 'a list \<Rightarrow> 'a list" where
  "splice mem off src = take off mem @ src @ drop (off + length src) mem"

definition slice :: "'a list \<Rightarrow> nat \<Rightarrow> nat \<Rightarrow> 'a list" where
  "slice mem off n = take n (drop off mem)"

lemma length_slice [simp]: "off + n \<le> length mem \<Longrightarrow> length (slice mem off n) = n"
  by (simp add: slice_def)

lemma length_splice [simp]:
  "off + length src \<le> length mem \<Longrightarrow> length (splice mem off src) = length mem"
  by (simp add: splice_def)

lemma slice_nth: "off + n \<le> length mem \<Longrightarrow> k < n \<Longrightarrow> slice mem off n ! k = mem ! (off + k)"
  by (simp add: slice_def)

lemma splice_nth:
  "off + length src \<le> length mem \<Longrightarrow> k < length mem \<Longrightarrow>
   splice mem off src ! k =
     (if off \<le> k \<and> k < off + length src then src ! (k - off) else mem ! k)"
  by (auto simp: splice_def nth_append min_def)

lemma slice_splice_same:
  assumes "off + length src \<le> length mem" and "n \<le> length src"
  shows "slice (splice mem off src) off n = take n src"
  using assms by (simp add: slice_def splice_def min_def)

lemma slice_splice_other:
  assumes "off + length src \<le> length mem" and "off' + n \<le> length mem"
    and "off' + n \<le> off \<or> off + length src \<le> off'"
  shows "slice (splice mem off src) off' n = slice mem off' n"
proof (rule nth_equalityI)
  show "length (slice (splice mem off src) off' n) = length (slice mem off' n)"
    using assms by simp
next
  fix k assume "k < length (slice (splice mem off src) off' n)"
  then have "k < n" using assms by simp
  then show "slice (splice mem off src) off' n ! k = slice mem off' n ! k"
    using assms by (auto simp: slice_nth splice_nth)
qed

lemma slice_replicate: "off + n \<le> m \<Longrightarrow> slice (replicate m x) off n = replicate n x"
  by (simp add: slice_def)

lemma filter_eq_Cons_hd: "filter P xs = y # ys \<Longrightarrow> y \<in> set xs \<and> P y"
  by (auto dest: filter_eq_ConsD)

section \<open>Words of different widths\<close>

lemma unat_ucast_widen:
  fixes w :: "'a::len word"
  assumes "LENGTH('a) \<le> LENGTH('b::len)"
  shows "unat (ucast w :: 'b word) = unat w"
proof -
  have "unat w < 2 ^ LENGTH('a)" by (rule unsigned_less)
  also have "(2::nat) ^ LENGTH('a) \<le> 2 ^ LENGTH('b)" using assms by simp
  finally show ?thesis by (simp add: unsigned_ucast_eq take_bit_nat_eq_self)
qed

section \<open>Counting entries of an array\<close>

definition count_if :: "('a \<Rightarrow> bool) \<Rightarrow> 'a list \<Rightarrow> nat" where
  "count_if P xs = length (filter P xs)"

lemma count_if_le_length: "count_if P xs \<le> length xs"
  by (simp add: count_if_def)

lemma count_if_Cons [simp]: "count_if P (x # xs) = (if P x then Suc (count_if P xs) else count_if P xs)"
  by (simp add: count_if_def)

lemma count_if_Nil [simp]: "count_if P [] = 0"
  by (simp add: count_if_def)

lemma count_if_pos: "i < length xs \<Longrightarrow> P (xs ! i) \<Longrightarrow> 0 < count_if P xs"
  by (induction xs arbitrary: i) (auto simp: nth_Cons split: nat.splits)

lemma count_if_update:
  "i < length xs \<Longrightarrow>
   count_if P (xs[i := v]) + (if P (xs ! i) then 1 else 0) = count_if P xs + (if P v then 1 else 0)"
proof (induction xs arbitrary: i)
  case (Cons x xs)
  then show ?case by (cases i) auto
qed simp

lemma count_if_less_length: "i < length xs \<Longrightarrow> \<not> P (xs ! i) \<Longrightarrow> count_if P xs < length xs"
proof -
  assume i: "i < length xs" and nP: "\<not> P (xs ! i)"
  have "count_if P xs + count_if (\<lambda>x. \<not> P x) xs = length xs"
    by (induction xs) auto
  moreover have "0 < count_if (\<lambda>x. \<not> P x) xs"
    using count_if_pos [of i xs "\<lambda>x. \<not> P x"] i nP by simp
  ultimately show ?thesis by simp
qed


lemma count_if_all: "count_if P xs = length xs \<longleftrightarrow> (\<forall>x \<in> set xs. P x)"
proof (induction xs)
  case (Cons x xs)
  then show ?case using count_if_le_length [of P xs] by (auto simp: le_Suc_eq)
qed simp

lemma count_if_less_ex: "count_if P xs < length xs \<Longrightarrow> \<exists>i < length xs. \<not> P (xs ! i)"
proof -
  assume "count_if P xs < length xs"
  then have "\<not> (\<forall>x \<in> set xs. P x)" using count_if_all [of P xs] by simp
  then show ?thesis by (auto simp: in_set_conv_nth)
qed

section \<open>The first entry that satisfies a test\<close>

fun first_index :: "('a \<Rightarrow> bool) \<Rightarrow> 'a list \<Rightarrow> nat option" where
  "first_index P [] = None"
| "first_index P (x # xs) = (if P x then Some 0 else map_option Suc (first_index P xs))"

lemma first_index_None: "first_index P xs = None \<longleftrightarrow> (\<forall>i < length xs. \<not> P (xs ! i))"
proof (induction xs)
  case (Cons x xs)
  then show ?case by (auto simp: All_less_Suc2)
qed simp

lemma first_index_Some:
  "first_index P xs = Some i \<longleftrightarrow> i < length xs \<and> P (xs ! i) \<and> (\<forall>j < i. \<not> P (xs ! j))"
proof (induction xs arbitrary: i)
  case (Cons x xs)
  then show ?case by (cases i) (auto simp: All_less_Suc2)
qed simp

lemma first_index_cong:
  assumes "length xs = length ys" and "\<And>i. i < length xs \<Longrightarrow> P (xs ! i) = Q (ys ! i)"
  shows "first_index P xs = first_index Q ys"
proof (cases "first_index P xs")
  case None
  then have "first_index Q ys = None" using assms by (simp add: first_index_None)
  with None show ?thesis by simp
next
  case (Some i)
  then have i: "i < length xs" "P (xs ! i)" "\<forall>j < i. \<not> P (xs ! j)" by (simp_all add: first_index_Some)
  have "first_index Q ys = Some i"
    unfolding first_index_Some
  proof (intro conjI allI impI)
    show "i < length ys" "Q (ys ! i)" using i assms by auto
    show "\<not> Q (ys ! j)" if "j < i" for j using that i assms(2) [of j] by auto
  qed
  with Some show ?thesis by simp
qed

lemma first_index_unique:
  assumes "i < length xs" and "P (xs ! i)" and "\<And>j. j < length xs \<Longrightarrow> P (xs ! j) \<Longrightarrow> j = i"
  shows "first_index P xs = Some i"
  unfolding first_index_Some
proof (intro conjI allI impI assms(1,2))
  show "\<not> P (xs ! j)" if "j < i" for j using that assms(1) assms(3) [of j] by auto
qed

lemma map_option_shift: "map_option (\<lambda>a. Suc (k + a)) r = map_option ((+) k) (map_option Suc r)"
  by (cases r) simp_all

lemma map_option_plus_0 [simp]: "map_option ((+) (0::nat)) r = r"
  by (cases r) simp_all

section \<open>Numbers in text\<close>

text \<open>A number in decimal, as \<open>%d\<close> prints it.\<close>

fun show_nat :: "nat \<Rightarrow> string" where
  "show_nat n = (if n < 10 then [char_of (48 + n)] else show_nat (n div 10) @ [char_of (48 + n mod 10)])"

declare show_nat.simps [simp del]

end
