(* ===== verification/Hako_Types.thy ===== *)
theory Hako_Types
  imports Hako_Prelude
begin

text \<open>
  The data the whole library shares: the build-time capacities of
  \<open>config/hako_config.hpp\<close>, the enumerations of \<open>types/hako_types.hpp\<close> and
  \<open>data/hako_base_data.hpp\<close>, the fixed-length strings with the conversions of
  \<open>utils/hako_string.cpp\<close>, and the clock test of \<open>utils/hako_clock.hpp\<close>.
\<close>

section \<open>Build configuration\<close>

text \<open>
  \<open>HAKO_DATA_MAX_ASSET_NUM\<close> and \<open>HAKO_PDU_CHANNEL_MAX\<close> are macros that a build may
  redefine (\<open>CMakeLists.txt\<close>, \<open>build.bash\<close>), so they are the fields of a record that
  the operations take; \<open>default_build\<close> has the values of \<open>hako_config.hpp\<close>.
\<close>

record hako_build =
  HAKO_DATA_MAX_ASSET_NUM :: nat
  HAKO_PDU_CHANNEL_MAX :: nat

definition default_build :: hako_build where
  "default_build = \<lparr>HAKO_DATA_MAX_ASSET_NUM = 16, HAKO_PDU_CHANNEL_MAX = 8192\<rparr>"

definition HAKO_FIXED_STRLEN_MAX :: nat where "HAKO_FIXED_STRLEN_MAX = 256"
definition HAKO_ASSET_TIMEOUT_USEC :: int where "HAKO_ASSET_TIMEOUT_USEC = 30 * 1000 * 1000"
definition HAKO_SHARED_MEMORY_ID_0 :: int where "HAKO_SHARED_MEMORY_ID_0 = 0x00FF"
definition HAKO_SHARED_MEMORY_ID_1 :: int where "HAKO_SHARED_MEMORY_ID_1 = 0x0100"
definition HAKO_LOGGER_LOGNUM :: nat where "HAKO_LOGGER_LOGNUM = (1024 * 1024 * 1) div 256"

section \<open>Enumerations\<close>

datatype HakoSimulationStateType =
    HakoSim_Stopped | HakoSim_Runnable | HakoSim_Running | HakoSim_Stopping
  | HakoSim_Resetting | HakoSim_Error | HakoSim_Terminated | HakoSim_Any | HakoSim_Count

datatype HakoAssetType = HakoAsset_Unknown | HakoAsset_Inside | HakoAsset_Outside | HakoAsset_Count

datatype HakoAssetEventType =
    HakoAssetEvent_None | HakoAssetEvent_Start | HakoAssetEvent_Stop | HakoAssetEvent_Reset
  | HakoAssetEvent_Error | HakoAssetEvent_Count

datatype HakoTimeModeType = HakoTimeMode_Master | HakoTimeMode_Asset | HakoTimeMode_Num

section \<open>Strings\<close>

text \<open>
  A \<open>std::string\<close> is a \<open>char list\<close>. The fixed string of the shared memory has a length
  and a buffer of \<open>HAKO_FIXED_STRLEN_MAX + 1\<close> characters, of which a conversion
  overwrites the first \<open>length src + 1\<close> and leaves the rest as it was.
\<close>

record HakoFixedStringType =
  fs_len :: nat
  fs_data :: "char list"

definition NUL :: char where "NUL = CHR 0x00"

definition hako_string2fixed :: "string \<Rightarrow> HakoFixedStringType \<Rightarrow> HakoFixedStringType" where
  "hako_string2fixed src dst =
     \<lparr>fs_len = length src, fs_data = src @ [NUL] @ drop (Suc (length src)) (fs_data dst)\<rparr>"

definition hako_fixed2string :: "HakoFixedStringType \<Rightarrow> string" where
  "hako_fixed2string str = take (fs_len str) (fs_data str)"

definition zero_fixed :: HakoFixedStringType where
  "zero_fixed = \<lparr>fs_len = 0, fs_data = replicate (Suc HAKO_FIXED_STRLEN_MAX) NUL\<rparr>"

text \<open>
  \<open>strncmp(a, b, n) == 0\<close>: at most \<open>n\<close> characters are compared and the comparison stops
  after a common terminator. A list that ends is read as its terminator.
\<close>

fun strncmp_eq :: "nat \<Rightarrow> char list \<Rightarrow> char list \<Rightarrow> bool" where
  "strncmp_eq 0 xs ys = True"
| "strncmp_eq (Suc n) [] ys = (ys = [] \<or> hd ys = NUL)"
| "strncmp_eq (Suc n) (x # xs) [] = (x = NUL)"
| "strncmp_eq (Suc n) (x # xs) (y # ys) = (x = y \<and> (x = NUL \<or> strncmp_eq n xs ys))"

text \<open>
  The test that \<open>get_asset_nolock\<close> and \<open>get_pdu_channel\<close> make on a stored name: equal
  lengths, then \<open>strncmp\<close> over that length.
\<close>

definition fixed_matches :: "HakoFixedStringType \<Rightarrow> string \<Rightarrow> bool" where
  "fixed_matches str name \<longleftrightarrow>
     fs_len str = length name \<and> strncmp_eq (fs_len str) (fs_data str) (name @ [NUL])"

section \<open>The clock\<close>

text \<open>
  \<open>hako_get_clock()\<close> reads the operating system's clock; its value is the argument \<open>now\<close>
  of the operations that call it.
\<close>

definition hako_clock_is_timeout :: "int \<Rightarrow> int \<Rightarrow> int \<Rightarrow> bool" where
  "hako_clock_is_timeout now check_time timeout \<longleftrightarrow> check_time + timeout \<le> now"

section \<open>Calls a component makes on its environment\<close>

text \<open>
  The calls whose effect lies outside the state of the modelled objects are recorded, in
  the order the code makes them: the lock of a shared-memory key (\<open>lock_memory\<close>,
  \<open>unlock_memory\<close>), the file lock around the set-up of the PDU area
  (\<open>acquire_pdu_init_lock\<close>, \<open>release_pdu_init_lock\<close>), \<open>hako::log::add\<close> with its level
  and format string, the post of an asset's semaphore (\<open>asset_up\<close>) and the call of a
  registered callback, a function pointer that is identified by a number.
\<close>

datatype hako_effect =
    Lock_Memory int | Unlock_Memory int
  | Acquire_Init_Lock | Release_Init_Lock
  | Log string string
  | Asset_Up int
  | Call nat

section \<open>Lemmas\<close>

definition fixed_ok :: "HakoFixedStringType \<Rightarrow> bool" where
  "fixed_ok s \<longleftrightarrow> length (fs_data s) = Suc HAKO_FIXED_STRLEN_MAX \<and> fs_len s \<le> HAKO_FIXED_STRLEN_MAX"

lemma fixed_ok_zero [simp]: "fixed_ok zero_fixed"
  by (simp add: fixed_ok_def zero_fixed_def)

lemma fixed_ok_string2fixed:
  "length src \<le> HAKO_FIXED_STRLEN_MAX \<Longrightarrow> fixed_ok dst \<Longrightarrow> fixed_ok (hako_string2fixed src dst)"
  by (simp add: fixed_ok_def hako_string2fixed_def)

lemma fixed2string_string2fixed [simp]: "hako_fixed2string (hako_string2fixed src dst) = src"
  by (simp add: hako_fixed2string_def hako_string2fixed_def)

lemma strncmp_eq_take:
  assumes "NUL \<notin> set ys" and "n = length ys" and "length ys \<le> length xs"
  shows "strncmp_eq n xs (ys @ zs) \<longleftrightarrow> take n xs = ys"
  using assms by (induction n xs ys arbitrary: zs rule: strncmp_eq.induct) auto

lemma strncmp_eq_append:
  "strncmp_eq (length ys) (ys @ us) (ys @ vs)"
  by (induction ys) auto

lemma fixed_matches_string2fixed [simp]: "fixed_matches (hako_string2fixed name dst) name"
  using strncmp_eq_append [of name "NUL # drop (Suc (length name)) (fs_data dst)" "[NUL]"]
  by (simp add: fixed_matches_def hako_string2fixed_def)

text \<open>
  On names without an embedded terminator the stored name is matched exactly by the
  string it was made from.
\<close>

lemma fixed_matches_iff:
  assumes "NUL \<notin> set name" and "fixed_ok str"
  shows "fixed_matches str name \<longleftrightarrow> hako_fixed2string str = name"
proof (cases "fs_len str = length name")
  case True
  with assms(2) have "length name \<le> length (fs_data str)" by (simp add: fixed_ok_def)
  then show ?thesis
    using strncmp_eq_take [OF assms(1) refl, of "fs_data str" "[NUL]"] True
    by (simp add: fixed_matches_def hako_fixed2string_def)
next
  case False
  moreover have "length (hako_fixed2string str) = fs_len str"
    using assms(2) by (simp add: hako_fixed2string_def fixed_ok_def)
  ultimately show ?thesis by (auto simp: fixed_matches_def)
qed

lemma fixed_matches_fixed2string:
  "fixed_ok str \<Longrightarrow> fixed_matches str (hako_fixed2string str)"
proof -
  assume ok: "fixed_ok str"
  let ?n = "fs_len str" and ?d = "fs_data str"
  have len: "length (take ?n ?d) = ?n" using ok by (simp add: fixed_ok_def)
  have "strncmp_eq (length (take ?n ?d)) (take ?n ?d @ drop ?n ?d) (take ?n ?d @ [NUL])"
    by (rule strncmp_eq_append)
  then show ?thesis using len by (simp add: fixed_matches_def hako_fixed2string_def)
qed

text \<open>
  The clock test cannot overflow for the values it meets: stamps of the clock and
  timeouts are far below \<open>2 ^ 62\<close>.
\<close>

lemma clock_sum_fits:
  "\<bar>check_time\<bar> \<le> 2 ^ 62 \<Longrightarrow> \<bar>timeout\<bar> < 2 ^ 62 \<Longrightarrow> fits_int64 (check_time + timeout)"
  by (simp add: int64_defs abs_le_iff abs_less_iff)

end
