(* ===== verification/Hako_Shared_Memory.thy ===== *)
theory Hako_Shared_Memory
  imports Hako_Types
begin

text \<open>
  The shared-memory layer under \<open>utils/hako_share\<close>: the abstract class
  \<open>HakoSharedMemory\<close> as a record of its virtual methods, the mmap backend
  (\<open>hako_shared_memory_mmap.cpp\<close> over \<open>posix/hako_mmap.cpp\<close>) and the System V backend
  (\<open>posix/hako_shared_memory_shm.cpp\<close>). The locale \<open>hako_shared_memory\<close> states what a
  client of the class relies on; both backends are interpretations of it.
  The outcomes of the operating system's calls are data of the backend's state.
\<close>

section \<open>The abstract class\<close>

text \<open>
  A pointer returned by \<open>load_memory\<close> or \<open>lock_memory\<close> is null or points to the data of
  the region of its key; the last two fields read and write the bytes behind it.
  The lock that \<open>lock_memory\<close> takes first is modelled with its callers.
\<close>

record 'm HakoSharedMemory =
  create_memory :: "int \<Rightarrow> nat \<Rightarrow> 'm \<Rightarrow> int \<times> 'm"
  load_memory :: "int \<Rightarrow> nat \<Rightarrow> 'm \<Rightarrow> bool \<times> 'm"
  lock_memory :: "int \<Rightarrow> 'm \<Rightarrow> bool"
  destroy_memory :: "int \<Rightarrow> 'm \<Rightarrow> 'm"
  get_semid :: "int \<Rightarrow> 'm \<Rightarrow> int"
  region :: "int \<Rightarrow> 'm \<Rightarrow> byte list"
  set_region :: "int \<Rightarrow> byte list \<Rightarrow> 'm \<Rightarrow> 'm"

section \<open>The region's header\<close>

text \<open>
  \<open>SharedMemoryMetaDataType\<close>: \<open>data\<close> starts at offset 24 and the structure, with its
  four bytes of \<open>data\<close>, is padded to 32 bytes; a region made for \<open>sz\<close> bytes is
  \<open>sz + 32\<close> bytes long.
\<close>

record SharedMemoryMetaDataType =
  magic :: nat
  version :: nat
  meta_shm_id :: int
  meta_sem_id :: int
  data_size :: nat
  meta_data :: "byte list"

definition HAKO_SHM_MAGIC :: nat where "HAKO_SHM_MAGIC = 0x48414B4F"
definition HAKO_SHM_LAYOUT_VERSION :: nat where "HAKO_SHM_LAYOUT_VERSION = 2"
definition SIZEOF_META :: nat where "SIZEOF_META = 32"
definition OFFSETOF_DATA :: nat where "OFFSETOF_DATA = 24"
definition SIZE_MAX :: nat where "SIZE_MAX = 18446744073709551615"
definition OFF_MAX :: nat where "OFF_MAX = 9223372036854775807"

text \<open>A file or a segment of \<open>n\<close> zero bytes, read through the structure.\<close>

definition zero_region :: "nat \<Rightarrow> SharedMemoryMetaDataType" where
  "zero_region n =
     \<lparr>magic = 0, version = 0, meta_shm_id = 0, meta_sem_id = 0, data_size = 0,
      meta_data = replicate (n - OFFSETOF_DATA) 0\<rparr>"

definition region_len :: "SharedMemoryMetaDataType \<Rightarrow> nat" where
  "region_len r = OFFSETOF_DATA + length (meta_data r)"

record SharedMemoryInfoType =
  info_shm_id :: int
  info_sem_id :: int

text \<open>\<open>std::map::insert\<close> keeps an entry that is already there.\<close>

definition map_insert :: "'k \<Rightarrow> 'v \<Rightarrow> ('k \<rightharpoonup> 'v) \<Rightarrow> ('k \<rightharpoonup> 'v)" where
  "map_insert k v m = (case m k of None \<Rightarrow> m(k \<mapsto> v) | Some _ \<Rightarrow> m)"

section \<open>The mmap backend\<close>

text \<open>
  The path of a region depends on the key alone (for one configuration), so the files
  are a map from keys. \<open>mm_map\<close> is the object's \<open>shared_memory_map_\<close>. The outcomes of
  the system calls and of \<open>flock::create\<close> are the fields of \<open>mm_os\<close>.
\<close>

record mmap_os =
  os_malloc :: bool
  os_open_creat :: bool
  os_truncate :: bool
  os_open :: bool
  os_mmap :: bool
  os_flock_create :: "int \<Rightarrow> int"

record mmap_state =
  mm_files :: "int \<rightharpoonup> SharedMemoryMetaDataType"
  mm_map :: "int \<rightharpoonup> SharedMemoryInfoType"
  mm_os :: mmap_os

definition hako_mmap_create :: "int \<Rightarrow> nat \<Rightarrow> mmap_state \<Rightarrow> bool \<times> mmap_state" where
  "hako_mmap_create key sz m =
    (let os = mm_os m in
     if \<not> os_malloc os then (False, m)
     else
       let too_small = (case mm_files m key of None \<Rightarrow> True | Some f \<Rightarrow> region_len f < sz);
           opened = os_open_creat os;
           m1 = (if too_small \<and> opened then m\<lparr>mm_files := (mm_files m)(key \<mapsto> zero_region 0)\<rparr> else m);
           sized = (sz \<le> OFF_MAX \<and> os_truncate os);
           m2 = (if too_small \<and> opened \<and> sized
                 then m1\<lparr>mm_files := (mm_files m1)(key \<mapsto> zero_region sz)\<rparr> else m1)
       in if too_small \<and> \<not> opened then (False, m)
          else if too_small \<and> \<not> sized then (False, m1)
          else if \<not> os_open os then (False, m2)
          else if \<not> os_mmap os then (False, m2)
          else (True, m2))"

definition hako_mmap_open :: "int \<Rightarrow> mmap_state \<Rightarrow> bool" where
  "hako_mmap_open key m =
    (let os = mm_os m in
     if \<not> os_malloc os then False
     else if mm_files m key = None then False
     else if \<not> os_open os then False
     else os_mmap os)"

definition mmap_create_memory :: "int \<Rightarrow> nat \<Rightarrow> mmap_state \<Rightarrow> int \<times> mmap_state" where
  "mmap_create_memory key sz m =
    (if sz > SIZE_MAX - SIZEOF_META then (-1, m)
     else
       let total_size = sz + SIZEOF_META;
           (ok, m1) = hako_mmap_create key total_size m
       in if \<not> ok then (-1, m1)
          else
            let sem_id = os_flock_create (mm_os m1) key
            in if sem_id < 0 then (-1, m1)
               else
                 let f = the (mm_files m1 key);
                     f' = f\<lparr>magic := HAKO_SHM_MAGIC, version := HAKO_SHM_LAYOUT_VERSION,
                            meta_sem_id := sem_id, meta_shm_id := -1, data_size := sz\<rparr>;
                     info = \<lparr>info_shm_id = -1, info_sem_id = sem_id\<rparr>
                 in (0, m1\<lparr>mm_files := (mm_files m1)(key \<mapsto> f'),
                           mm_map := map_insert key info (mm_map m1)\<rparr>))"

definition mmap_load_memory :: "int \<Rightarrow> nat \<Rightarrow> mmap_state \<Rightarrow> bool \<times> mmap_state" where
  "mmap_load_memory key sz m =
    (if sz = 0 then (False, m)
     else if mm_map m key \<noteq> None then (True, m)
     else if \<not> hako_mmap_open key m then (False, m)
     else
       let f = the (mm_files m key)
       in if magic f \<noteq> HAKO_SHM_MAGIC then (False, m)
          else if version f \<noteq> HAKO_SHM_LAYOUT_VERSION then (False, m)
          else if data_size f \<noteq> sz then (False, m)
          else (True, m\<lparr>mm_map := map_insert key
                  \<lparr>info_shm_id = meta_shm_id f, info_sem_id = meta_sem_id f\<rparr> (mm_map m)\<rparr>))"

definition mmap_lock_memory :: "int \<Rightarrow> mmap_state \<Rightarrow> bool" where
  "mmap_lock_memory key m \<longleftrightarrow> mm_map m key \<noteq> None"

definition mmap_get_semid :: "int \<Rightarrow> mmap_state \<Rightarrow> int" where
  "mmap_get_semid key m = (case mm_map m key of None \<Rightarrow> -1 | Some info \<Rightarrow> info_sem_id info)"

definition mmap_destroy_memory :: "int \<Rightarrow> mmap_state \<Rightarrow> mmap_state" where
  "mmap_destroy_memory key m =
    (case mm_map m key of None \<Rightarrow> m | Some info \<Rightarrow> m\<lparr>mm_map := (mm_map m)(key := None)\<rparr>)"

definition mmap_region :: "int \<Rightarrow> mmap_state \<Rightarrow> byte list" where
  "mmap_region key m = (case mm_files m key of None \<Rightarrow> [] | Some f \<Rightarrow> meta_data f)"

definition mmap_set_region :: "int \<Rightarrow> byte list \<Rightarrow> mmap_state \<Rightarrow> mmap_state" where
  "mmap_set_region key bs m =
    (case mm_files m key of None \<Rightarrow> m
     | Some f \<Rightarrow> m\<lparr>mm_files := (mm_files m)(key \<mapsto> f\<lparr>meta_data := bs\<rparr>)\<rparr>)"

definition HakoSharedMemoryMmap :: "mmap_state HakoSharedMemory" where
  "HakoSharedMemoryMmap =
    \<lparr>create_memory = mmap_create_memory, load_memory = mmap_load_memory,
     lock_memory = mmap_lock_memory, destroy_memory = mmap_destroy_memory,
     get_semid = mmap_get_semid, region = mmap_region, set_region = mmap_set_region\<rparr>"

section \<open>The System V backend\<close>

text \<open>
  Segments are found by key; \<open>shmget\<close> refuses a segment smaller than the request and
  creates one of zero bytes only with \<open>IPC_CREAT\<close>. The result of \<open>shmget\<close>, when it
  does not refuse for the size, is the key's value under \<open>os_shmid\<close> (negative: an error). The sum \<open>sz + sizeof(SharedMemoryMetaDataType)\<close> is
  computed in \<open>size_t\<close> without a check.
\<close>

record shm_os =
  os_shmat :: bool
  os_shmid :: "int \<Rightarrow> int"
  os_sem_create :: "int \<Rightarrow> int"

record shm_state =
  sv_segs :: "int \<rightharpoonup> SharedMemoryMetaDataType"
  sv_map :: "int \<rightharpoonup> SharedMemoryInfoType"
  sv_os :: shm_os

definition shm_total :: "nat \<Rightarrow> nat" where
  "shm_total sz = (sz + SIZEOF_META) mod (SIZE_MAX + 1)"

definition shm_create_memory :: "int \<Rightarrow> nat \<Rightarrow> shm_state \<Rightarrow> int \<times> shm_state" where
  "shm_create_memory key sz m =
    (let os = sv_os m; total_size = shm_total sz;
         refused = (os_shmid os key < 0 \<or> (\<exists>s. sv_segs m key = Some s \<and> region_len s < total_size))
     in if refused then (-1, m)
        else
          let m1 = (case sv_segs m key of
                      None \<Rightarrow> m\<lparr>sv_segs := (sv_segs m)(key \<mapsto> zero_region total_size)\<rparr>
                    | Some _ \<Rightarrow> m)
          in if \<not> os_shmat os then (-1, m1)
             else
               let sem_id = os_sem_create os key
               in if sem_id < 0 then (-1, m1\<lparr>sv_segs := (sv_segs m1)(key := None)\<rparr>)
                  else
                    let s = the (sv_segs m1 key);
                        s' = s\<lparr>meta_sem_id := sem_id, meta_shm_id := os_shmid os key, data_size := sz\<rparr>;
                        info = \<lparr>info_shm_id = os_shmid os key, info_sem_id = sem_id\<rparr>
                    in (os_shmid os key,
                        m1\<lparr>sv_segs := (sv_segs m1)(key \<mapsto> s'), sv_map := map_insert key info (sv_map m1)\<rparr>))"

definition shm_load_memory :: "int \<Rightarrow> nat \<Rightarrow> shm_state \<Rightarrow> bool \<times> shm_state" where
  "shm_load_memory key sz m =
    (let os = sv_os m in
     case sv_segs m key of
       None \<Rightarrow> (False, m)
     | Some s \<Rightarrow>
         if os_shmid os key < 0 \<or> region_len s < shm_total sz then (False, m)
         else if \<not> os_shmat os then (False, m)
         else (True, m\<lparr>sv_map := map_insert key
                 \<lparr>info_shm_id = meta_shm_id s, info_sem_id = meta_sem_id s\<rparr> (sv_map m)\<rparr>))"

definition shm_lock_memory :: "int \<Rightarrow> shm_state \<Rightarrow> bool" where
  "shm_lock_memory key m \<longleftrightarrow> sv_map m key \<noteq> None"

definition shm_get_semid :: "int \<Rightarrow> shm_state \<Rightarrow> int" where
  "shm_get_semid key m = (case sv_map m key of None \<Rightarrow> -1 | Some info \<Rightarrow> info_sem_id info)"

definition shm_destroy_memory :: "int \<Rightarrow> shm_state \<Rightarrow> shm_state" where
  "shm_destroy_memory key m =
    (case sv_map m key of None \<Rightarrow> m
     | Some info \<Rightarrow> m\<lparr>sv_segs := (sv_segs m)(key := None), sv_map := (sv_map m)(key := None)\<rparr>)"

definition shm_region :: "int \<Rightarrow> shm_state \<Rightarrow> byte list" where
  "shm_region key m = (case sv_segs m key of None \<Rightarrow> [] | Some s \<Rightarrow> meta_data s)"

definition shm_set_region :: "int \<Rightarrow> byte list \<Rightarrow> shm_state \<Rightarrow> shm_state" where
  "shm_set_region key bs m =
    (case sv_segs m key of None \<Rightarrow> m
     | Some s \<Rightarrow> m\<lparr>sv_segs := (sv_segs m)(key \<mapsto> s\<lparr>meta_data := bs\<rparr>)\<rparr>)"

definition HakoSharedMemoryShm :: "shm_state HakoSharedMemory" where
  "HakoSharedMemoryShm =
    \<lparr>create_memory = shm_create_memory, load_memory = shm_load_memory,
     lock_memory = shm_lock_memory, destroy_memory = shm_destroy_memory,
     get_semid = shm_get_semid, region = shm_region, set_region = shm_set_region\<rparr>"

section \<open>What a client relies on\<close>

text \<open>
  \<open>fits sz m\<close> says for which sizes the backend can make a region; \<open>invar\<close> relates the
  object's map to the regions: a key of the map has a region.
\<close>

locale hako_shared_memory =
  fixes vt :: "'m HakoSharedMemory"
    and invar :: "'m \<Rightarrow> bool"
    and fits :: "nat \<Rightarrow> bool"
  assumes create_invar: "invar m \<Longrightarrow> \<not> lock_memory vt key m \<Longrightarrow> invar (snd (create_memory vt key sz m))"
    and create_maps: "invar m \<Longrightarrow> fits sz \<Longrightarrow> create_memory vt key sz m = (r, m') \<Longrightarrow> 0 \<le> r \<Longrightarrow>
      lock_memory vt key m' \<and> sz \<le> length (region vt key m')"
    and create_fails: "create_memory vt key sz m = (r, m') \<Longrightarrow> \<not> lock_memory vt key m \<Longrightarrow> r < 0 \<Longrightarrow>
      \<not> lock_memory vt key m'"
    and load_invar: "invar m \<Longrightarrow> invar (snd (load_memory vt key sz m))"
    and load_maps: "load_memory vt key sz m = (True, m') \<Longrightarrow> lock_memory vt key m'"
    and load_region: "region vt key' (snd (load_memory vt key sz m)) = region vt key' m"
    and set_invar: "invar m \<Longrightarrow> invar (set_region vt key bs m)"
    and set_maps: "lock_memory vt key' (set_region vt key bs m) = lock_memory vt key' m"
    and region_set: "invar m \<Longrightarrow> lock_memory vt key m \<Longrightarrow> region vt key (set_region vt key bs m) = bs"
    and region_set_other: "key' \<noteq> key \<Longrightarrow> region vt key' (set_region vt key bs m) = region vt key' m"
    and destroy_invar: "invar m \<Longrightarrow> invar (destroy_memory vt key m)"
    and destroy_unmaps: "\<not> lock_memory vt key (destroy_memory vt key m)"

section \<open>The backends meet it\<close>

definition mmap_invar :: "mmap_state \<Rightarrow> bool" where
  "mmap_invar m \<longleftrightarrow> dom (mm_map m) \<subseteq> dom (mm_files m)"

definition mmap_fits :: "nat \<Rightarrow> bool" where "mmap_fits sz \<longleftrightarrow> True"

lemma map_insert_dom [simp]: "dom (map_insert k v m) = insert k (dom m)"
  by (auto simp: map_insert_def split: option.splits if_splits)

lemma map_insert_same [simp]: "\<exists>y. map_insert k v m k = Some y"
  by (simp add: map_insert_def split: option.splits)

lemma length_meta_zero_region [simp]: "length (meta_data (zero_region n)) = n - OFFSETOF_DATA"
  by (simp add: zero_region_def)

lemma hako_mmap_create_spec:
  assumes "hako_mmap_create key sz m = (ok, m')"
  shows "mm_map m' = mm_map m" and "mm_os m' = mm_os m"
    and "dom (mm_files m) \<subseteq> dom (mm_files m')"
    and "ok \<Longrightarrow> \<exists>f. mm_files m' key = Some f \<and> sz - OFFSETOF_DATA \<le> length (meta_data f)"
    and "key' \<noteq> key \<Longrightarrow> mm_files m' key' = mm_files m key'"
  using assms
  by (auto simp: hako_mmap_create_def Let_def region_len_def split: if_splits option.splits)

lemmas sizeof_defs = SIZEOF_META_def OFFSETOF_DATA_def SIZE_MAX_def

lemma mmap_create_maps:
  assumes "mmap_create_memory key sz m = (r, m')" and "0 \<le> r"
  shows "mm_map m' key \<noteq> None \<and> sz \<le> length (mmap_region key m')"
proof -
  obtain ok m1 where c: "hako_mmap_create key (sz + SIZEOF_META) m = (ok, m1)"
    by (cases "hako_mmap_create key (sz + SIZEOF_META) m")
  with assms have ok: ok by (auto simp: mmap_create_memory_def Let_def split: if_splits)
  from hako_mmap_create_spec(4) [OF c ok] obtain f where
    f: "mm_files m1 key = Some f" "sz + SIZEOF_META - OFFSETOF_DATA \<le> length (meta_data f)" by blast
  then have "sz \<le> length (meta_data f)" by (simp add: sizeof_defs)
  with assms c f ok show ?thesis
    by (auto simp: mmap_create_memory_def Let_def mmap_region_def split: if_splits)
qed

interpretation mmap: hako_shared_memory HakoSharedMemoryMmap mmap_invar mmap_fits
proof (unfold_locales, goal_cases)
  case (1 m key sz)
  obtain ok m1 where c: "hako_mmap_create key (sz + SIZEOF_META) m = (ok, m1)"
    by (cases "hako_mmap_create key (sz + SIZEOF_META) m")
  have "mmap_invar m1" using 1 hako_mmap_create_spec(1,3) [OF c] by (auto simp: mmap_invar_def)
  then show ?case
    using 1 c by (auto simp: HakoSharedMemoryMmap_def mmap_create_memory_def Let_def mmap_invar_def)
next
  case (2 m sz key r m')
  then show ?case
    using mmap_create_maps [of key sz m r m'] by (simp add: HakoSharedMemoryMmap_def mmap_lock_memory_def)
next
  case (3 key sz m r m')
  obtain ok m1 where c: "hako_mmap_create key (sz + SIZEOF_META) m = (ok, m1)"
    by (cases "hako_mmap_create key (sz + SIZEOF_META) m")
  then show ?case
    using 3 hako_mmap_create_spec(1) [OF c]
    by (auto simp: HakoSharedMemoryMmap_def mmap_lock_memory_def mmap_create_memory_def Let_def
        split: if_splits)
qed (auto simp: HakoSharedMemoryMmap_def mmap_load_memory_def mmap_lock_memory_def mmap_invar_def
      mmap_region_def mmap_set_region_def mmap_destroy_memory_def hako_mmap_open_def Let_def
      split: if_splits option.splits)

definition shm_invar :: "shm_state \<Rightarrow> bool" where
  "shm_invar m \<longleftrightarrow> dom (sv_map m) \<subseteq> dom (sv_segs m)"

text \<open>The System V backend adds the header's sz without a check, so its contract needs one.\<close>

definition shm_fits :: "nat \<Rightarrow> bool" where
  "shm_fits sz \<longleftrightarrow> sz \<le> SIZE_MAX - SIZEOF_META"

lemma shm_total_fits: "shm_fits sz \<Longrightarrow> shm_total sz = sz + SIZEOF_META"
  by (simp add: shm_fits_def shm_total_def sizeof_defs)

lemma shm_create_maps:
  assumes "shm_fits sz" and "shm_create_memory key sz m = (r, m')" and "0 \<le> r"
  shows "sv_map m' key \<noteq> None \<and> sz \<le> length (shm_region key m')"
  using assms(2,3)
  by (auto simp: shm_create_memory_def Let_def shm_region_def region_len_def shm_total_fits [OF assms(1)]
      sizeof_defs split: if_splits option.splits)

interpretation sysv: hako_shared_memory HakoSharedMemoryShm shm_invar shm_fits
proof (unfold_locales, goal_cases)
  case (2 m sz key r m')
  then show ?case
    using shm_create_maps [of sz key m r m'] by (simp add: HakoSharedMemoryShm_def shm_lock_memory_def)
qed (auto simp: HakoSharedMemoryShm_def shm_create_memory_def shm_load_memory_def shm_lock_memory_def
      shm_invar_def shm_region_def shm_set_region_def shm_destroy_memory_def Let_def
      split: if_splits option.splits)

end
