(* ===== verification/Hako_Pdu_Data.thy ===== *)
theory Hako_Pdu_Data
  imports Hako_Shared_Memory
begin

text \<open>
  The PDU store, \<open>data/hako_pdu_data.hpp\<close> over the metadata of
  \<open>data/hako_base_data.hpp\<close>: creation and lookup of channels with the per-process cache,
  the layout of the PDU area, locked and lock-free reads and writes, the version
  counters, the handshake of the first write, and the set-up, loading and reset of the
  area. Operations run here one at a time; the flags that readers and writers spin on
  are treated as concurrent variables in the theory \<open>Hako_Pdu_Sync\<close>.
  The model is the default build: \<open>HAKO_CORE_EXTENSION\<close> and \<open>FIX_PDU_CREATE_TIMING\<close>
  are not defined, and \<open>size_t\<close> has 64 bits.
\<close>

section \<open>Data\<close>

record HakoPduChannelType =
  ch_offset :: nat
  ch_size :: nat

record HakoPduChannelMapType =
  robo_name :: HakoFixedStringType
  logical_channel_id :: int

record HakoPduMetaDataType =
  mode :: HakoTimeModeType
  pm_asset_num :: int
  pdu_sync_asset_id :: int
  asset_pdu_check_status :: "bool list"
  channel_num :: int
  atomic_is_dirty :: "bool list"
  atomic_is_rbusy :: "bool list list"
  atomic_is_rbusy_for_external :: "bool list"
  atomic_is_wbusy :: "bool list"
  atomic_is_channel_table_busy :: bool
  channel :: "HakoPduChannelType list"
  atomic_pdu_read_version :: "32 word list list"
  atomic_pdu_write_version :: "32 word list"
  channel_map :: "HakoPduChannelMapType list"

text \<open>
  The object \<open>HakoPduData\<close>: the metadata it points to (shared), whether \<open>pdu_\<close> is not
  null, the cache of channel ids, the shared-memory object \<open>asset_shmp_\<close>, and the record
  of the calls made on the environment.
\<close>

record 'm HakoPduData =
  pdu_meta_data :: HakoPduMetaDataType
  pdu_ptr :: bool
  pdu_channel_cache :: "(string \<times> int) \<rightharpoonup> int"
  asset_shmp :: 'm
  trace :: "hako_effect list"

text \<open>
  What the operations take from outside: the build's capacities, the virtual methods of
  the shared-memory object, and whether the file of the init lock can be opened.
\<close>

record 'm pdu_env =
  env_build :: hako_build
  env_shm :: "'m HakoSharedMemory"
  env_init_lock :: bool

type_synonym ('a, 'm) pdu_op = "'m HakoPduData \<Rightarrow> ('a \<times> 'm HakoPduData) result"

abbreviation UINT64_MAX :: nat where "UINT64_MAX \<equiv> SIZE_MAX"

definition emit :: "hako_effect \<Rightarrow> 'm HakoPduData \<Rightarrow> 'm HakoPduData" where
  "emit e w = w\<lparr>trace := trace w @ [e]\<rparr>"

definition upd_meta ::
  "(HakoPduMetaDataType \<Rightarrow> HakoPduMetaDataType) \<Rightarrow> 'm HakoPduData \<Rightarrow> 'm HakoPduData" where
  "upd_meta f w = w\<lparr>pdu_meta_data := f (pdu_meta_data w)\<rparr>"

text \<open>The metadata after the \<open>memset\<close> of the master's start.\<close>

definition zero_meta :: "hako_build \<Rightarrow> HakoPduMetaDataType" where
  "zero_meta b =
    (let A = HAKO_DATA_MAX_ASSET_NUM b; C = HAKO_PDU_CHANNEL_MAX b in
     \<lparr>mode = HakoTimeMode_Master, pm_asset_num = 0, pdu_sync_asset_id = 0,
      asset_pdu_check_status = replicate A False, channel_num = 0,
      atomic_is_dirty = replicate C False, atomic_is_rbusy = replicate A (replicate C False),
      atomic_is_rbusy_for_external = replicate C False, atomic_is_wbusy = replicate C False,
      atomic_is_channel_table_busy = False,
      channel = replicate C \<lparr>ch_offset = 0, ch_size = 0\<rparr>,
      atomic_pdu_read_version = replicate A (replicate C 0),
      atomic_pdu_write_version = replicate C 0,
      channel_map = replicate C \<lparr>robo_name = zero_fixed, logical_channel_id = 0\<rparr>\<rparr>)"

section \<open>The channel table\<close>

text \<open>\<open>hako_spin_lock_bool\<close> with nobody else running: it returns only on a free flag.\<close>

definition hako_spin_lock_bool :: "bool \<Rightarrow> bool result" where
  "hako_spin_lock_bool p = (if p then Inl Blocked else Inr True)"

definition lock_channel_table :: "'m HakoPduData \<Rightarrow> 'm HakoPduData result" where
  "lock_channel_table w =
     bindE (hako_spin_lock_bool (atomic_is_channel_table_busy (pdu_meta_data w))) (\<lambda>v.
       Inr (upd_meta (\<lambda>m. m\<lparr>atomic_is_channel_table_busy := v\<rparr>) w))"

definition unlock_channel_table :: "'m HakoPduData \<Rightarrow> 'm HakoPduData" where
  "unlock_channel_table w = upd_meta (\<lambda>m. m\<lparr>atomic_is_channel_table_busy := False\<rparr>) w"

definition create_channel :: "hako_build \<Rightarrow> int \<Rightarrow> nat \<Rightarrow> (bool, 'm) pdu_op" where
  "create_channel b channel_id sz w =
    (if channel_id \<ge> int (HAKO_PDU_CHANNEL_MAX b) then Inr (False, w)
     else
       bindE (lock_channel_table w) (\<lambda>w.
       bindE (arr_get (channel (pdu_meta_data w)) channel_id) (\<lambda>ch.
         let fresh = (ch_size ch = 0);
             w1 = (if fresh
                   then upd_meta (\<lambda>m. m\<lparr>channel := (channel m)[nat channel_id := ch\<lparr>ch_size := sz\<rparr>],
                                       channel_num := channel_num m + 1\<rparr>) w
                   else w)
         in Inr (fresh, emit (Log ''INFO'' ''channel_id = %d size = %d ret = %d'')
                          (unlock_channel_table w1)))))"

text \<open>The linear search of \<open>get_pdu_channel\<close> over the channel map.\<close>

fun scan_channel_map :: "HakoPduMetaDataType \<Rightarrow> string \<Rightarrow> int \<Rightarrow> nat list \<Rightarrow> nat option result" where
  "scan_channel_map m name channel_id [] = Inr None"
| "scan_channel_map m name channel_id (i # is) =
     bindE (arr_get (channel_map m) (int i)) (\<lambda>entry.
       if logical_channel_id entry \<noteq> channel_id then scan_channel_map m name channel_id is
       else if \<not> fixed_matches (robo_name entry) name then scan_channel_map m name channel_id is
       else Inr (Some i))"

definition get_pdu_channel :: "string \<Rightarrow> int \<Rightarrow> (int, 'm) pdu_op" where
  "get_pdu_channel name channel_id w =
    (case pdu_channel_cache w (name, channel_id) of
       Some c \<Rightarrow> Inr (c, w)
     | None \<Rightarrow>
         bindE (scan_channel_map (pdu_meta_data w) name channel_id [0..<nat (channel_num (pdu_meta_data w))])
           (\<lambda>r. case r of
                  None \<Rightarrow> Inr (-1, w)
                | Some i \<Rightarrow> Inr (int i, w\<lparr>pdu_channel_cache :=
                              map_insert (name, channel_id) (int i) (pdu_channel_cache w)\<rparr>)))"

text \<open>The iteration of \<open>rebuild_pdu_channel_index\<close>; \<open>emplace\<close> keeps an earlier entry.\<close>

fun rebuild_from ::
  "HakoPduMetaDataType \<Rightarrow> nat list \<Rightarrow> ((string \<times> int) \<rightharpoonup> int) \<Rightarrow> ((string \<times> int) \<rightharpoonup> int) result" where
  "rebuild_from m [] c = Inr c"
| "rebuild_from m (i # is) c =
     bindE (arr_get (channel_map m) (int i)) (\<lambda>entry.
       if fs_len (robo_name entry) \<le> 0 then rebuild_from m is c
       else rebuild_from m is
              (map_insert (hako_fixed2string (robo_name entry), logical_channel_id entry) (int i) c))"

definition rebuild_pdu_channel_index :: "'m HakoPduData \<Rightarrow> 'm HakoPduData result" where
  "rebuild_pdu_channel_index w =
     bindE (rebuild_from (pdu_meta_data w) [0..<nat (channel_num (pdu_meta_data w))] Map.empty) (\<lambda>c.
       Inr (w\<lparr>pdu_channel_cache := c\<rparr>))"

text \<open>The constructor \<open>HakoPduData(...)\<close>.\<close>

definition new_HakoPduData :: "HakoPduMetaDataType \<Rightarrow> 'm \<Rightarrow> 'm HakoPduData result" where
  "new_HakoPduData meta shm =
     rebuild_pdu_channel_index
       \<lparr>pdu_meta_data = meta, pdu_ptr = False, pdu_channel_cache = Map.empty, asset_shmp = shm, trace = []\<rparr>"

definition is_exist_lchannel :: "string \<Rightarrow> int \<Rightarrow> (bool, 'm) pdu_op" where
  "is_exist_lchannel name channel_id w =
     bindE (get_pdu_channel name channel_id w) (\<lambda>(c, w). Inr (c \<ge> 0, w))"

text \<open>The update of a free slot by \<open>create_lchannel\<close>.\<close>

definition fill_channel :: "string \<Rightarrow> int \<Rightarrow> nat \<Rightarrow> nat \<Rightarrow> 'm HakoPduData \<Rightarrow> 'm HakoPduData" where
  "fill_channel name channel_id sz new_id w =
     (upd_meta (\<lambda>m. m\<lparr>channel_map := (channel_map m)[new_id :=
            \<lparr>robo_name = hako_string2fixed name (robo_name (channel_map m ! new_id)),
             logical_channel_id = channel_id\<rparr>],
          channel := (channel m)[new_id := (channel m ! new_id)\<lparr>ch_size := sz\<rparr>],
          channel_num := channel_num m + 1\<rparr>) w)
       \<lparr>pdu_channel_cache := map_insert (name, channel_id) (int new_id) (pdu_channel_cache w)\<rparr>"

definition create_lchannel :: "hako_build \<Rightarrow> string \<Rightarrow> int \<Rightarrow> nat \<Rightarrow> (bool, 'm) pdu_op" where
  "create_lchannel b name channel_id sz w =
    (if length name \<ge> HAKO_FIXED_STRLEN_MAX
     then Inr (False, emit (Log ''ERROR'' ''ERROR: robo_name length(%ld) is over max(%d)'') w)
     else
       bindE (lock_channel_table w) (\<lambda>w.
       bindE (is_exist_lchannel name channel_id w) (\<lambda>(exists, w).
         if exists
         then Inr (True, emit (Log ''INFO'' ''INFO: already exist channel: %s %d'') (unlock_channel_table w))
         else
           let new_channel_id = channel_num (pdu_meta_data w);
               done = (\<lambda>ret w. Inr (ret, emit (Log ''INFO'' ''robo_name = %s channel_id = %d size = %d ret = %d'')
                                     (unlock_channel_table w)))
           in if new_channel_id \<ge> int (HAKO_PDU_CHANNEL_MAX b)
              then done False (emit (Log ''ERROR'' ''ERROR: pdu chanel is full'') w)
              else
                bindE (arr_get (channel (pdu_meta_data w)) new_channel_id) (\<lambda>ch.
                  if ch_size ch = 0
                  then done True (fill_channel name channel_id sz (nat new_channel_id) w)
                  else done True w))))"

section \<open>Busy flags and versions\<close>

definition is_pdu_dirty :: "int \<Rightarrow> int \<Rightarrow> 'm HakoPduData \<Rightarrow> bool result" where
  "is_pdu_dirty asset_id channel_id w =
     bindE (arr_get (atomic_pdu_read_version (pdu_meta_data w)) asset_id) (\<lambda>row.
     bindE (arr_get row channel_id) (\<lambda>read_ver.
     bindE (arr_get (atomic_pdu_write_version (pdu_meta_data w)) channel_id) (\<lambda>write_ver.
       Inr (read_ver \<noteq> write_ver))))"

definition is_pdu_wbusy :: "int \<Rightarrow> 'm HakoPduData \<Rightarrow> bool result" where
  "is_pdu_wbusy channel_id w = arr_get (atomic_is_wbusy (pdu_meta_data w)) channel_id"

fun any_rbusy :: "bool list list \<Rightarrow> int \<Rightarrow> bool result" where
  "any_rbusy [] channel_id = Inr False"
| "any_rbusy (row # rows) channel_id =
     bindE (arr_get row channel_id) (\<lambda>busy. if busy then Inr True else any_rbusy rows channel_id)"

definition is_pdu_rbusy :: "int \<Rightarrow> 'm HakoPduData \<Rightarrow> bool result" where
  "is_pdu_rbusy channel_id w =
     bindE (arr_get (atomic_is_rbusy_for_external (pdu_meta_data w)) channel_id) (\<lambda>ext.
       if ext then Inr True else any_rbusy (atomic_is_rbusy (pdu_meta_data w)) channel_id)"

definition set_pdu_wbusy_status :: "int \<Rightarrow> bool \<Rightarrow> 'm HakoPduData \<Rightarrow> 'm HakoPduData result" where
  "set_pdu_wbusy_status channel_id busy w =
     bindE (arr_set (atomic_is_wbusy (pdu_meta_data w)) channel_id busy) (\<lambda>xs.
       Inr (upd_meta (\<lambda>m. m\<lparr>atomic_is_wbusy := xs\<rparr>) w))"

definition set_pdu_rbusy_status :: "int \<Rightarrow> int \<Rightarrow> bool \<Rightarrow> 'm HakoPduData \<Rightarrow> 'm HakoPduData result" where
  "set_pdu_rbusy_status asset_id channel_id busy w =
     bindE (arr_get (atomic_is_rbusy (pdu_meta_data w)) asset_id) (\<lambda>row.
     bindE (arr_set row channel_id busy) (\<lambda>row'.
       Inr (upd_meta (\<lambda>m. m\<lparr>atomic_is_rbusy := (atomic_is_rbusy m)[nat asset_id := row']\<rparr>) w)))"

definition set_pdu_rbusy_status_for_external :: "int \<Rightarrow> bool \<Rightarrow> 'm HakoPduData \<Rightarrow> 'm HakoPduData result" where
  "set_pdu_rbusy_status_for_external channel_id busy w =
     bindE (arr_set (atomic_is_rbusy_for_external (pdu_meta_data w)) channel_id busy) (\<lambda>xs.
       Inr (upd_meta (\<lambda>m. m\<lparr>atomic_is_rbusy_for_external := xs\<rparr>) w))"

section \<open>Set-up of the PDU area\<close>

fun total_size_from :: "nat \<Rightarrow> HakoPduChannelType list \<Rightarrow> nat" where
  "total_size_from tot [] = tot"
| "total_size_from tot (c # cs) =
     (if ch_size c > UINT64_MAX - tot then UINT64_MAX else total_size_from (tot + ch_size c) cs)"

definition pdu_total_size :: "'m HakoPduData \<Rightarrow> nat" where
  "pdu_total_size w = total_size_from 0 (channel (pdu_meta_data w))"

fun assign_offsets :: "nat \<Rightarrow> HakoPduChannelType list \<Rightarrow> HakoPduChannelType list" where
  "assign_offsets off [] = []"
| "assign_offsets off (c # cs) =
     c\<lparr>ch_offset := off\<rparr> # assign_offsets ((off + ch_size c) mod (UINT64_MAX + 1)) cs"

abbreviation pdu_bytes :: "'m pdu_env \<Rightarrow> 'm HakoPduData \<Rightarrow> byte list" where
  "pdu_bytes env w \<equiv> region (env_shm env) HAKO_SHARED_MEMORY_ID_1 (asset_shmp w)"

definition set_pdu_bytes :: "'m pdu_env \<Rightarrow> byte list \<Rightarrow> 'm HakoPduData \<Rightarrow> 'm HakoPduData" where
  "set_pdu_bytes env bs w =
     w\<lparr>asset_shmp := set_region (env_shm env) HAKO_SHARED_MEMORY_ID_1 bs (asset_shmp w)\<rparr>"

text \<open>
  \<open>create\<close>. A failed \<open>create_memory\<close> does not stop it: \<open>HAKO_ASSERT\<close> aborts on the
  negation of its argument, so it never aborts, and the null pointer that
  \<open>lock_memory\<close> then returns reaches \<open>memset\<close>.
\<close>

definition pdu_create :: "'m pdu_env \<Rightarrow> int \<Rightarrow> 'm HakoPduData \<Rightarrow> 'm HakoPduData result" where
  "pdu_create env asset_num w =
    (if \<not> env_init_lock env then Inr w
     else
       let w = emit (Log ''INFO'' ''PDU CREATE: asset_num = %d'') (emit Acquire_Init_Lock w)
       in if pdu_ptr w
          then Inr (emit Release_Init_Lock (emit (Log ''INFO'' ''ALREADY CREATED PDU DATA'')
                 (upd_meta (\<lambda>m. m\<lparr>pm_asset_num := asset_num, mode := HakoTimeMode_Asset\<rparr>) w)))
          else
            let w = upd_meta (\<lambda>m. m\<lparr>mode := HakoTimeMode_Asset\<rparr>) w;
                total_size = pdu_total_size w
            in if total_size > SIZE_MAX then Inr (emit Release_Init_Lock w)
               else
                 let w = emit (Log ''INFO'' ''START CREATE PDU DATA: total_size=%zu'') w;
                     (shmid, shm) = create_memory (env_shm env) HAKO_SHARED_MEMORY_ID_1 total_size (asset_shmp w);
                     w = w\<lparr>asset_shmp := shm\<rparr>
                 in if \<not> lock_memory (env_shm env) HAKO_SHARED_MEMORY_ID_1 (asset_shmp w) then Inl Null_Deref
                    else if total_size > length (pdu_bytes env w) then Inl Out_Of_Bounds
                    else
                      let w = emit (Lock_Memory HAKO_SHARED_MEMORY_ID_1) w;
                          w = upd_meta (\<lambda>m. m\<lparr>pm_asset_num := asset_num,
                                              channel := assign_offsets 0 (channel m)\<rparr>) w;
                          w = set_pdu_bytes env
                                (splice (pdu_bytes env w) 0 (replicate total_size 0)) w;
                          w = emit (Unlock_Memory HAKO_SHARED_MEMORY_ID_1) w
                      in bindE (rebuild_pdu_channel_index (w\<lparr>pdu_ptr := True\<rparr>)) (\<lambda>w.
                           Inr (emit Release_Init_Lock (emit (Log ''INFO'' ''CREATED ADDR=%p'') w))))"

definition pdu_load :: "'m pdu_env \<Rightarrow> (bool, 'm) pdu_op" where
  "pdu_load env w =
    (if \<not> env_init_lock env then Inr (False, w)
     else
       let w = emit Acquire_Init_Lock w
       in if pdu_ptr w then Inr (True, emit Release_Init_Lock w)
          else
            let total_size = pdu_total_size w
            in if total_size > SIZE_MAX then Inr (False, emit Release_Init_Lock w)
               else
                 let (ok, shm) = load_memory (env_shm env) HAKO_SHARED_MEMORY_ID_1 total_size (asset_shmp w);
                     w = w\<lparr>asset_shmp := shm\<rparr>
                 in if \<not> ok then Inr (False, emit Release_Init_Lock w)
                    else
                      bindE (rebuild_pdu_channel_index
                               ((emit (Log ''INFO'' ''LOADED PDU DATA'') w)\<lparr>pdu_ptr := True\<rparr>)) (\<lambda>w.
                        Inr (True, emit Release_Init_Lock w)))"

definition reset_meta :: "HakoPduMetaDataType \<Rightarrow> HakoPduMetaDataType" where
  "reset_meta m =
     m\<lparr>pdu_sync_asset_id := 0, mode := HakoTimeMode_Asset,
       asset_pdu_check_status := map (\<lambda>_. False) (asset_pdu_check_status m),
       atomic_is_rbusy := map (map (\<lambda>_. False)) (atomic_is_rbusy m),
       atomic_pdu_read_version := map (map (\<lambda>_. 0)) (atomic_pdu_read_version m),
       atomic_is_channel_table_busy := False,
       atomic_is_rbusy_for_external := map (\<lambda>_. False) (atomic_is_rbusy_for_external m),
       atomic_is_dirty := map (\<lambda>_. False) (atomic_is_dirty m),
       atomic_is_wbusy := map (\<lambda>_. False) (atomic_is_wbusy m),
       atomic_pdu_write_version := map (\<lambda>_. 0) (atomic_pdu_write_version m)\<rparr>"

definition pdu_reset :: "'m pdu_env \<Rightarrow> 'm HakoPduData \<Rightarrow> 'm HakoPduData result" where
  "pdu_reset env w =
    (if \<not> env_init_lock env then Inr w
     else
       let w = emit Acquire_Init_Lock w
       in if \<not> pdu_ptr w then Inr (emit Release_Init_Lock w)
          else
            let w = emit (Lock_Memory HAKO_SHARED_MEMORY_ID_0) (emit (Log ''INFO'' ''RESET EVENT OCCURED'') w);
                w = upd_meta reset_meta w;
                total_size = pdu_total_size w
            in if total_size > SIZE_MAX then Inr (emit Release_Init_Lock w)
               else if total_size > length (pdu_bytes env w) then Inl Out_Of_Bounds
               else
                 let w = set_pdu_bytes env (splice (pdu_bytes env w) 0 (replicate total_size 0)) w;
                     w = emit (Unlock_Memory HAKO_SHARED_MEMORY_ID_0) w
                 in bindE (rebuild_pdu_channel_index w) (\<lambda>w. Inr (emit Release_Init_Lock w)))"

definition is_pdu_created :: "'m pdu_env \<Rightarrow> (bool, 'm) pdu_op" where
  "is_pdu_created env w =
     bindE (if \<not> pdu_ptr w \<and> pm_asset_num (pdu_meta_data w) > 0
            then bindE (pdu_load env w) (\<lambda>(_, w). Inr w) else Inr w) (\<lambda>w.
       Inr (pm_asset_num (pdu_meta_data w) \<noteq> 0, w))"

section \<open>Reading and writing\<close>

text \<open>\<open>memcpy\<close> from and to the PDU area at the offset of a channel.\<close>

definition copy_out :: "'m pdu_env \<Rightarrow> nat \<Rightarrow> nat \<Rightarrow> 'm HakoPduData \<Rightarrow> byte list result" where
  "copy_out env off len w =
    (if \<not> pdu_ptr w then Inl Null_Deref
     else if off + len > length (pdu_bytes env w) then Inl Out_Of_Bounds
     else Inr (slice (pdu_bytes env w) off len))"

definition copy_in :: "'m pdu_env \<Rightarrow> nat \<Rightarrow> byte list \<Rightarrow> nat \<Rightarrow> 'm HakoPduData \<Rightarrow> 'm HakoPduData result" where
  "copy_in env off data len w =
    (if \<not> pdu_ptr w then Inl Null_Deref
     else if length data < len \<or> off + len > length (pdu_bytes env w) then Inl Out_Of_Bounds
     else Inr (set_pdu_bytes env (splice (pdu_bytes env w) off (take len data)) w))"

text \<open>The implicit load of the first access; its result is not looked at.\<close>

definition ensure_loaded :: "'m pdu_env \<Rightarrow> 'm HakoPduData \<Rightarrow> 'm HakoPduData result" where
  "ensure_loaded env w =
     (if pdu_ptr w then Inr w else bindE (pdu_load env w) (\<lambda>(_, w). Inr w))"

definition finish_write :: "int \<Rightarrow> 'm HakoPduData \<Rightarrow> 'm HakoPduData result" where
  "finish_write channel_id w =
     bindE (arr_set (atomic_is_dirty (pdu_meta_data w)) channel_id True) (\<lambda>dirty.
     bindE (arr_get (atomic_pdu_write_version (pdu_meta_data w)) channel_id) (\<lambda>v.
     bindE (arr_set (atomic_pdu_write_version (pdu_meta_data w)) channel_id (v + 1)) (\<lambda>vs.
       set_pdu_wbusy_status channel_id False
         (upd_meta (\<lambda>m. m\<lparr>atomic_is_dirty := dirty, atomic_pdu_write_version := vs\<rparr>) w))))"

definition write_pdu :: "'m pdu_env \<Rightarrow> int \<Rightarrow> byte list \<Rightarrow> nat \<Rightarrow> (bool, 'm) pdu_op" where
  "write_pdu env channel_id data len w =
    (if channel_id \<ge> int (HAKO_PDU_CHANNEL_MAX (env_build env))
     then Inr (False, emit (Log ''ERROR'' ''channel_id >= MAX(%d) channel_id = %d len = %d'') w)
     else
       bindE (arr_get (channel (pdu_meta_data w)) channel_id) (\<lambda>ch.
         if len > ch_size ch
         then Inr (False, emit (Log ''ERROR'' ''len > channel_size(%d) channel_id = %d len = %d'') w)
         else
           bindE (ensure_loaded env w) (\<lambda>w.
           bindE (set_pdu_wbusy_status channel_id True w) (\<lambda>w.
           bindE (is_pdu_rbusy channel_id w) (\<lambda>rbusy.
             if rbusy then Inl Blocked
             else if ch_offset ch > SIZE_MAX then Inr (False, w)
             else
               bindE (copy_in env (ch_offset ch) data len w) (\<lambda>w.
               bindE (finish_write channel_id w) (\<lambda>w. Inr (True, w))))))))"

definition finish_read :: "int \<Rightarrow> int \<Rightarrow> 'm HakoPduData \<Rightarrow> 'm HakoPduData result" where
  "finish_read asset_id channel_id w =
     bindE (arr_get (atomic_pdu_write_version (pdu_meta_data w)) channel_id) (\<lambda>write_ver.
     bindE (arr_get (atomic_pdu_read_version (pdu_meta_data w)) asset_id) (\<lambda>row.
     bindE (arr_set row channel_id write_ver) (\<lambda>row'.
       set_pdu_rbusy_status asset_id channel_id False
         (upd_meta (\<lambda>m. m\<lparr>atomic_pdu_read_version :=
            (atomic_pdu_read_version m)[nat asset_id := row']\<rparr>) w))))"

text \<open>The bytes read are returned; \<open>None\<close> is the result \<open>false\<close>.\<close>

definition read_pdu :: "'m pdu_env \<Rightarrow> int \<Rightarrow> int \<Rightarrow> nat \<Rightarrow> (byte list option, 'm) pdu_op" where
  "read_pdu env asset_id channel_id len w =
    (if channel_id \<ge> int (HAKO_PDU_CHANNEL_MAX (env_build env))
     then Inr (None, emit (Log ''ERROR'' ''channel_id >= MAX(%d) channel_id = %d len = %d'') w)
     else
       bindE (arr_get (channel (pdu_meta_data w)) channel_id) (\<lambda>ch.
         if len > ch_size ch
         then Inr (None, emit (Log ''ERROR'' ''len > channel_size(%d) channel_id = %d len = %d'') w)
         else
           bindE (ensure_loaded env w) (\<lambda>w.
           bindE (set_pdu_rbusy_status asset_id channel_id True w) (\<lambda>w.
           bindE (is_pdu_wbusy channel_id w) (\<lambda>wbusy.
             if wbusy then Inl Blocked
             else if ch_offset ch > SIZE_MAX then Inr (None, w)
             else
               bindE (copy_out env (ch_offset ch) len w) (\<lambda>bs.
               bindE (finish_read asset_id channel_id w) (\<lambda>w. Inr (Some bs, w))))))))"

definition read_pdu_for_external :: "'m pdu_env \<Rightarrow> int \<Rightarrow> nat \<Rightarrow> (byte list option, 'm) pdu_op" where
  "read_pdu_for_external env channel_id len w =
    (if channel_id \<ge> int (HAKO_PDU_CHANNEL_MAX (env_build env))
     then Inr (None, emit (Log ''ERROR'' ''channel_id >= MAX(%d) channel_id = %d len = %d'') w)
     else
       bindE (arr_get (channel (pdu_meta_data w)) channel_id) (\<lambda>ch.
         if len > ch_size ch
         then Inr (None, emit (Log ''ERROR'' ''len > channel_size(%d) channel_id = %d len = %d'') w)
         else
           bindE (ensure_loaded env w) (\<lambda>w.
           bindE (set_pdu_rbusy_status_for_external channel_id True w) (\<lambda>w.
           bindE (is_pdu_wbusy channel_id w) (\<lambda>wbusy.
             if wbusy then Inl Blocked
             else if ch_offset ch > SIZE_MAX then Inr (None, w)
             else
               bindE (copy_out env (ch_offset ch) len w) (\<lambda>bs.
               bindE (set_pdu_rbusy_status_for_external channel_id False w) (\<lambda>w. Inr (Some bs, w))))))))"

text \<open>The lock-free accessors; the caller's buffer may be null here.\<close>

definition read_pdu_nolock :: "'m pdu_env \<Rightarrow> int \<Rightarrow> bool \<Rightarrow> nat \<Rightarrow> (byte list option, 'm) pdu_op" where
  "read_pdu_nolock env channel_id buf_ok len w =
    (if channel_id \<ge> int (HAKO_PDU_CHANNEL_MAX (env_build env)) then Inr (None, w)
     else if \<not> buf_ok then Inr (None, w)
     else
       bindE (ensure_loaded env w) (\<lambda>w.
       bindE (arr_get (channel (pdu_meta_data w)) channel_id) (\<lambda>ch.
         if ch_size ch > SIZE_MAX then Inr (None, w)
         else if ch_offset ch > SIZE_MAX then Inr (None, w)
         else bindE (copy_out env (ch_offset ch) (min len (ch_size ch)) w) (\<lambda>bs. Inr (Some bs, w)))))"

definition write_pdu_nolock :: "'m pdu_env \<Rightarrow> int \<Rightarrow> byte list option \<Rightarrow> nat \<Rightarrow> (bool, 'm) pdu_op" where
  "write_pdu_nolock env channel_id data len w =
    (if channel_id \<ge> int (HAKO_PDU_CHANNEL_MAX (env_build env)) then Inr (False, w)
     else case data of
       None \<Rightarrow> Inr (False, w)
     | Some bs \<Rightarrow>
         bindE (ensure_loaded env w) (\<lambda>w.
         bindE (arr_get (channel (pdu_meta_data w)) channel_id) (\<lambda>ch.
           if ch_size ch > SIZE_MAX then Inr (False, w)
           else if ch_offset ch > SIZE_MAX then Inr (False, w)
           else bindE (copy_in env (ch_offset ch) bs (min len (ch_size ch)) w) (\<lambda>w. Inr (True, w)))))"

text \<open>\<open>pdu_size_nolock\<close>; its \<open>return -1\<close> is the largest \<open>size_t\<close>.\<close>

definition pdu_size_nolock :: "hako_build \<Rightarrow> int \<Rightarrow> 'm HakoPduData \<Rightarrow> nat result" where
  "pdu_size_nolock b channel_id w =
    (if channel_id \<ge> int (HAKO_PDU_CHANNEL_MAX b) then Inr SIZE_MAX
     else
       bindE (arr_get (channel (pdu_meta_data w)) channel_id) (\<lambda>ch.
         if ch_size ch > SIZE_MAX then Inr SIZE_MAX else Inr (ch_size ch)))"

section \<open>The handshake of the first write\<close>

definition notify_read_pdu_done :: "hako_build \<Rightarrow> int \<Rightarrow> 'm HakoPduData \<Rightarrow> 'm HakoPduData" where
  "notify_read_pdu_done b asset_id w = w"

definition notify_write_pdu_done :: "hako_build \<Rightarrow> int \<Rightarrow> 'm HakoPduData \<Rightarrow> 'm HakoPduData result" where
  "notify_write_pdu_done b asset_id w =
    (if asset_id \<ge> int (HAKO_DATA_MAX_ASSET_NUM b) then Inr w
     else if mode (pdu_meta_data w) = HakoTimeMode_Master then Inr w
     else
       bindE (arr_set (asset_pdu_check_status (pdu_meta_data w)) asset_id True) (\<lambda>st.
         let w = upd_meta (\<lambda>m. m\<lparr>asset_pdu_check_status := st\<rparr>) w;
             count = int (count_if (\<lambda>x. x) st)
         in Inr (if count \<ge> pm_asset_num (pdu_meta_data w)
                 then upd_meta (\<lambda>m. m\<lparr>mode := HakoTimeMode_Master\<rparr>) w else w)))"

definition is_pdu_sync_mode :: "hako_build \<Rightarrow> int \<Rightarrow> 'm HakoPduData \<Rightarrow> bool result" where
  "is_pdu_sync_mode b asset_id w =
    (if asset_id \<ge> int (HAKO_DATA_MAX_ASSET_NUM b) then Inr False
     else if mode (pdu_meta_data w) = HakoTimeMode_Master then Inr False
     else bindE (arr_get (asset_pdu_check_status (pdu_meta_data w)) asset_id) (\<lambda>st. Inr (\<not> st)))"

definition is_simulation_mode :: "'m HakoPduData \<Rightarrow> bool" where
  "is_simulation_mode w \<longleftrightarrow> mode (pdu_meta_data w) = HakoTimeMode_Master"

end
