(* ===== verification/Hako_Pdu_Channels.thy ===== *)
theory Hako_Pdu_Channels
  imports Hako_Pdu_Data
begin

text \<open>
  The channel table of \<open>HakoPduData\<close>: its invariant, the lookup as a search without the
  cache, and the lemmas that the cached lookup and the creation of a logical channel
  implement a table from (robot name, logical id) to real channel ids.
\<close>

section \<open>Well-formed metadata\<close>

definition meta_ok :: "hako_build \<Rightarrow> HakoPduMetaDataType \<Rightarrow> bool" where
  "meta_ok b m \<longleftrightarrow>
     length (asset_pdu_check_status m) = HAKO_DATA_MAX_ASSET_NUM b \<and>
     length (atomic_is_dirty m) = HAKO_PDU_CHANNEL_MAX b \<and>
     length (atomic_is_rbusy m) = HAKO_DATA_MAX_ASSET_NUM b \<and>
     (\<forall>row \<in> set (atomic_is_rbusy m). length row = HAKO_PDU_CHANNEL_MAX b) \<and>
     length (atomic_is_rbusy_for_external m) = HAKO_PDU_CHANNEL_MAX b \<and>
     length (atomic_is_wbusy m) = HAKO_PDU_CHANNEL_MAX b \<and>
     length (channel m) = HAKO_PDU_CHANNEL_MAX b \<and>
     length (atomic_pdu_read_version m) = HAKO_DATA_MAX_ASSET_NUM b \<and>
     (\<forall>row \<in> set (atomic_pdu_read_version m). length row = HAKO_PDU_CHANNEL_MAX b) \<and>
     length (atomic_pdu_write_version m) = HAKO_PDU_CHANNEL_MAX b \<and>
     length (channel_map m) = HAKO_PDU_CHANNEL_MAX b \<and>
     0 \<le> channel_num m \<and> channel_num m \<le> int (HAKO_PDU_CHANNEL_MAX b) \<and>
     (\<forall>e \<in> set (channel_map m). fixed_ok (robo_name e))"

lemma meta_ok_zero: "meta_ok b (zero_meta b)"
  by (simp add: meta_ok_def zero_meta_def Let_def)

text \<open>
  The slots from \<open>channel_num\<close> on are free. This holds as long as channels are made by
  \<open>create_lchannel\<close> alone.
\<close>

definition table_compact :: "HakoPduMetaDataType \<Rightarrow> bool" where
  "table_compact m \<longleftrightarrow> (\<forall>i < length (channel m). channel_num m \<le> int i \<longrightarrow> ch_size (channel m ! i) = 0)"

section \<open>The lookup without the cache\<close>

definition chan_matches :: "HakoPduMetaDataType \<Rightarrow> string \<Rightarrow> int \<Rightarrow> nat \<Rightarrow> bool" where
  "chan_matches m name channel_id i \<longleftrightarrow>
     logical_channel_id (channel_map m ! i) = channel_id \<and>
     hako_fixed2string (robo_name (channel_map m ! i)) = name"

definition lookup_channel :: "HakoPduMetaDataType \<Rightarrow> string \<Rightarrow> int \<Rightarrow> int" where
  "lookup_channel m name channel_id =
     (case filter (chan_matches m name channel_id) [0..<nat (channel_num m)] of
        [] \<Rightarrow> -1 | i # _ \<Rightarrow> int i)"

definition cache_ok :: "HakoPduMetaDataType \<Rightarrow> ((string \<times> int) \<rightharpoonup> int) \<Rightarrow> bool" where
  "cache_ok m c \<longleftrightarrow>
     (\<forall>name channel_id i. NUL \<notin> set name \<longrightarrow> c (name, channel_id) = Some i \<longrightarrow>
        lookup_channel m name channel_id = i \<and> 0 \<le> i)"

definition chan_inv :: "hako_build \<Rightarrow> 'm HakoPduData \<Rightarrow> bool" where
  "chan_inv b w \<longleftrightarrow>
     meta_ok b (pdu_meta_data w) \<and> table_compact (pdu_meta_data w) \<and>
     cache_ok (pdu_meta_data w) (pdu_channel_cache w) \<and>
     \<not> atomic_is_channel_table_busy (pdu_meta_data w)"

lemma scan_channel_map_eq:
  assumes "NUL \<notin> set name" and "\<forall>e \<in> set (channel_map m). fixed_ok (robo_name e)"
    and "\<forall>i \<in> set is. i < length (channel_map m)"
  shows "scan_channel_map m name channel_id is =
    Inr (case filter (chan_matches m name channel_id) is of [] \<Rightarrow> None | i # _ \<Rightarrow> Some i)"
  using assms(3)
proof (induction "is")
  case (Cons i "is")
  then have "i < length (channel_map m)" by simp
  then have "fixed_ok (robo_name (channel_map m ! i))" using assms(2) nth_mem by blast
  then show ?case
    using Cons fixed_matches_iff [OF assms(1)] by (simp add: chan_matches_def)
qed simp

lemma scan_all_channels:
  assumes "meta_ok b m" and "NUL \<notin> set name"
  shows "scan_channel_map m name channel_id [0..<nat (channel_num m)] =
    Inr (if lookup_channel m name channel_id < 0 then None
         else Some (nat (lookup_channel m name channel_id)))"
proof -
  have "\<forall>i \<in> set [0..<nat (channel_num m)]. i < length (channel_map m)"
    using assms(1) by (auto simp: meta_ok_def)
  then show ?thesis
    using scan_channel_map_eq [OF assms(2), of m "[0..<nat (channel_num m)]" channel_id] assms(1)
    by (auto simp: lookup_channel_def meta_ok_def split: list.splits)
qed

lemma lookup_channel_range:
  "lookup_channel m name channel_id = -1 \<or>
   (0 \<le> lookup_channel m name channel_id \<and> lookup_channel m name channel_id < channel_num m \<and>
    chan_matches m name channel_id (nat (lookup_channel m name channel_id)))"
proof (cases "filter (chan_matches m name channel_id) [0..<nat (channel_num m)]")
  case (Cons i "is")
  then show ?thesis
    using filter_eq_Cons_hd [OF Cons] by (auto simp: lookup_channel_def)
qed (simp add: lookup_channel_def)

lemma lookup_channel_miss:
  "lookup_channel m name channel_id < 0 \<longleftrightarrow>
   (\<forall>i < nat (channel_num m). \<not> chan_matches m name channel_id i)"
  using lookup_channel_range [of m name channel_id]
  by (auto simp: lookup_channel_def filter_empty_conv dest!: filter_eq_Cons_hd split: list.splits)

lemma cache_ok_empty [simp]: "cache_ok m Map.empty"
  by (simp add: cache_ok_def)

lemma cache_ok_insert:
  assumes "cache_ok m c" and "lookup_channel m name channel_id = i" and "0 \<le> i"
  shows "cache_ok m (map_insert (name, channel_id) i c)"
  using assms by (auto simp: cache_ok_def map_insert_def split: option.splits if_splits)

text \<open>The cached lookup is the lookup.\<close>

lemma get_pdu_channel_eq:
  assumes "meta_ok b (pdu_meta_data w)" and "cache_ok (pdu_meta_data w) (pdu_channel_cache w)"
    and "NUL \<notin> set name"
  obtains c where
    "get_pdu_channel name channel_id w =
       Inr (lookup_channel (pdu_meta_data w) name channel_id, w\<lparr>pdu_channel_cache := c\<rparr>)"
    "cache_ok (pdu_meta_data w) c"
    "lookup_channel (pdu_meta_data w) name channel_id < 0 \<Longrightarrow> c = pdu_channel_cache w"
proof (cases "pdu_channel_cache w (name, channel_id)")
  case (Some i)
  then have "lookup_channel (pdu_meta_data w) name channel_id = i"
    using assms(2,3) by (simp add: cache_ok_def)
  then show ?thesis
    using Some assms(2) by (intro that [of "pdu_channel_cache w"]) (simp_all add: get_pdu_channel_def)
next
  case None
  let ?m = "pdu_meta_data w" and ?i = "lookup_channel (pdu_meta_data w) name channel_id"
  let ?c = "map_insert (name, channel_id) ?i (pdu_channel_cache w)"
  have scan: "scan_channel_map ?m name channel_id [0..<nat (channel_num ?m)] =
      Inr (if ?i < 0 then None else Some (nat ?i))"
    by (rule scan_all_channels [OF assms(1,3)])
  show ?thesis
  proof (cases "?i < 0")
    case True
    then have "?i = -1" using lookup_channel_range [of ?m name channel_id] by linarith
    then show ?thesis
      using True None scan assms(2)
      by (intro that [of "pdu_channel_cache w"]) (simp_all add: get_pdu_channel_def)
  next
    case False
    then show ?thesis
      using None scan cache_ok_insert [OF assms(2) refl, of name channel_id]
      by (intro that [of ?c]) (simp_all add: get_pdu_channel_def)
  qed
qed

section \<open>Rebuilding the cache\<close>

lemma rebuild_from_ok:
  assumes "\<forall>i \<in> set is. i < length (channel_map m)"
  shows "\<exists>c'. rebuild_from m is c = Inr c'"
  using assms by (induction "is" arbitrary: c) auto

lemma rebuild_keeps_empty:
  assumes "\<forall>i \<in> set is. i < length (channel_map m)"
    and "\<forall>e \<in> set (channel_map m). fixed_ok (robo_name e)"
    and "rebuild_from m is c = Inr c'"
  shows "c' ([], channel_id) = c ([], channel_id)"
  using assms(1,3)
proof (induction "is" arbitrary: c)
  case (Cons i "is")
  then have "fixed_ok (robo_name (channel_map m ! i))" using assms(2) nth_mem by auto
  then have "fs_len (robo_name (channel_map m ! i)) > 0 \<Longrightarrow>
      hako_fixed2string (robo_name (channel_map m ! i)) \<noteq> []"
    by (auto simp: hako_fixed2string_def fixed_ok_def)
  then show ?case
    using Cons by (fastforce simp: map_insert_def split: if_splits option.splits)
qed simp

text \<open>
  An entry of the rebuilt cache is the first slot of the scanned range with that key, and
  an entry that was there before stays.
\<close>

lemma rebuild_from_entry:
  assumes "\<forall>i \<in> set is. i < length (channel_map m)"
    and "\<forall>e \<in> set (channel_map m). fixed_ok (robo_name e)"
    and "rebuild_from m is c = Inr c'" and "c' (name, channel_id) = Some k"
  shows "c (name, channel_id) = Some k \<or>
    c (name, channel_id) = None \<and>
    (\<exists>i rest. filter (chan_matches m name channel_id) is = i # rest \<and> int i = k)"
  using assms(1,3,4)
proof (induction "is" arbitrary: c)
  case (Cons i "is")
  let ?e = "channel_map m ! i"
  let ?key = "(hako_fixed2string (robo_name ?e), logical_channel_id ?e)"
  let ?c = "if fs_len (robo_name ?e) \<le> 0 then c else map_insert ?key (int i) c"
  have ih: "?c (name, channel_id) = Some k \<or> ?c (name, channel_id) = None \<and>
      (\<exists>i rest. filter (chan_matches m name channel_id) is = i # rest \<and> int i = k)"
    using Cons.prems by (intro Cons.IH) (auto split: if_splits)
  have ok: "fixed_ok (robo_name ?e)" using Cons.prems(1) assms(2) nth_mem by auto
  show ?case
  proof (cases "fs_len (robo_name ?e) \<le> 0 \<and> name = []")
    case True
    then have "rebuild_from m is c = Inr c'" using Cons.prems by simp
    then have "c (name, channel_id) = Some k"
      using True rebuild_keeps_empty [OF _ assms(2)] Cons.prems by fastforce
    then show ?thesis ..
  next
    case False
    then have "chan_matches m name channel_id i \<longleftrightarrow> (name, channel_id) = ?key \<and> fs_len (robo_name ?e) > 0"
      using ok by (auto simp: chan_matches_def hako_fixed2string_def fixed_ok_def)
    then show ?thesis
      using ih by (auto simp: map_insert_def split: if_splits option.splits)
  qed
qed simp

lemma rebuild_cache_ok:
  assumes "meta_ok b m" and "rebuild_from m [0..<nat (channel_num m)] Map.empty = Inr c"
  shows "cache_ok m c"
  unfolding cache_ok_def
proof (intro allI impI)
  fix name channel_id k
  assume "c (name, channel_id) = Some k"
  moreover have "\<forall>i \<in> set [0..<nat (channel_num m)]. i < length (channel_map m)"
    using assms(1) by (auto simp: meta_ok_def)
  ultimately obtain i rest where
    "filter (chan_matches m name channel_id) [0..<nat (channel_num m)] = i # rest" "int i = k"
    using rebuild_from_entry [OF _ _ assms(2)] assms(1) by (force simp: meta_ok_def)
  then show "lookup_channel m name channel_id = k \<and> 0 \<le> k" by (auto simp: lookup_channel_def)
qed

lemma rebuild_pdu_channel_index_ok:
  assumes "meta_ok b (pdu_meta_data w)"
  obtains c where "rebuild_pdu_channel_index w = Inr (w\<lparr>pdu_channel_cache := c\<rparr>)"
    "cache_ok (pdu_meta_data w) c"
proof -
  let ?m = "pdu_meta_data w"
  have "\<forall>i \<in> set [0..<nat (channel_num ?m)]. i < length (channel_map ?m)"
    using assms by (auto simp: meta_ok_def)
  from rebuild_from_ok [OF this] obtain c where
    c: "rebuild_from ?m [0..<nat (channel_num ?m)] Map.empty = Inr c" by blast
  show ?thesis
    using c rebuild_cache_ok [OF assms c] by (intro that) (simp_all add: rebuild_pdu_channel_index_def)
qed

section \<open>Creating a logical channel\<close>

definition adds_channel ::
  "string \<Rightarrow> int \<Rightarrow> nat \<Rightarrow> HakoPduMetaDataType \<Rightarrow> HakoPduMetaDataType \<Rightarrow> bool" where
  "adds_channel name channel_id sz m m' \<longleftrightarrow>
     lookup_channel m' name channel_id = channel_num m \<and>
     (\<forall>n c. (n, c) \<noteq> (name, channel_id) \<longrightarrow> lookup_channel m' n c = lookup_channel m n c) \<and>
     channel_num m' = channel_num m + 1 \<and>
     channel m' = (channel m)[nat (channel_num m) := (channel m ! nat (channel_num m))\<lparr>ch_size := sz\<rparr>] \<and>
     m' = m\<lparr>channel_map := channel_map m', channel := channel m', channel_num := channel_num m'\<rparr>"

lemma fill_channel_matches:
  assumes "meta_ok b (pdu_meta_data w)" and "channel_num (pdu_meta_data w) < int (HAKO_PDU_CHANNEL_MAX b)"
    and "k = nat (channel_num (pdu_meta_data w))"
    and "m' = pdu_meta_data (fill_channel name channel_id sz k w)"
  shows "i < k \<Longrightarrow> chan_matches m' n c i = chan_matches (pdu_meta_data w) n c i"
    and "chan_matches m' n c k \<longleftrightarrow> (n, c) = (name, channel_id)"
  using assms
  by (auto simp: chan_matches_def fill_channel_def upd_meta_def meta_ok_def)

lemma fill_channel_adds:
  assumes "meta_ok b (pdu_meta_data w)" and "channel_num (pdu_meta_data w) < int (HAKO_PDU_CHANNEL_MAX b)"
    and "lookup_channel (pdu_meta_data w) name channel_id < 0"
    and "m' = pdu_meta_data (fill_channel name channel_id sz (nat (channel_num (pdu_meta_data w))) w)"
  shows "adds_channel name channel_id sz (pdu_meta_data w) m'"
proof -
  let ?m = "pdu_meta_data w" and ?k = "nat (channel_num (pdu_meta_data w))"
  have num: "channel_num m' = channel_num ?m + 1" "channel m' =
      (channel ?m)[?k := (channel ?m ! ?k)\<lparr>ch_size := sz\<rparr>]" and nn: "0 \<le> channel_num ?m"
    and frame: "m' = ?m\<lparr>channel_map := channel_map m', channel := channel m', channel_num := channel_num m'\<rparr>"
    using assms by (auto simp: fill_channel_def upd_meta_def meta_ok_def)
  then have range: "[0..<nat (channel_num m')] = [0..<?k] @ [?k]"
    by (simp add: nat_add_distrib)
  have fil: "filter (chan_matches m' n c) [0..<nat (channel_num m')] =
      filter (chan_matches ?m n c) [0..<?k] @ (if (n, c) = (name, channel_id) then [?k] else [])" for n c
    using fill_channel_matches [OF assms(1,2) refl assms(4)] unfolding range
    by (auto intro!: filter_cong)
  have "filter (chan_matches ?m name channel_id) [0..<?k] = []"
    using assms(3) by (auto simp: lookup_channel_def split: list.splits)
  then show ?thesis
    using fil num nn frame by (auto simp: adds_channel_def lookup_channel_def split: list.splits)
qed

lemma adds_channel_cache_ok:
  assumes "adds_channel name channel_id sz m m'" and "cache_ok m c"
    and "lookup_channel m name channel_id < 0" and "0 \<le> channel_num m" and "NUL \<notin> set name"
  shows "cache_ok m' (map_insert (name, channel_id) (channel_num m) c)"
proof -
  have "c (name, channel_id) \<noteq> Some i" for i
    using assms(2,3,5) unfolding cache_ok_def by force
  then have "c (name, channel_id) = None" by (cases "c (name, channel_id)") auto
  moreover have "lookup_channel m' n d = i \<and> 0 \<le> i"
    if "NUL \<notin> set n" "(c((name, channel_id) \<mapsto> channel_num m)) (n, d) = Some i" for n d i
    using that assms(1,2,4) by (auto simp: adds_channel_def cache_ok_def split: if_splits)
  ultimately show ?thesis by (simp add: cache_ok_def map_insert_def)
qed

lemma fill_channel_meta_ok:
  assumes "meta_ok b (pdu_meta_data w)" and "channel_num (pdu_meta_data w) < int (HAKO_PDU_CHANNEL_MAX b)"
    and "length name < HAKO_FIXED_STRLEN_MAX"
  shows "meta_ok b (pdu_meta_data (fill_channel name channel_id sz (nat (channel_num (pdu_meta_data w))) w))"
proof -
  let ?m = "pdu_meta_data w" and ?k = "nat (channel_num (pdu_meta_data w))"
  have "fixed_ok (robo_name (channel_map ?m ! ?k))"
    using assms(1,2) by (auto simp: meta_ok_def)
  then have "fixed_ok (hako_string2fixed name (robo_name (channel_map ?m ! ?k)))"
    using assms(3) by (simp add: fixed_ok_string2fixed)
  then have "\<forall>e \<in> set ((channel_map ?m)[?k := \<lparr>robo_name = hako_string2fixed name (robo_name (channel_map ?m ! ?k)),
      logical_channel_id = channel_id\<rparr>]). fixed_ok (robo_name e)"
    using assms(1) set_update_subset_insert [of "channel_map ?m" ?k] by (fastforce simp: meta_ok_def)
  then show ?thesis
    using assms(1,2) by (auto simp: meta_ok_def fill_channel_def upd_meta_def)
qed

lemma fill_channel_compact:
  assumes "table_compact (pdu_meta_data w)" and "0 \<le> channel_num (pdu_meta_data w)"
  shows "table_compact (pdu_meta_data (fill_channel name channel_id sz (nat (channel_num (pdu_meta_data w))) w))"
  using assms by (auto simp: table_compact_def fill_channel_def upd_meta_def nth_list_update)

lemma upd_meta_simps [simp]:
  "pdu_meta_data (upd_meta f w) = f (pdu_meta_data w)"
  "pdu_ptr (upd_meta f w) = pdu_ptr w"
  "pdu_channel_cache (upd_meta f w) = pdu_channel_cache w"
  "asset_shmp (upd_meta f w) = asset_shmp w"
  "trace (upd_meta f w) = trace w"
  by (simp_all add: upd_meta_def)

lemma emit_simps [simp]:
  "pdu_meta_data (emit e w) = pdu_meta_data w"
  "pdu_ptr (emit e w) = pdu_ptr w"
  "pdu_channel_cache (emit e w) = pdu_channel_cache w"
  "asset_shmp (emit e w) = asset_shmp w"
  "trace (emit e w) = trace w @ [e]"
  by (simp_all add: emit_def)

text \<open>The flag of the table lock plays no part in lookups and well-formedness.\<close>

lemma busy_flag_irrelevant [simp]:
  "meta_ok b (m\<lparr>atomic_is_channel_table_busy := v\<rparr>) = meta_ok b m"
  "lookup_channel (m\<lparr>atomic_is_channel_table_busy := v\<rparr>) = lookup_channel m"
  "table_compact (m\<lparr>atomic_is_channel_table_busy := v\<rparr>) = table_compact m"
  "cache_ok (m\<lparr>atomic_is_channel_table_busy := v\<rparr>) = cache_ok m"
proof -
  have "chan_matches (m\<lparr>atomic_is_channel_table_busy := v\<rparr>) = chan_matches m"
    by (intro ext) (simp add: chan_matches_def)
  then show l: "lookup_channel (m\<lparr>atomic_is_channel_table_busy := v\<rparr>) = lookup_channel m"
    by (intro ext) (simp add: lookup_channel_def)
  show "cache_ok (m\<lparr>atomic_is_channel_table_busy := v\<rparr>) = cache_ok m"
    by (intro ext) (simp add: cache_ok_def l)
qed (simp_all add: meta_ok_def table_compact_def)

lemma create_lchannel_found:
  assumes "chan_inv b w" and "NUL \<notin> set name" and "length name < HAKO_FIXED_STRLEN_MAX"
    and "0 \<le> lookup_channel (pdu_meta_data w) name channel_id"
  obtains w' where "create_lchannel b name channel_id sz w = Inr (True, w')"
    "pdu_meta_data w' = pdu_meta_data w" "chan_inv b w'"
proof -
  let ?w = "upd_meta (\<lambda>m. m\<lparr>atomic_is_channel_table_busy := True\<rparr>) w"
  obtain c where c: "get_pdu_channel name channel_id ?w =
      Inr (lookup_channel (pdu_meta_data w) name channel_id, ?w\<lparr>pdu_channel_cache := c\<rparr>)"
      "cache_ok (pdu_meta_data w) c"
    using get_pdu_channel_eq [of b ?w name channel_id] assms(1,2) by (auto simp: chan_inv_def)
  show ?thesis
    using assms c
    by (intro that [of "emit (Log ''INFO'' ''INFO: already exist channel: %s %d'')
            (unlock_channel_table (?w\<lparr>pdu_channel_cache := c\<rparr>))"])
      (simp_all add: create_lchannel_def lock_channel_table_def hako_spin_lock_bool_def
        is_exist_lchannel_def unlock_channel_table_def chan_inv_def)
qed

lemma create_lchannel_new:
  assumes "chan_inv b w" and "NUL \<notin> set name" and "length name < HAKO_FIXED_STRLEN_MAX"
    and "lookup_channel (pdu_meta_data w) name channel_id < 0"
    and "channel_num (pdu_meta_data w) < int (HAKO_PDU_CHANNEL_MAX b)"
  obtains w' where "create_lchannel b name channel_id sz w = Inr (True, w')"
    "adds_channel name channel_id sz (pdu_meta_data w) (pdu_meta_data w')" "chan_inv b w'"
    "pdu_ptr w' = pdu_ptr w" "asset_shmp w' = asset_shmp w"
proof -
  let ?m = "pdu_meta_data w" and ?k = "nat (channel_num (pdu_meta_data w))"
  let ?w = "upd_meta (\<lambda>m. m\<lparr>atomic_is_channel_table_busy := True\<rparr>) w"
  let ?w1 = "fill_channel name channel_id sz ?k ?w"
  let ?w' = "emit (Log ''INFO'' ''robo_name = %s channel_id = %d size = %d ret = %d'') (unlock_channel_table ?w1)"
  have inv: "meta_ok b ?m" "table_compact ?m" "cache_ok ?m (pdu_channel_cache w)"
    "\<not> atomic_is_channel_table_busy ?m" using assms(1) by (simp_all add: chan_inv_def)
  then have nn: "0 \<le> channel_num ?m" "?k < length (channel ?m)"
    using assms(5) by (auto simp: meta_ok_def)
  obtain c where c: "get_pdu_channel name channel_id ?w = Inr (lookup_channel ?m name channel_id, ?w)"
    using get_pdu_channel_eq [of b ?w name channel_id] inv assms(2,4) by (auto simp: upd_meta_def)
  have "ch_size (channel ?m ! ?k) = 0" using inv(2) nn by (simp add: table_compact_def)
  then have run: "create_lchannel b name channel_id sz w = Inr (True, ?w')"
    using assms c nn inv(4)
    by (simp add: create_lchannel_def lock_channel_table_def hako_spin_lock_bool_def
        is_exist_lchannel_def Let_def)
  have m': "pdu_meta_data ?w' = (pdu_meta_data ?w1)\<lparr>atomic_is_channel_table_busy := False\<rparr>"
    by (simp add: unlock_channel_table_def)
  have adds: "adds_channel name channel_id sz (pdu_meta_data ?w) (pdu_meta_data ?w1)"
    using fill_channel_adds [of b ?w name channel_id _ sz] inv assms by simp
  have frame: "pdu_meta_data ?w' = ?m\<lparr>channel_map := channel_map (pdu_meta_data ?w'),
      channel := channel (pdu_meta_data ?w'), channel_num := channel_num (pdu_meta_data ?w')\<rparr>"
    using inv(4) unfolding m' by (simp add: fill_channel_def)
  have same: "lookup_channel (pdu_meta_data ?w') = lookup_channel (pdu_meta_data ?w1)"
    "channel (pdu_meta_data ?w') = channel (pdu_meta_data ?w1)"
    "channel_num (pdu_meta_data ?w') = channel_num (pdu_meta_data ?w1)"
    unfolding m' by simp_all
  have adds': "adds_channel name channel_id sz ?m (pdu_meta_data ?w')"
    using adds unfolding adds_channel_def
    by (elim conjE, intro conjI frame) (simp_all only: same busy_flag_irrelevant upd_meta_simps, simp_all)
  have "cache_ok (pdu_meta_data ?w1) (map_insert (name, channel_id) (channel_num ?m) (pdu_channel_cache w))"
    using adds_channel_cache_ok [OF adds, of "pdu_channel_cache w"] inv nn assms by simp
  then have inv': "chan_inv b ?w'"
    unfolding chan_inv_def m'
    using fill_channel_meta_ok [of b ?w name] fill_channel_compact [of ?w name] inv nn assms
    by (simp add: unlock_channel_table_def) (simp add: fill_channel_def)
  show ?thesis
    by (rule that [OF run adds' inv']) (simp_all add: unlock_channel_table_def fill_channel_def)
qed

lemma create_lchannel_full:
  assumes "chan_inv b w" and "NUL \<notin> set name" and "length name < HAKO_FIXED_STRLEN_MAX"
    and "lookup_channel (pdu_meta_data w) name channel_id < 0"
    and "channel_num (pdu_meta_data w) = int (HAKO_PDU_CHANNEL_MAX b)"
  obtains w' where "create_lchannel b name channel_id sz w = Inr (False, w')"
    "pdu_meta_data w' = pdu_meta_data w" "chan_inv b w'"
proof -
  let ?m = "pdu_meta_data w"
  let ?w = "upd_meta (\<lambda>m. m\<lparr>atomic_is_channel_table_busy := True\<rparr>) w"
  let ?w' = "emit (Log ''INFO'' ''robo_name = %s channel_id = %d size = %d ret = %d'')
      (unlock_channel_table (emit (Log ''ERROR'' ''ERROR: pdu chanel is full'') ?w))"
  have inv: "meta_ok b ?m" "cache_ok ?m (pdu_channel_cache w)" "\<not> atomic_is_channel_table_busy ?m"
    using assms(1) by (simp_all add: chan_inv_def)
  have c: "get_pdu_channel name channel_id ?w = Inr (lookup_channel ?m name channel_id, ?w)"
    using get_pdu_channel_eq [of b ?w name channel_id] inv assms(2,4) by (auto simp: upd_meta_def)
  show ?thesis
    using assms c inv
    by (intro that [of ?w'])
      (simp_all add: create_lchannel_def lock_channel_table_def hako_spin_lock_bool_def
        is_exist_lchannel_def Let_def unlock_channel_table_def chan_inv_def)
qed

section \<open>The table as a directory\<close>

text \<open>
  What the users of the table rely on (\<open>create_pdu_lchannel\<close>, then access by robot name
  and logical id): a directory that hands out consecutive ids.
\<close>

locale channel_directory =
  fixes inv :: "'s \<Rightarrow> bool" and used :: "'s \<Rightarrow> nat" and capacity :: nat
    and valid :: "string \<Rightarrow> bool"
    and find :: "string \<Rightarrow> int \<Rightarrow> 's \<Rightarrow> int"
    and add :: "string \<Rightarrow> int \<Rightarrow> nat \<Rightarrow> 's \<Rightarrow> (bool \<times> 's) result"
  assumes add_new: "inv s \<Longrightarrow> valid n \<Longrightarrow> find n c s < 0 \<Longrightarrow> used s < capacity \<Longrightarrow>
      \<exists>s'. add n c sz s = Inr (True, s') \<and> inv s' \<and> used s' = Suc (used s) \<and>
        find n c s' = int (used s) \<and> (\<forall>n' c'. (n', c') \<noteq> (n, c) \<longrightarrow> find n' c' s' = find n' c' s)"
    and add_old: "inv s \<Longrightarrow> valid n \<Longrightarrow> 0 \<le> find n c s \<Longrightarrow>
      \<exists>s'. add n c sz s = Inr (True, s') \<and> inv s' \<and> used s' = used s \<and>
        (\<forall>n' c'. find n' c' s' = find n' c' s)"
    and add_full: "inv s \<Longrightarrow> valid n \<Longrightarrow> find n c s < 0 \<Longrightarrow> used s = capacity \<Longrightarrow>
      \<exists>s'. add n c sz s = Inr (False, s') \<and> inv s' \<and> used s' = used s \<and>
        (\<forall>n' c'. find n' c' s' = find n' c' s)"
begin

abbreviation add_entry :: "string \<times> int \<times> nat \<Rightarrow> 's \<Rightarrow> (bool \<times> 's) result" where
  "add_entry \<equiv> \<lambda>(n, c, sz). add n c sz"

lemma add_all:
  assumes "inv s" and "distinct (map (\<lambda>(n, c, sz). (n, c)) es)"
    and "\<forall>(n, c, sz) \<in> set es. valid n \<and> find n c s < 0" and "used s + length es \<le> capacity"
  shows "\<exists>s'. run_all add_entry es s = Inr (replicate (length es) True, s') \<and> inv s' \<and>
    used s' = used s + length es \<and>
    (\<forall>i < length es. find (fst (es ! i)) (fst (snd (es ! i))) s' = int (used s + i)) \<and>
    (\<forall>n c. (n, c) \<notin> set (map (\<lambda>(n, c, sz). (n, c)) es) \<longrightarrow> find n c s' = find n c s)"
  using assms
proof (induction es arbitrary: s)
  case Nil
  then show ?case by simp
next
  case (Cons e es)
  obtain n c sz where e: "e = (n, c, sz)" by (cases e)
  have "valid n" "find n c s < 0" "used s < capacity" using Cons.prems(3,4) e by auto
  from add_new [OF Cons.prems(1) this] obtain s1 where
    s1: "add n c sz s = Inr (True, s1)" "inv s1" "used s1 = Suc (used s)"
    "find n c s1 = int (used s)" "\<forall>n' c'. (n', c') \<noteq> (n, c) \<longrightarrow> find n' c' s1 = find n' c' s"
    by blast
  have fresh: "\<forall>(n', c', sz') \<in> set es. (n', c') \<noteq> (n, c)"
    using Cons.prems(2) e by force
  have "valid n' \<and> find n' c' s1 < 0" if "(n', c', sz') \<in> set es" for n' c' sz'
  proof -
    have "(n', c') \<noteq> (n, c)" using fresh that by blast
    then have "find n' c' s1 = find n' c' s" using s1(5) by blast
    then show ?thesis using Cons.prems(3) that by auto
  qed
  then have "\<forall>(n', c', sz') \<in> set es. valid n' \<and> find n' c' s1 < 0" by blast
  then obtain s2 where s2: "run_all add_entry es s1 = Inr (replicate (length es) True, s2)" "inv s2"
    "used s2 = used s1 + length es"
    "\<forall>i < length es. find (fst (es ! i)) (fst (snd (es ! i))) s2 = int (used s1 + i)"
    "\<forall>n c. (n, c) \<notin> set (map (\<lambda>(n, c, sz). (n, c)) es) \<longrightarrow> find n c s2 = find n c s1"
    using Cons.IH [of s1] Cons.prems s1 by auto
  have "find n c s2 = int (used s)" using s2(5) s1(4) Cons.prems(2) e by simp
  then have "find (fst ((e # es) ! i)) (fst (snd ((e # es) ! i))) s2 = int (used s + i)"
    if "i < length (e # es)" for i
    using that s2(4) s1(3) e by (cases i) auto
  moreover have "find n' c' s2 = find n' c' s"
    if "(n', c') \<notin> set (map (\<lambda>(n, c, sz). (n, c)) (e # es))" for n' c'
    using that s2(5) s1(5) e by simp
  ultimately show ?case
    using s1 s2 e by (intro exI [of _ s2]) simp
qed

end

definition valid_name :: "string \<Rightarrow> bool" where
  "valid_name name \<longleftrightarrow> NUL \<notin> set name \<and> length name < HAKO_FIXED_STRLEN_MAX"

definition channels_used :: "'m HakoPduData \<Rightarrow> nat" where
  "channels_used w = nat (channel_num (pdu_meta_data w))"

definition find_channel :: "string \<Rightarrow> int \<Rightarrow> 'm HakoPduData \<Rightarrow> int" where
  "find_channel name channel_id w = lookup_channel (pdu_meta_data w) name channel_id"

lemma channels_used_less: "channels_used w < n \<longleftrightarrow> channel_num (pdu_meta_data w) < int n \<and> 0 < n"
  by (auto simp: channels_used_def)

interpretation pdu_table: channel_directory
  "chan_inv b" channels_used "HAKO_PDU_CHANNEL_MAX b" valid_name find_channel "create_lchannel b"
proof (unfold_locales, goal_cases)
  case (1 s n c sz)
  then have nn: "0 \<le> channel_num (pdu_meta_data s)" by (simp add: chan_inv_def meta_ok_def)
  obtain s' where s': "create_lchannel b n c sz s = Inr (True, s')"
    "adds_channel n c sz (pdu_meta_data s) (pdu_meta_data s')" "chan_inv b s'"
    using 1 create_lchannel_new [of b s n c sz]
    by (auto simp: valid_name_def find_channel_def channels_used_less)
  then show ?case
    using nn by (intro exI [of _ s']) (auto simp: find_channel_def adds_channel_def channels_used_def)
next
  case (2 s n c sz)
  then obtain s' where s': "create_lchannel b n c sz s = Inr (True, s')"
    "pdu_meta_data s' = pdu_meta_data s" "chan_inv b s'"
    using create_lchannel_found [of b s n c sz] by (auto simp: valid_name_def find_channel_def)
  then show ?case by (intro exI [of _ s']) (simp add: find_channel_def channels_used_def)
next
  case (3 s n c sz)
  then have "channel_num (pdu_meta_data s) = int (HAKO_PDU_CHANNEL_MAX b)"
    by (auto simp: channels_used_def chan_inv_def meta_ok_def)
  then obtain s' where s': "create_lchannel b n c sz s = Inr (False, s')"
    "pdu_meta_data s' = pdu_meta_data s" "chan_inv b s'"
    using 3 create_lchannel_full [of b s n c sz] by (auto simp: valid_name_def find_channel_def)
  then show ?case by (intro exI [of _ s']) (simp add: find_channel_def channels_used_def)
qed

section \<open>Properties\<close>

text \<open>
  C6: The lookup of a channel through the per-process cache returns what a search of the
  shared table returns, \<open>-1\<close> for an unknown channel, changes nothing but the cache and
  leaves a cache that agrees with the table.
\<close>

theorem get_pdu_channel_refines_table:
  assumes "meta_ok b (pdu_meta_data w)" and "cache_ok (pdu_meta_data w) (pdu_channel_cache w)"
    and "NUL \<notin> set name"
  shows "\<exists>c. get_pdu_channel name channel_id w =
      Inr (lookup_channel (pdu_meta_data w) name channel_id, w\<lparr>pdu_channel_cache := c\<rparr>) \<and>
    cache_ok (pdu_meta_data w) c"
  using get_pdu_channel_eq [OF assms, of channel_id] by blast

abbreviation small_build :: hako_build where
  "small_build \<equiv> \<lparr>HAKO_DATA_MAX_ASSET_NUM = 2, HAKO_PDU_CHANNEL_MAX = 3\<rparr>"

definition empty_pdu :: "'m \<Rightarrow> 'm HakoPduData" where
  "empty_pdu m = \<lparr>pdu_meta_data = zero_meta small_build, pdu_ptr = False,
     pdu_channel_cache = Map.empty, asset_shmp = m, trace = []\<rparr>"

lemma chan_inv_empty: "chan_inv small_build (empty_pdu m)"
  using meta_ok_zero [of small_build]
  by (simp add: chan_inv_def empty_pdu_def)
    (simp add: zero_meta_def Let_def table_compact_def)

theorem get_pdu_channel_refines_table_witness:
  "\<exists>c. get_pdu_channel ''robo'' 1 (empty_pdu ()) =
      Inr (lookup_channel (zero_meta small_build) ''robo'' 1, (empty_pdu ())\<lparr>pdu_channel_cache := c\<rparr>)"
  using get_pdu_channel_refines_table [of small_build "empty_pdu ()" "''robo''" 1] chan_inv_empty [of "()"]
  by (auto simp: chan_inv_def empty_pdu_def NUL_def)

text \<open>
  C5: Creating a list of distinct new logical channels with room in the table succeeds
  for each of them, gives them consecutive real ids in the order of the calls, leaves the
  ids of all other channels as they were and keeps the table's invariant, the cache included.
\<close>

theorem create_lchannels_assign_ids:
  assumes "chan_inv b w" and "distinct (map (\<lambda>(n, c, sz). (n, c)) es)"
    and "\<forall>(n, c, sz) \<in> set es. valid_name n \<and> find_channel n c w < 0"
    and "channels_used w + length es \<le> HAKO_PDU_CHANNEL_MAX b"
  shows "\<exists>w'. run_all (\<lambda>(n, c, sz). create_lchannel b n c sz) es w = Inr (replicate (length es) True, w') \<and>
    chan_inv b w' \<and> channels_used w' = channels_used w + length es \<and>
    (\<forall>i < length es. find_channel (fst (es ! i)) (fst (snd (es ! i))) w' = int (channels_used w + i)) \<and>
    (\<forall>n c. (n, c) \<notin> set (map (\<lambda>(n, c, sz). (n, c)) es) \<longrightarrow> find_channel n c w' = find_channel n c w)"
  using pdu_table.add_all [OF assms] by simp

theorem create_lchannels_assign_ids_witness:
  "\<exists>w'. run_all (\<lambda>(n, c, sz). create_lchannel small_build n c sz)
      [(''robo'', 7, 16), (''robo'', 8, 4)] (empty_pdu ()) = Inr ([True, True], w') \<and>
    find_channel ''robo'' 7 w' = 0 \<and> find_channel ''robo'' 8 w' = 1"
proof -
  have "find_channel n c (empty_pdu ()) < 0" "channels_used (empty_pdu ()) = 0" for n c
    by (simp_all add: find_channel_def lookup_channel_def empty_pdu_def zero_meta_def Let_def channels_used_def)
  then show ?thesis
    using create_lchannels_assign_ids [OF chan_inv_empty [of "()"],
        of "[(''robo'', 7, 16), (''robo'', 8, 4)]"]
    by (auto simp: valid_name_def NUL_def HAKO_FIXED_STRLEN_MAX_def numeral_2_eq_2 All_less_Suc)
qed

end
