(* ===== verification/Hako_Master_Data.thy ===== *)
theory Hako_Master_Data
  imports Hako_Pdu_Channels
begin

text \<open>
  The master's shared data, \<open>data/hako_master_data.hpp\<close>: the table of assets with their
  event records, the simulation state, the time set, and the master lock around them. The
  theorems show that the table is a directory of assets with unique names, that
  registration hands out the lowest free slot, and that \<open>asset_num\<close> counts the slots in use.
\<close>

section \<open>Data\<close>

text \<open>A function pointer of a registered callback is a number; \<open>None\<close> is the null pointer.\<close>

record AssetCallbackType =
  cb_start :: "nat option"
  cb_stop :: "nat option"
  cb_reset :: "nat option"

record HakoTimeSetType =
  ts_max_delay :: int
  ts_delta :: int
  ts_current :: int

record HakoAssetEntryType =
  ae_id :: int
  ae_name :: HakoFixedStringType
  ae_type :: HakoAssetType
  ae_callback :: AssetCallbackType

record HakoAssetEntryEventType =
  ev_pid :: int
  ev_ctime :: int
  ev_update_time :: int
  ev_event :: HakoAssetEventType
  ev_feedback :: bool
  ev_semid :: int

text \<open>
  \<open>HakoMasterDataType\<close> without its two last members: the PDU metadata is held by the
  \<open>HakoPduData\<close> object below, and the memory log is treated in the theory \<open>Hako_Log\<close>.
\<close>

record HakoMasterDataType =
  master_pid :: int
  sim_state :: HakoSimulationStateType
  time_usec :: HakoTimeSetType
  asset_num :: "32 word"
  assets :: "HakoAssetEntryType list"
  assets_ev :: "HakoAssetEntryEventType list"

record 'm HakoMasterData =
  master_datap :: HakoMasterDataType
  pdu_datap :: "'m HakoPduData"
  asset_timeout_usec :: int
  is_master_locked :: bool

text \<open>
  What an operation takes from outside: the environment of the PDU store, the process id
  that \<open>HakoContext\<close> reads, the reading of the clock (one per operation), and what the call
  of a registered callback does.
\<close>

record 'm hako_env =
  he_pdu :: "'m pdu_env"
  he_pid :: int
  he_now :: int
  he_call :: "nat \<Rightarrow> 'm HakoMasterData \<Rightarrow> 'm HakoMasterData result"

abbreviation he_build :: "'m hako_env \<Rightarrow> hako_build" where
  "he_build env \<equiv> env_build (he_pdu env)"

type_synonym ('a, 'm) master_op = "'m HakoMasterData \<Rightarrow> ('a \<times> 'm HakoMasterData) result"

definition upd_md :: "(HakoMasterDataType \<Rightarrow> HakoMasterDataType) \<Rightarrow> 'm HakoMasterData \<Rightarrow> 'm HakoMasterData" where
  "upd_md f w = w\<lparr>master_datap := f (master_datap w)\<rparr>"

definition upd_asset :: "nat \<Rightarrow> (HakoAssetEntryType \<Rightarrow> HakoAssetEntryType) \<Rightarrow> 'm HakoMasterData \<Rightarrow> 'm HakoMasterData" where
  "upd_asset i f = upd_md (\<lambda>d. d\<lparr>assets := (assets d)[i := f (assets d ! i)]\<rparr>)"

definition upd_ev :: "nat \<Rightarrow> (HakoAssetEntryEventType \<Rightarrow> HakoAssetEntryEventType) \<Rightarrow> 'm HakoMasterData \<Rightarrow> 'm HakoMasterData" where
  "upd_ev i f = upd_md (\<lambda>d. d\<lparr>assets_ev := (assets_ev d)[i := f (assets_ev d ! i)]\<rparr>)"

definition effect :: "hako_effect \<Rightarrow> 'm HakoMasterData \<Rightarrow> 'm HakoMasterData" where
  "effect e w = w\<lparr>pdu_datap := emit e (pdu_datap w)\<rparr>"

abbreviation HAKO_LOG :: "string \<Rightarrow> string \<Rightarrow> 'm HakoMasterData \<Rightarrow> 'm HakoMasterData" where
  "HAKO_LOG level format \<equiv> effect (Log level format)"

text \<open>A call of an operation of the PDU object.\<close>

definition pdu_call :: "('a, 'm) pdu_op \<Rightarrow> ('a, 'm) master_op" where
  "pdu_call f w = bindE (f (pdu_datap w)) (\<lambda>(r, p). Inr (r, w\<lparr>pdu_datap := p\<rparr>))"

text \<open>The data after the \<open>memset\<close> of \<open>init\<close>, with the pid it stores.\<close>

definition zero_callback :: AssetCallbackType where
  "zero_callback = \<lparr>cb_start = None, cb_stop = None, cb_reset = None\<rparr>"

definition zero_entry :: HakoAssetEntryType where
  "zero_entry = \<lparr>ae_id = 0, ae_name = zero_fixed, ae_type = HakoAsset_Unknown, ae_callback = zero_callback\<rparr>"

definition zero_event :: HakoAssetEntryEventType where
  "zero_event = \<lparr>ev_pid = 0, ev_ctime = 0, ev_update_time = 0, ev_event = HakoAssetEvent_None,
     ev_feedback = False, ev_semid = 0\<rparr>"

definition zero_master :: "hako_build \<Rightarrow> int \<Rightarrow> HakoMasterDataType" where
  "zero_master b pid =
     \<lparr>master_pid = pid, sim_state = HakoSim_Stopped,
      time_usec = \<lparr>ts_max_delay = 0, ts_delta = 0, ts_current = 0\<rparr>, asset_num = 0,
      assets = replicate (HAKO_DATA_MAX_ASSET_NUM b) zero_entry,
      assets_ev = replicate (HAKO_DATA_MAX_ASSET_NUM b) zero_event\<rparr>"

section \<open>The lock\<close>

definition md_lock :: "'m HakoMasterData \<Rightarrow> 'm HakoMasterData" where
  "md_lock w = (effect (Lock_Memory HAKO_SHARED_MEMORY_ID_0) w)\<lparr>is_master_locked := True\<rparr>"

definition md_unlock :: "'m HakoMasterData \<Rightarrow> 'm HakoMasterData" where
  "md_unlock w = effect (Unlock_Memory HAKO_SHARED_MEMORY_ID_0) (w\<lparr>is_master_locked := False\<rparr>)"

section \<open>Time\<close>

definition get_time :: "'m HakoMasterData \<Rightarrow> HakoTimeSetType \<times> 'm HakoMasterData" where
  "get_time w = (let w1 = md_lock w; t = time_usec (master_datap w1) in (t, md_unlock w1))"

definition set_asset_timeout_usec :: "int \<Rightarrow> 'm HakoMasterData \<Rightarrow> 'm HakoMasterData" where
  "set_asset_timeout_usec t w = w\<lparr>asset_timeout_usec := t\<rparr>"

text \<open>The slots in use, as the loops of the class test them.\<close>

definition in_use :: "HakoMasterDataType \<Rightarrow> nat \<Rightarrow> bool" where
  "in_use d i \<longleftrightarrow> ae_type (assets d ! i) \<noteq> HakoAsset_Unknown"

definition update_asset_time :: "'m hako_env \<Rightarrow> int \<Rightarrow> 'm HakoMasterData \<Rightarrow> 'm HakoMasterData" where
  "update_asset_time env asset_id w =
    (if 0 \<le> asset_id \<and> asset_id < int (HAKO_DATA_MAX_ASSET_NUM (he_build env)) \<and> in_use (master_datap w) (nat asset_id)
     then upd_ev (nat asset_id) (\<lambda>e. e\<lparr>ev_update_time := he_now env\<rparr>) w else w)"

section \<open>The table of assets\<close>

text \<open>The scan of \<open>get_asset_nolock\<close> from slot \<open>i\<close> on; the pointer it returns is a slot.\<close>

fun find_asset :: "HakoAssetEntryType list \<Rightarrow> nat \<Rightarrow> string \<Rightarrow> nat option" where
  "find_asset [] i name = None"
| "find_asset (entry # entries) i name =
    (if ae_type entry = HakoAsset_Unknown then find_asset entries (Suc i) name
     else if \<not> fixed_matches (ae_name entry) name then find_asset entries (Suc i) name
     else Some i)"

definition get_asset_nolock :: "string \<Rightarrow> 'm HakoMasterData \<Rightarrow> nat option" where
  "get_asset_nolock name w = find_asset (assets (master_datap w)) 0 name"

definition get_asset_by_name :: "string \<Rightarrow> 'm HakoMasterData \<Rightarrow> nat option \<times> 'm HakoMasterData" where
  "get_asset_by_name name w =
     (let w1 = md_lock w; entry = get_asset_nolock name w1 in (entry, md_unlock w1))"

text \<open>The first free slot, the loop of \<open>alloc_asset\<close>.\<close>

fun find_free :: "HakoAssetEntryType list \<Rightarrow> nat \<Rightarrow> nat option" where
  "find_free [] i = None"
| "find_free (entry # entries) i =
     (if ae_type entry = HakoAsset_Unknown then Some i else find_free entries (Suc i))"

definition fill_asset ::
  "'m hako_env \<Rightarrow> string \<Rightarrow> HakoAssetType \<Rightarrow> AssetCallbackType option \<Rightarrow> nat \<Rightarrow> 'm HakoMasterData \<Rightarrow> 'm HakoMasterData" where
  "fill_asset env name type callback i w =
    (let w = upd_asset i (\<lambda>a. a\<lparr>ae_id := int i, ae_type := type\<rparr>) w;
         w = (if type = HakoAsset_Outside then w else upd_ev i (\<lambda>e. e\<lparr>ev_semid := -1\<rparr>) w);
         w = upd_asset i (\<lambda>a. a\<lparr>ae_callback :=
               (case callback of Some cb \<Rightarrow> cb | None \<Rightarrow> zero_callback)\<rparr>) w;
         w = upd_ev i (\<lambda>e. e\<lparr>ev_pid := he_pid env, ev_ctime := 0\<rparr>) w;
         w = update_asset_time env (int i) w;
         w = upd_asset i (\<lambda>a. a\<lparr>ae_name := hako_string2fixed name (ae_name a)\<rparr>) w
     in upd_md (\<lambda>d. d\<lparr>asset_num := asset_num d + 1\<rparr>) w)"

definition alloc_asset ::
  "'m hako_env \<Rightarrow> string \<Rightarrow> HakoAssetType \<Rightarrow> AssetCallbackType option \<Rightarrow> 'm HakoMasterData \<Rightarrow> int \<times> 'm HakoMasterData" where
  "alloc_asset env name type callback w =
    (if type = HakoAsset_Unknown then (-1, HAKO_LOG ''ERROR'' ''alloc_asset type is unknown'' w)
     else if length name > HAKO_FIXED_STRLEN_MAX
     then (-1, HAKO_LOG ''ERROR'' ''alloc_asset name len is big: %d'' w)
     else
       let w = md_lock w;
           d = master_datap w;
           slot = (if sim_state d = HakoSim_Stopped \<and> get_asset_nolock name w = None \<and>
                      asset_num d < of_nat (HAKO_DATA_MAX_ASSET_NUM (he_build env))
                   then find_free (assets d) 0 else None)
       in case slot of
            None \<Rightarrow> (-1, md_unlock w)
          | Some i \<Rightarrow> (int i, md_unlock (fill_asset env name type callback i w)))"

fun find_pid :: "HakoAssetEntryType list \<Rightarrow> HakoAssetEntryEventType list \<Rightarrow> nat \<Rightarrow> int \<Rightarrow> int" where
  "find_pid (a # as) (e # es) i pid =
     (if ae_type a \<noteq> HakoAsset_Unknown \<and> ev_pid e = pid then int i else find_pid as es (Suc i) pid)"
| "find_pid _ _ i pid = -1"

definition get_asset_id :: "'m hako_env \<Rightarrow> 'm HakoMasterData \<Rightarrow> int" where
  "get_asset_id env w = find_pid (assets (master_datap w)) (assets_ev (master_datap w)) 0 (he_pid env)"

definition free_asset :: "string \<Rightarrow> 'm HakoMasterData \<Rightarrow> bool \<times> 'm HakoMasterData" where
  "free_asset name w =
    (let w = md_lock w;
         slot = (if sim_state (master_datap w) = HakoSim_Stopped \<or> sim_state (master_datap w) = HakoSim_Error
                 then get_asset_nolock name w else None)
     in case slot of
          None \<Rightarrow> (False, md_unlock w)
        | Some i \<Rightarrow> (True, md_unlock (upd_md (\<lambda>d. d\<lparr>asset_num := asset_num d - 1\<rparr>)
                            (upd_asset i (\<lambda>a. a\<lparr>ae_type := HakoAsset_Unknown\<rparr>) w))))"

text \<open>\<open>get_asset\<close> and \<open>get_asset_event_nolock\<close> by id: the slot, or null.\<close>

definition get_asset :: "hako_build \<Rightarrow> int \<Rightarrow> 'm HakoMasterData \<Rightarrow> nat option" where
  "get_asset b asset_id w =
    (if 0 \<le> asset_id \<and> asset_id < int (HAKO_DATA_MAX_ASSET_NUM b) \<and> in_use (master_datap w) (nat asset_id)
     then Some (nat asset_id) else None)"

definition get_asset_event_nolock :: "hako_build \<Rightarrow> int \<Rightarrow> 'm HakoMasterData \<Rightarrow> nat option" where
  "get_asset_event_nolock b asset_id w = get_asset b asset_id w"

definition is_all_feedback_nolock :: "'m HakoMasterData \<Rightarrow> bool" where
  "is_all_feedback_nolock w \<longleftrightarrow>
     list_all (\<lambda>i. in_use (master_datap w) i \<longrightarrow> ev_feedback (assets_ev (master_datap w) ! i))
       [0..<length (assets (master_datap w))]"

definition is_asset_timeout_nolock :: "'m hako_env \<Rightarrow> int \<Rightarrow> 'm HakoMasterData \<Rightarrow> bool" where
  "is_asset_timeout_nolock env asset_id w =
    (if 0 \<le> asset_id \<and> asset_id < int (HAKO_DATA_MAX_ASSET_NUM (he_build env))
     then hako_clock_is_timeout (he_now env) (ev_update_time (assets_ev (master_datap w) ! nat asset_id))
            (if asset_timeout_usec w \<le> 0 then HAKO_ASSET_TIMEOUT_USEC else asset_timeout_usec w)
     else False)"

definition get_asset_times :: "'m HakoMasterData \<Rightarrow> int list" where
  "get_asset_times w =
     map (\<lambda>i. ev_ctime (assets_ev (master_datap w) ! i))
       (filter (in_use (master_datap w)) [0..<length (assets (master_datap w))])"

definition get_asset_names :: "'m HakoMasterData \<Rightarrow> string list \<times> 'm HakoMasterData" where
  "get_asset_names w =
    (let w1 = md_lock w;
         names = map (\<lambda>i. hako_fixed2string (ae_name (assets (master_datap w1) ! i)))
                   (filter (in_use (master_datap w1)) [0..<length (assets (master_datap w1))])
     in (names, md_unlock w1))"

definition reset_asset_ctime_nolock :: "'m HakoMasterData \<Rightarrow> 'm HakoMasterData" where
  "reset_asset_ctime_nolock w =
     upd_md (\<lambda>d. d\<lparr>assets_ev :=
       map (\<lambda>i. if in_use d i then (assets_ev d ! i)\<lparr>ev_ctime := 0\<rparr> else assets_ev d ! i)
         [0..<length (assets_ev d)]\<rparr>) w"

definition destroy_pdu_data :: "'m hako_env \<Rightarrow> 'm HakoMasterData \<Rightarrow> 'm HakoMasterData result" where
  "destroy_pdu_data env w =
     bindE (pdu_reset (he_pdu env) (pdu_datap w)) (\<lambda>p. Inr (w\<lparr>pdu_datap := p\<rparr>))"

definition create_pdu_data :: "'m hako_env \<Rightarrow> 'm HakoMasterData \<Rightarrow> 'm HakoMasterData result" where
  "create_pdu_data env w =
     bindE (pdu_create (he_pdu env) (sint (asset_num (master_datap w))) (pdu_datap w)) (\<lambda>p.
       Inr (w\<lparr>pdu_datap := p\<rparr>))"

section \<open>Rewriting\<close>

lemma upd_md_simps [simp]:
  "master_datap (upd_md f w) = f (master_datap w)" "pdu_datap (upd_md f w) = pdu_datap w"
  "asset_timeout_usec (upd_md f w) = asset_timeout_usec w" "is_master_locked (upd_md f w) = is_master_locked w"
  by (simp_all add: upd_md_def)

lemma effect_simps [simp]:
  "master_datap (effect e w) = master_datap w" "pdu_datap (effect e w) = emit e (pdu_datap w)"
  "asset_timeout_usec (effect e w) = asset_timeout_usec w" "is_master_locked (effect e w) = is_master_locked w"
  by (simp_all add: effect_def)

lemma md_lock_simps [simp]:
  "master_datap (md_lock w) = master_datap w" "asset_timeout_usec (md_lock w) = asset_timeout_usec w"
  "pdu_datap (md_lock w) = emit (Lock_Memory HAKO_SHARED_MEMORY_ID_0) (pdu_datap w)" "is_master_locked (md_lock w)"
  "master_datap (md_unlock w) = master_datap w" "asset_timeout_usec (md_unlock w) = asset_timeout_usec w"
  "pdu_datap (md_unlock w) = emit (Unlock_Memory HAKO_SHARED_MEMORY_ID_0) (pdu_datap w)"
  "\<not> is_master_locked (md_unlock w)"
  by (simp_all add: md_lock_def md_unlock_def)

lemma upd_entry_simps [simp]:
  "master_datap (upd_asset i f w) = (master_datap w)\<lparr>assets := (assets (master_datap w))[i := f (assets (master_datap w) ! i)]\<rparr>"
  "master_datap (upd_ev i g w) = (master_datap w)\<lparr>assets_ev := (assets_ev (master_datap w))[i := g (assets_ev (master_datap w) ! i)]\<rparr>"
  "pdu_datap (upd_asset i f w) = pdu_datap w" "pdu_datap (upd_ev i g w) = pdu_datap w"
  "is_master_locked (upd_asset i f w) = is_master_locked w" "is_master_locked (upd_ev i g w) = is_master_locked w"
  "asset_timeout_usec (upd_asset i f w) = asset_timeout_usec w"
  "asset_timeout_usec (upd_ev i g w) = asset_timeout_usec w"
  by (simp_all add: upd_asset_def upd_ev_def)

section \<open>The invariant of the table\<close>

definition entry_used :: "HakoAssetEntryType \<Rightarrow> bool" where
  "entry_used a \<longleftrightarrow> ae_type a \<noteq> HakoAsset_Unknown"

definition entry_matches :: "string \<Rightarrow> HakoAssetEntryType \<Rightarrow> bool" where
  "entry_matches name a \<longleftrightarrow> entry_used a \<and> fixed_matches (ae_name a) name"

definition table_ok :: "hako_build \<Rightarrow> HakoMasterDataType \<Rightarrow> bool" where
  "table_ok b d \<longleftrightarrow>
     HAKO_DATA_MAX_ASSET_NUM b < 2 ^ 31 \<and>
     length (assets d) = HAKO_DATA_MAX_ASSET_NUM b \<and> length (assets_ev d) = HAKO_DATA_MAX_ASSET_NUM b \<and>
     asset_num d = of_nat (count_if entry_used (assets d)) \<and>
     (\<forall>a \<in> set (assets d). fixed_ok (ae_name a)) \<and>
     (\<forall>i < length (assets d). entry_used (assets d ! i) \<longrightarrow> ae_id (assets d ! i) = int i) \<and>
     (\<forall>i < length (assets d). \<forall>j < length (assets d).
        entry_used (assets d ! i) \<and> entry_used (assets d ! j) \<and>
        hako_fixed2string (ae_name (assets d ! i)) = hako_fixed2string (ae_name (assets d ! j)) \<longrightarrow> i = j)"

lemma in_use_iff: "in_use d i \<longleftrightarrow> entry_used (assets d ! i)"
  by (simp add: in_use_def entry_used_def)

lemma find_asset_eq: "find_asset xs k name = map_option ((+) k) (first_index (entry_matches name) xs)"
proof (induction xs arbitrary: k)
  case (Cons a xs)
  then show ?case by (auto simp: entry_matches_def entry_used_def map_option_shift)
qed simp

lemma get_asset_nolock_eq: "get_asset_nolock name w = first_index (entry_matches name) (assets (master_datap w))"
  by (simp add: get_asset_nolock_def find_asset_eq)

lemma find_free_eq: "find_free xs k = map_option ((+) k) (first_index (\<lambda>a. \<not> entry_used a) xs)"
proof (induction xs arbitrary: k)
  case (Cons a xs)
  then show ?case by (auto simp: entry_used_def map_option_shift)
qed simp

lemma table_ok_zero:
  "HAKO_DATA_MAX_ASSET_NUM b < 2 ^ 31 \<Longrightarrow> table_ok b (zero_master b pid)"
proof -
  assume "HAKO_DATA_MAX_ASSET_NUM b < 2 ^ 31"
  moreover have "count_if entry_used (replicate n zero_entry) = 0" for n
    by (induction n) (simp_all add: entry_used_def zero_entry_def)
  ultimately show ?thesis
    by (auto simp: table_ok_def zero_master_def) (auto simp: zero_entry_def entry_used_def)
qed

lemma entry_matches_iff:
  "NUL \<notin> set name \<Longrightarrow> fixed_ok (ae_name a) \<Longrightarrow>
   entry_matches name a \<longleftrightarrow> entry_used a \<and> hako_fixed2string (ae_name a) = name"
  by (simp add: entry_matches_def fixed_matches_iff)

text \<open>The entry and the event record that \<open>alloc_asset\<close> leaves in the slot it takes.\<close>

definition new_entry :: "string \<Rightarrow> HakoAssetType \<Rightarrow> AssetCallbackType option \<Rightarrow> nat \<Rightarrow> HakoAssetEntryType \<Rightarrow> HakoAssetEntryType" where
  "new_entry name type callback i a =
     a\<lparr>ae_id := int i, ae_type := type,
       ae_callback := (case callback of Some cb \<Rightarrow> cb | None \<Rightarrow> zero_callback),
       ae_name := hako_string2fixed name (ae_name a)\<rparr>"

definition new_event :: "'m hako_env \<Rightarrow> HakoAssetType \<Rightarrow> HakoAssetEntryEventType \<Rightarrow> HakoAssetEntryEventType" where
  "new_event env type e =
     (if type = HakoAsset_Outside then e else e\<lparr>ev_semid := -1\<rparr>)
       \<lparr>ev_pid := he_pid env, ev_ctime := 0, ev_update_time := he_now env\<rparr>"

lemma fill_asset_eq:
  assumes "i < length (assets (master_datap w))" and "i < length (assets_ev (master_datap w))"
    and "i < HAKO_DATA_MAX_ASSET_NUM (he_build env)" and "type \<noteq> HakoAsset_Unknown"
  shows "fill_asset env name type callback i w =
    upd_md (\<lambda>d. d\<lparr>assets := (assets d)[i := new_entry name type callback i (assets d ! i)],
                  assets_ev := (assets_ev d)[i := new_event env type (assets_ev d ! i)],
                  asset_num := asset_num d + 1\<rparr>) w"
  using assms
  by (simp add: fill_asset_def Let_def update_asset_time_def in_use_def upd_asset_def upd_ev_def upd_md_def
      new_entry_def new_event_def)

lemma table_ok_fill:
  assumes ok: "table_ok b d" and i: "i < length (assets d)" "\<not> entry_used (assets d ! i)"
    and new: "first_index (entry_matches name) (assets d) = None" and len: "length name \<le> HAKO_FIXED_STRLEN_MAX"
    and used: "type \<noteq> HakoAsset_Unknown"
  shows "table_ok b (d\<lparr>assets := (assets d)[i := new_entry name type callback i (assets d ! i)],
      assets_ev := (assets_ev d)[i := e], asset_num := asset_num d + 1\<rparr>)"
proof -
  let ?a = "new_entry name type callback i (assets d ! i)"
  let ?as = "(assets d)[i := ?a]"
  have a: "entry_used ?a" "hako_fixed2string (ae_name ?a) = name" "ae_id ?a = int i"
    using used by (simp_all add: entry_used_def new_entry_def)
  have "fixed_ok (ae_name (assets d ! i))" using ok i(1) by (simp add: table_ok_def)
  then have "fixed_ok (ae_name ?a)" using len by (simp add: new_entry_def fixed_ok_string2fixed)
  then have fixed: "\<forall>x \<in> set ?as. fixed_ok (ae_name x)"
    using ok set_update_subset_insert [of "assets d" i ?a] by (auto simp: table_ok_def)
  have count: "count_if entry_used ?as = Suc (count_if entry_used (assets d))"
    using count_if_update [OF i(1), of entry_used ?a] i(2) a(1) by simp
  have "hako_fixed2string (ae_name (assets d ! j)) \<noteq> name" if "j < length (assets d)" "entry_used (assets d ! j)" for j
  proof
    assume eq: "hako_fixed2string (ae_name (assets d ! j)) = name"
    have "fixed_ok (ae_name (assets d ! j))" using ok that(1) by (simp add: table_ok_def)
    then have "entry_matches name (assets d ! j)"
      using fixed_matches_fixed2string [of "ae_name (assets d ! j)"] eq that(2) by (simp add: entry_matches_def)
    then show False using new that(1) by (simp add: first_index_None)
  qed
  then have uniq: "j = k" if "j < length ?as" "k < length ?as" "entry_used (?as ! j)" "entry_used (?as ! k)"
    "hako_fixed2string (ae_name (?as ! j)) = hako_fixed2string (ae_name (?as ! k))" for j k
    using that ok a by (cases "j = i"; cases "k = i") (auto simp: table_ok_def nth_list_update)
  have ids: "ae_id (?as ! j) = int j" if "j < length ?as" "entry_used (?as ! j)" for j
    using that ok a(3) by (cases "j = i") (auto simp: table_ok_def)
  have "\<forall>j < length ?as. entry_used (?as ! j) \<longrightarrow> ae_id (?as ! j) = int j"
    "\<forall>j < length ?as. \<forall>k < length ?as. entry_used (?as ! j) \<and> entry_used (?as ! k) \<and>
       hako_fixed2string (ae_name (?as ! j)) = hako_fixed2string (ae_name (?as ! k)) \<longrightarrow> j = k"
    using ids uniq by blast+
  then show ?thesis
    using ok fixed count by (simp add: table_ok_def)
qed

lemma lookup_after_fill:
  assumes ok: "table_ok b d" and i: "i < length (assets d)" "\<not> entry_used (assets d ! i)"
    and used: "type \<noteq> HakoAsset_Unknown"
    and as: "as = (assets d)[i := new_entry name type callback i (assets d ! i)]"
  shows "first_index (entry_matches name) (assets d) = None \<Longrightarrow> first_index (entry_matches name) as = Some i"
    and "NUL \<notin> set n \<Longrightarrow> n \<noteq> name \<Longrightarrow> length name \<le> HAKO_FIXED_STRLEN_MAX \<Longrightarrow>
      first_index (entry_matches n) as = first_index (entry_matches n) (assets d)"
proof -
  let ?a = "new_entry name type callback i (assets d ! i)"
  have "entry_matches name ?a"
    using used by (simp add: entry_matches_def entry_used_def new_entry_def)
  then show "first_index (entry_matches name) as = Some i" if "first_index (entry_matches name) (assets d) = None"
    using that i(1) as by (intro first_index_unique) (auto simp: first_index_None nth_list_update split: if_splits)
  assume n: "NUL \<notin> set n" "n \<noteq> name" "length name \<le> HAKO_FIXED_STRLEN_MAX"
  have "fixed_ok (ae_name (assets d ! i))" using ok i(1) by (simp add: table_ok_def)
  then have "\<not> entry_matches n ?a"
    using n entry_matches_iff [OF n(1), of ?a] by (simp add: new_entry_def fixed_ok_string2fixed)
  moreover have "\<not> entry_matches n (assets d ! i)" using i(2) by (simp add: entry_matches_def)
  ultimately show "first_index (entry_matches n) as = first_index (entry_matches n) (assets d)"
    unfolding as using i(1) by (intro first_index_cong) (auto simp: nth_list_update)
qed

lemma table_ok_frame [simp]:
  "table_ok b (d\<lparr>sim_state := st\<rparr>) = table_ok b d" "table_ok b (d\<lparr>time_usec := t\<rparr>) = table_ok b d"
  "length es = length (assets_ev d) \<Longrightarrow> table_ok b (d\<lparr>assets_ev := es\<rparr>) = table_ok b d"
  by (simp_all add: table_ok_def)

lemma asset_num_less:
  assumes "table_ok b d"
  shows "asset_num d < of_nat (HAKO_DATA_MAX_ASSET_NUM b) \<longleftrightarrow> count_if entry_used (assets d) < HAKO_DATA_MAX_ASSET_NUM b"
proof -
  have "count_if entry_used (assets d) \<le> HAKO_DATA_MAX_ASSET_NUM b" "HAKO_DATA_MAX_ASSET_NUM b < 2 ^ 31"
    using assms count_if_le_length [of entry_used "assets d"] by (simp_all add: table_ok_def)
  then have "unat (of_nat (count_if entry_used (assets d)) :: 32 word) = count_if entry_used (assets d)"
    "unat (of_nat (HAKO_DATA_MAX_ASSET_NUM b) :: 32 word) = HAKO_DATA_MAX_ASSET_NUM b"
    by (simp_all add: unat_of_nat)
  then show ?thesis using assms by (simp add: table_ok_def word_less_nat_alt)
qed

text \<open>Whether a registration is accepted.\<close>

definition can_register :: "hako_build \<Rightarrow> string \<Rightarrow> HakoAssetType \<Rightarrow> HakoMasterDataType \<Rightarrow> bool" where
  "can_register b name type d \<longleftrightarrow>
     type \<noteq> HakoAsset_Unknown \<and> length name \<le> HAKO_FIXED_STRLEN_MAX \<and> sim_state d = HakoSim_Stopped \<and>
     first_index (entry_matches name) (assets d) = None \<and>
     count_if entry_used (assets d) < HAKO_DATA_MAX_ASSET_NUM b"

lemma alloc_asset_accepts:
  assumes ok: "table_ok (he_build env) (master_datap w)"
    and can: "can_register (he_build env) name type (master_datap w)"
  obtains i where "i < length (assets (master_datap w))" "\<not> entry_used (assets (master_datap w) ! i)"
    "\<forall>j < i. entry_used (assets (master_datap w) ! j)"
    "alloc_asset env name type callback w =
       (int i, md_unlock (upd_md (\<lambda>d. d\<lparr>assets := (assets d)[i := new_entry name type callback i (assets d ! i)],
          assets_ev := (assets_ev d)[i := new_event env type (assets_ev d ! i)],
          asset_num := asset_num d + 1\<rparr>) (md_lock w)))"
proof -
  let ?d = "master_datap w"
  have len: "length (assets ?d) = HAKO_DATA_MAX_ASSET_NUM (he_build env)"
    "length (assets_ev ?d) = HAKO_DATA_MAX_ASSET_NUM (he_build env)"
    using ok by (simp_all add: table_ok_def)
  then have "first_index (\<lambda>a. \<not> entry_used a) (assets ?d) \<noteq> None"
    using can count_if_less_ex [of entry_used "assets ?d"] by (simp add: can_register_def first_index_None)
  then obtain i where i: "first_index (\<lambda>a. \<not> entry_used a) (assets ?d) = Some i" by auto
  then have i': "i < length (assets ?d)" "\<not> entry_used (assets ?d ! i)" "\<forall>j < i. entry_used (assets ?d ! j)"
    by (simp_all add: first_index_Some)
  have "alloc_asset env name type callback w =
      (int i, md_unlock (fill_asset env name type callback i (md_lock w)))"
    using can i asset_num_less [OF ok]
    by (simp add: alloc_asset_def can_register_def Let_def get_asset_nolock_eq find_free_eq)
  then show ?thesis
    using i' len can fill_asset_eq [of i "md_lock w" env type name callback]
    by (intro that [OF i']) (simp add: can_register_def)
qed

lemma alloc_asset_refuses:
  assumes "table_ok (he_build env) (master_datap w)"
    and "\<not> can_register (he_build env) name type (master_datap w)"
  shows "\<exists>w'. alloc_asset env name type callback w = (-1, w') \<and> master_datap w' = master_datap w"
  using assms asset_num_less [OF assms(1)]
  by (auto simp: alloc_asset_def can_register_def Let_def get_asset_nolock_eq split: option.splits)

lemma free_asset_eq:
  "free_asset name w =
    (case (if sim_state (master_datap w) = HakoSim_Stopped \<or> sim_state (master_datap w) = HakoSim_Error
           then first_index (entry_matches name) (assets (master_datap w)) else None) of
       None \<Rightarrow> (False, md_unlock (md_lock w))
     | Some i \<Rightarrow> (True, md_unlock (upd_md (\<lambda>d. d\<lparr>assets := (assets d)[i := (assets d ! i)\<lparr>ae_type := HakoAsset_Unknown\<rparr>],
           asset_num := asset_num d - 1\<rparr>) (md_lock w))))"
  by (simp add: free_asset_def Let_def get_asset_nolock_eq upd_asset_def upd_md_def split: option.splits)

lemma table_ok_free:
  assumes ok: "table_ok b d" and i: "i < length (assets d)" "entry_used (assets d ! i)"
  shows "table_ok b (d\<lparr>assets := (assets d)[i := (assets d ! i)\<lparr>ae_type := HakoAsset_Unknown\<rparr>],
    asset_num := asset_num d - 1\<rparr>)"
proof -
  let ?a = "(assets d ! i)\<lparr>ae_type := HakoAsset_Unknown\<rparr>"
  let ?as = "(assets d)[i := ?a]"
  have free: "\<not> entry_used ?a" by (simp add: entry_used_def)
  have "fixed_ok (ae_name (assets d ! i))" using ok i(1) by (simp add: table_ok_def)
  then have fixed: "\<forall>x \<in> set ?as. fixed_ok (ae_name x)"
    using ok set_update_subset_insert [of "assets d" i ?a] by (fastforce simp: table_ok_def)
  have count: "count_if entry_used (assets d) = Suc (count_if entry_used ?as)"
    using count_if_update [OF i(1), of entry_used ?a] i(2) free by simp
  have old: "j \<noteq> i \<and> entry_used (assets d ! j)" if "entry_used (?as ! j)" "j < length (assets d)" for j
    using that free by (cases "j = i") auto
  have same_id: "ae_id (?as ! j) = ae_id (assets d ! j)" for j using i(1) by (cases "j = i") simp_all
  have same_name: "ae_name (?as ! j) = ae_name (assets d ! j)" for j using i(1) by (cases "j = i") simp_all
  have "\<forall>j < length ?as. entry_used (?as ! j) \<longrightarrow> ae_id (?as ! j) = int j"
    using ok old unfolding same_id table_ok_def by simp
  moreover have "\<forall>j < length ?as. \<forall>k < length ?as. entry_used (?as ! j) \<and> entry_used (?as ! k) \<and>
       hako_fixed2string (ae_name (?as ! j)) = hako_fixed2string (ae_name (?as ! k)) \<longrightarrow> j = k"
    using ok old unfolding same_name table_ok_def by (metis length_list_update)
  ultimately show ?thesis
    using ok fixed count by (simp add: table_ok_def)
qed

lemma lookup_after_free:
  assumes ok: "table_ok b d" and i: "first_index (entry_matches name) (assets d) = Some i"
    and nul: "NUL \<notin> set name" "NUL \<notin> set n"
    and as: "as = (assets d)[i := (assets d ! i)\<lparr>ae_type := HakoAsset_Unknown\<rparr>]"
  shows "first_index (entry_matches n) as =
    (if n = name then None else first_index (entry_matches n) (assets d))"
proof -
  have i': "i < length (assets d)" "entry_matches name (assets d ! i)"
    using i by (simp_all add: first_index_Some)
  have fixed: "fixed_ok (ae_name (assets d ! j))" if "j < length (assets d)" for j
    using ok that by (simp add: table_ok_def)
  have name_i: "entry_used (assets d ! i)" "hako_fixed2string (ae_name (assets d ! i)) = name"
    using entry_matches_iff [OF nul(1) fixed [OF i'(1)]] i'(2) by simp_all
  have free: "\<not> entry_matches n ((assets d ! i)\<lparr>ae_type := HakoAsset_Unknown\<rparr>)"
    by (simp add: entry_matches_def entry_used_def)
  have other: "\<not> entry_matches name (assets d ! j)" if "j < length (assets d)" "j \<noteq> i" for j
  proof
    assume "entry_matches name (assets d ! j)"
    then have "entry_used (assets d ! j)" "hako_fixed2string (ae_name (assets d ! j)) = name"
      using entry_matches_iff [OF nul(1) fixed [OF that(1)]] by simp_all
    then show False using ok that i'(1) name_i unfolding table_ok_def by metis
  qed
  show ?thesis
  proof (cases "n = name")
    case True
    have "\<not> entry_matches n (as ! j)" if "j < length as" for j
      using that free other True i'(1) by (cases "j = i") (simp_all add: as)
    then have "first_index (entry_matches n) as = None" by (simp add: first_index_None)
    with True show ?thesis by simp
  next
    case False
    then have "\<not> entry_matches n (assets d ! i)"
      using entry_matches_iff [OF nul(2) fixed [OF i'(1)]] name_i by simp
    then have "first_index (entry_matches n) as = first_index (entry_matches n) (assets d)"
      unfolding as using i'(1) free by (intro first_index_cong) (auto simp: nth_list_update)
    with False show ?thesis by simp
  qed
qed

section \<open>The table as a directory of assets\<close>

text \<open>
  What the asset controller relies on: names map to slots, a registration in the stopped
  state takes a free slot, and an unregistration gives it back.
\<close>

locale asset_directory =
  fixes inv :: "'s \<Rightarrow> bool" and stopped :: "'s \<Rightarrow> bool" and valid :: "string \<Rightarrow> bool"
    and dir :: "'s \<Rightarrow> string \<Rightarrow> nat option" and free_slots :: "'s \<Rightarrow> nat"
    and register :: "string \<Rightarrow> 's \<Rightarrow> int \<times> 's" and unregister :: "string \<Rightarrow> 's \<Rightarrow> bool \<times> 's"
  assumes register_ok: "inv s \<Longrightarrow> stopped s \<Longrightarrow> valid n \<Longrightarrow> dir s n = None \<Longrightarrow> 0 < free_slots s \<Longrightarrow>
      \<exists>i s'. register n s = (int i, s') \<and> inv s' \<and> stopped s' \<and> free_slots s = Suc (free_slots s') \<and>
        dir s' n = Some i \<and> (\<forall>m. valid m \<longrightarrow> m \<noteq> n \<longrightarrow> dir s' m = dir s m)"
    and register_refused: "inv s \<Longrightarrow> valid n \<Longrightarrow> \<not> (stopped s \<and> dir s n = None \<and> 0 < free_slots s) \<Longrightarrow>
      \<exists>s'. register n s = (-1, s') \<and> inv s' \<and> dir s' = dir s \<and> free_slots s' = free_slots s"
    and unregister_ok: "inv s \<Longrightarrow> stopped s \<Longrightarrow> valid n \<Longrightarrow> dir s n = Some i \<Longrightarrow>
      \<exists>s'. unregister n s = (True, s') \<and> inv s' \<and> stopped s' \<and> free_slots s' = Suc (free_slots s) \<and>
        dir s' n = None \<and> (\<forall>m. valid m \<longrightarrow> m \<noteq> n \<longrightarrow> dir s' m = dir s m)"
begin

lemma register_unregister:
  assumes "inv s" and "stopped s" and "valid n" and "dir s n = None" and "0 < free_slots s"
  shows "\<exists>i s1 s2. register n s = (int i, s1) \<and> dir s1 n = Some i \<and>
    register n s1 = (-1, s2) \<and> inv s2 \<and> dir s2 = dir s1 \<and>
    (\<exists>s3. unregister n s1 = (True, s3) \<and> inv s3 \<and> free_slots s3 = free_slots s \<and>
      (\<forall>m. valid m \<longrightarrow> dir s3 m = dir s m))"
proof -
  obtain i s1 where 1: "register n s = (int i, s1)" "inv s1" "stopped s1" "free_slots s = Suc (free_slots s1)"
    "dir s1 n = Some i" "\<forall>m. valid m \<longrightarrow> m \<noteq> n \<longrightarrow> dir s1 m = dir s m"
    using register_ok [OF assms] by blast
  obtain s2 where 2: "register n s1 = (-1, s2)" "inv s2" "dir s2 = dir s1"
    using register_refused [OF 1(2) assms(3)] 1(5) by auto
  obtain s3 where 3: "unregister n s1 = (True, s3)" "inv s3" "free_slots s3 = Suc (free_slots s1)"
    "dir s3 n = None" "\<forall>m. valid m \<longrightarrow> m \<noteq> n \<longrightarrow> dir s3 m = dir s1 m"
    using unregister_ok [OF 1(2,3) assms(3) 1(5)] by blast
  have "dir s3 m = dir s m" if "valid m" for m
    using that 1(6) 3(4,5) assms(4) by (cases "m = n") simp_all
  then show ?thesis using 1 2 3 by auto
qed

end

definition valid_asset_name :: "string \<Rightarrow> bool" where
  "valid_asset_name name \<longleftrightarrow> NUL \<notin> set name \<and> length name \<le> HAKO_FIXED_STRLEN_MAX"

abbreviation md_inv :: "'m hako_env \<Rightarrow> 'm HakoMasterData \<Rightarrow> bool" where
  "md_inv env w \<equiv> table_ok (he_build env) (master_datap w)"

abbreviation md_stopped :: "'m HakoMasterData \<Rightarrow> bool" where
  "md_stopped w \<equiv> sim_state (master_datap w) = HakoSim_Stopped"

definition md_free :: "'m HakoMasterData \<Rightarrow> nat" where
  "md_free w = length (assets (master_datap w)) - count_if entry_used (assets (master_datap w))"

lemma md_free_pos:
  "table_ok b (master_datap w) \<Longrightarrow>
   0 < md_free w \<longleftrightarrow> count_if entry_used (assets (master_datap w)) < HAKO_DATA_MAX_ASSET_NUM b"
  by (auto simp: md_free_def table_ok_def)

interpretation asset_table: asset_directory
  "md_inv env" md_stopped valid_asset_name "\<lambda>w name. get_asset_nolock name w" md_free
  "\<lambda>name. alloc_asset env name HakoAsset_Inside callback" free_asset
proof (unfold_locales, goal_cases)
  case (1 s n)
  let ?d = "master_datap s"
  have can: "can_register (he_build env) n HakoAsset_Inside ?d"
    using 1 md_free_pos [of "he_build env" s]
    by (simp add: can_register_def valid_asset_name_def get_asset_nolock_eq)
  from alloc_asset_accepts [OF 1(1) can, of callback] obtain i where
    i: "i < length (assets ?d)" "\<not> entry_used (assets ?d ! i)" and
    run: "alloc_asset env n HakoAsset_Inside callback s =
       (int i, md_unlock (upd_md (\<lambda>d. d\<lparr>assets := (assets d)[i := new_entry n HakoAsset_Inside callback i (assets d ! i)],
          assets_ev := (assets_ev d)[i := new_event env HakoAsset_Inside (assets_ev d ! i)],
          asset_num := asset_num d + 1\<rparr>) (md_lock s)))" by blast
  have len: "length n \<le> HAKO_FIXED_STRLEN_MAX" and new: "first_index (entry_matches n) (assets ?d) = None"
    using 1 by (simp_all add: valid_asset_name_def get_asset_nolock_eq)
  have used: "entry_used (new_entry n HakoAsset_Inside callback i (assets ?d ! i))"
    by (simp add: entry_used_def new_entry_def)
  have count: "count_if entry_used ((assets ?d)[i := new_entry n HakoAsset_Inside callback i (assets ?d ! i)]) =
      Suc (count_if entry_used (assets ?d))"
    using count_if_update [OF i(1), of entry_used "new_entry n HakoAsset_Inside callback i (assets ?d ! i)"] i(2) used
    by simp
  have "count_if entry_used (assets ?d) < length (assets ?d)"
    using can 1(1) by (simp add: can_register_def table_ok_def)
  then show ?case
    using run 1(2) table_ok_fill [OF 1(1) i new len, where type = HakoAsset_Inside and callback = callback and
          e = "new_event env HakoAsset_Inside (assets_ev ?d ! i)"]
      lookup_after_fill [OF 1(1) i _ refl, where type = HakoAsset_Inside and name = n and callback = callback] new len count
    by (intro exI [of _ i] exI) (auto simp: get_asset_nolock_eq md_free_def valid_asset_name_def)
next
  case (2 s n)
  then have "\<not> can_register (he_build env) n HakoAsset_Inside (master_datap s)"
    using md_free_pos [of "he_build env" s] by (auto simp: can_register_def get_asset_nolock_eq)
  with alloc_asset_refuses [OF 2(1), of n HakoAsset_Inside callback] 2(1) show ?case
    by (auto simp: get_asset_nolock_def md_free_def)
next
  case (3 s n i)
  let ?d = "master_datap s"
  let ?as = "(assets ?d)[i := (assets ?d ! i)\<lparr>ae_type := HakoAsset_Unknown\<rparr>]"
  have i: "first_index (entry_matches n) (assets ?d) = Some i" using 3(4) by (simp add: get_asset_nolock_eq)
  then have i': "i < length (assets ?d)" "entry_used (assets ?d ! i)"
    by (simp_all add: first_index_Some entry_matches_def)
  have "count_if entry_used (assets ?d) = Suc (count_if entry_used ?as)"
    using count_if_update [OF i'(1), of entry_used "(assets ?d ! i)\<lparr>ae_type := HakoAsset_Unknown\<rparr>"] i'(2)
    by (simp add: entry_used_def)
  moreover have "count_if entry_used (assets ?d) \<le> length (assets ?d)" by (rule count_if_le_length)
  ultimately show ?case
    using 3 i table_ok_free [OF 3(1) i'] lookup_after_free [OF 3(1) i _ _ refl]
    by (intro exI) (auto simp: free_asset_eq get_asset_nolock_eq md_free_def valid_asset_name_def)
qed

end
