(* ===== verification/Hako_Rpc.thy ===== *)
theory Hako_Rpc
  imports Hako_Master_Data
begin

text \<open>
  The delivery of simulation events to assets, \<open>core/rpc/hako_internal_rpc.cpp\<close>: the event
  is stored in the asset's record; a polling asset finds it there, an asset of the calling
  process is called back at once, and the proxy thread of an asset in another process is
  woken through its semaphore.
\<close>

section \<open>Notification\<close>

definition call_ptr :: "'m hako_env \<Rightarrow> nat option \<Rightarrow> 'm HakoMasterData \<Rightarrow> 'm HakoMasterData result" where
  "call_ptr env f w = (case f of None \<Rightarrow> Inl Null_Deref | Some g \<Rightarrow> he_call env g (effect (Call g) w))"

definition notify :: "'m hako_env \<Rightarrow> int \<Rightarrow> HakoAssetEventType \<Rightarrow> 'm HakoMasterData \<Rightarrow> 'm HakoMasterData result" where
  "notify env asset_id event_id w =
    (case get_asset_event_nolock (he_build env) asset_id w of
       None \<Rightarrow> Inl Null_Deref
     | Some i \<Rightarrow>
         let w = upd_ev i (\<lambda>e. e\<lparr>ev_event := event_id, ev_feedback := False\<rparr>) w;
             cb = ae_callback (assets (master_datap w) ! i)
         in if cb_start cb = None then Inr w
            else if ev_pid (assets_ev (master_datap w) ! i) \<noteq> he_pid env then Inr (effect (Asset_Up asset_id) w)
            else case event_id of
                   HakoAssetEvent_Start \<Rightarrow> call_ptr env (cb_start cb) (HAKO_LOG ''INFO'' ''Notify Event: Start asset=%s'' w)
                 | HakoAssetEvent_Stop \<Rightarrow> call_ptr env (cb_stop cb) (HAKO_LOG ''INFO'' ''Notify Event: Stop asset=%s'' w)
                 | HakoAssetEvent_Reset \<Rightarrow> call_ptr env (cb_reset cb) (HAKO_LOG ''INFO'' ''Notify Event: Reset asset=%s'' w)
                 | _ \<Rightarrow> Inr w)"

section \<open>The proxy of an asset\<close>

text \<open>
  The object \<open>HakoInternalRpc\<close>: \<open>rpc_map\<close> is its \<open>map_\<close> from events to function pointers,
  \<open>rpc_thread\<close> says whether the proxy thread exists.
\<close>

record HakoInternalRpc =
  rpc_asset_id :: int
  rpc_map :: "HakoAssetEventType \<rightharpoonup> nat option"
  rpc_thread :: bool

definition new_rpc :: "int \<Rightarrow> HakoInternalRpc" where
  "new_rpc asset_id = \<lparr>rpc_asset_id = asset_id, rpc_map = Map.empty, rpc_thread = False\<rparr>"

definition register_callback :: "HakoAssetEventType \<Rightarrow> nat option \<Rightarrow> HakoInternalRpc \<Rightarrow> HakoInternalRpc" where
  "register_callback event_id callback r = r\<lparr>rpc_map := map_insert event_id callback (rpc_map r)\<rparr>"

definition rpc_start :: "'m hako_env \<Rightarrow> 'm HakoMasterData \<Rightarrow> HakoInternalRpc \<Rightarrow> HakoInternalRpc" where
  "rpc_start env w r = (if he_pid env = master_pid (master_datap w) then r else r\<lparr>rpc_thread := True\<rparr>)"

text \<open>
  One turn of the loop of \<open>proxy_thread\<close>, once \<open>asset_down\<close> has returned; the result says
  whether the thread ended. \<open>map_[event_id]\<close> of an event without an entry is a null pointer.
\<close>

definition proxy_turn :: "'m hako_env \<Rightarrow> HakoInternalRpc \<Rightarrow> (bool, 'm) master_op" where
  "proxy_turn env r w =
    (case get_asset_event_nolock (he_build env) (rpc_asset_id r) w of
       None \<Rightarrow> Inr (True, HAKO_LOG ''INFO'' ''HakoInternalRpc Thread: End'' w)
     | Some i \<Rightarrow>
         bindE (call_ptr env (case rpc_map r (ev_event (assets_ev (master_datap w) ! i)) of
                                None \<Rightarrow> None | Some f \<Rightarrow> f) w) (\<lambda>w. Inr (False, w)))"

text \<open>
  \<open>stop\<close> posts the asset's semaphore and joins the thread; the join returns only if that
  turn of the thread is its last.
\<close>

definition rpc_stop :: "'m hako_env \<Rightarrow> HakoInternalRpc \<Rightarrow> (HakoInternalRpc, 'm) master_op" where
  "rpc_stop env r w =
    (if \<not> rpc_thread r then Inr (r, w)
     else if he_pid env = master_pid (master_datap w) then Inr (r, w)
     else
       bindE (proxy_turn env r (effect (Asset_Up (rpc_asset_id r)) w)) (\<lambda>(ended, w).
         if ended then Inr (r\<lparr>rpc_thread := False\<rparr>, w) else Inl Blocked))"

section \<open>What a notification does\<close>

text \<open>
  A callback is code of the application. What the library relies on is stated as the
  interface below: it returns, it only talks to the library through the asset controller,
  and so it leaves the table of assets, the simulation state and the time alone: of the
  master data it changes event records only.
\<close>

definition undisturbed :: "HakoMasterDataType \<Rightarrow> HakoMasterDataType \<Rightarrow> bool" where
  "undisturbed d d' \<longleftrightarrow>
     assets d' = assets d \<and> length (assets_ev d') = length (assets_ev d) \<and> asset_num d' = asset_num d \<and>
     sim_state d' = sim_state d \<and> master_pid d' = master_pid d \<and> time_usec d' = time_usec d"

lemma undisturbed_refl [simp]: "undisturbed d d" by (simp add: undisturbed_def)

lemma undisturbed_trans: "undisturbed d e \<Longrightarrow> undisturbed e f \<Longrightarrow> undisturbed d f"
  by (simp add: undisturbed_def)

lemma undisturbed_table: "undisturbed d d' \<Longrightarrow> table_ok b d' = table_ok b d"
  by (simp add: undisturbed_def table_ok_def)

lemma undisturbed_events [simp]:
  "length es = length (assets_ev d) \<Longrightarrow> undisturbed d (d\<lparr>assets_ev := es\<rparr>)"
  by (simp add: undisturbed_def)

lemma undisturbed_ev: "undisturbed (master_datap w) (master_datap (upd_ev i f w))"
  by (simp add: undisturbed_def)

locale hako_callbacks =
  fixes env :: "'m hako_env" and known :: "nat \<Rightarrow> bool"
  assumes call_returns: "known f \<Longrightarrow> table_ok (he_build env) (master_datap w) \<Longrightarrow>
      \<exists>w'. he_call env f w = Inr w' \<and> undisturbed (master_datap w) (master_datap w')"

end
