(* ===== verification/Hako_Pdu_Store.thy ===== *)
theory Hako_Pdu_Store
  imports Hako_Pdu_Channels
begin

text \<open>
  The contents of the PDU area: the offsets that \<open>create\<close> assigns, the area as a store
  that maps a real channel id to its bytes and to its version counters, and the
  refinement lemmas that reads, writes and the reset of \<open>HakoPduData\<close> implement that store
  on any shared-memory backend that meets the locale \<open>hako_shared_memory\<close>.
\<close>

section \<open>Layout\<close>

abbreviation sizes_before :: "HakoPduChannelType list \<Rightarrow> nat \<Rightarrow> nat" where
  "sizes_before cs i \<equiv> sum_list (map ch_size (take i cs))"

abbreviation sizes_total :: "HakoPduChannelType list \<Rightarrow> nat" where
  "sizes_total cs \<equiv> sum_list (map ch_size cs)"

definition laid_out :: "HakoPduChannelType list \<Rightarrow> bool" where
  "laid_out cs \<longleftrightarrow>
     sizes_total cs \<le> UINT64_MAX \<and> (\<forall>i < length cs. ch_offset (cs ! i) = sizes_before cs i)"

lemma total_size_from_eq:
  "tot \<le> UINT64_MAX \<Longrightarrow> total_size_from tot cs = min UINT64_MAX (tot + sizes_total cs)"
  by (induction cs arbitrary: tot) auto

lemma pdu_total_size_eq: "pdu_total_size w = min UINT64_MAX (sizes_total (channel (pdu_meta_data w)))"
  by (simp add: pdu_total_size_def total_size_from_eq)

lemma pdu_total_size_le [simp]: "pdu_total_size w \<le> SIZE_MAX"
  by (simp add: pdu_total_size_eq)

lemma length_assign_offsets [simp]: "length (assign_offsets off cs) = length cs"
  by (induction cs arbitrary: off) auto

lemma sizes_assign_offsets [simp]: "map ch_size (assign_offsets off cs) = map ch_size cs"
  by (induction cs arbitrary: off) auto

lemma ch_size_assign_offsets [simp]:
  "i < length cs \<Longrightarrow> ch_size (assign_offsets off cs ! i) = ch_size (cs ! i)"
  using sizes_assign_offsets [of off cs] by (metis length_assign_offsets nth_map)

lemma ch_offset_assign_offsets:
  "i < length cs \<Longrightarrow> off + sizes_total cs \<le> UINT64_MAX \<Longrightarrow>
   ch_offset (assign_offsets off cs ! i) = off + sizes_before cs i"
proof (induction cs arbitrary: off i)
  case (Cons c cs)
  then show ?case by (cases i) auto
qed simp

lemma sizes_before_assign_offsets [simp]:
  "sizes_before (assign_offsets off cs) i = sizes_before cs i"
  by (metis sizes_assign_offsets take_map)

lemma laid_out_assign_offsets:
  "sizes_total cs \<le> UINT64_MAX \<Longrightarrow> laid_out (assign_offsets 0 cs)"
  by (simp add: laid_out_def ch_offset_assign_offsets)

lemma sizes_before_mono:
  assumes "i < j" and "j \<le> length cs"
  shows "sizes_before cs i + ch_size (cs ! i) \<le> sizes_before cs j"
proof -
  have "take j cs = take (Suc i) cs @ take (j - Suc i) (drop (Suc i) cs)"
    using assms(1) take_add [of "Suc i" "j - Suc i" cs] by simp
  moreover have "take (Suc i) cs = take i cs @ [cs ! i]"
    using assms by (intro take_Suc_conv_app_nth) simp
  ultimately show ?thesis by simp
qed

lemma laid_out_within:
  "laid_out cs \<Longrightarrow> i < length cs \<Longrightarrow> ch_offset (cs ! i) + ch_size (cs ! i) \<le> sizes_total cs"
  using sizes_before_mono [of i "length cs" cs] by (simp add: laid_out_def)

lemma laid_out_disjoint:
  assumes "laid_out cs" and "i < length cs" and "j < length cs" and "i \<noteq> j"
  shows "ch_offset (cs ! i) + ch_size (cs ! i) \<le> ch_offset (cs ! j) \<or>
    ch_offset (cs ! j) + ch_size (cs ! j) \<le> ch_offset (cs ! i)"
  using assms sizes_before_mono [of i j cs] sizes_before_mono [of j i cs]
  by (cases "i < j") (auto simp: laid_out_def)

section \<open>The store\<close>

record pdu_store =
  store_bytes :: "nat \<Rightarrow> byte list"
  store_wver :: "nat \<Rightarrow> 32 word"
  store_rver :: "nat \<Rightarrow> nat \<Rightarrow> 32 word"

definition store_poke :: "nat \<Rightarrow> byte list \<Rightarrow> pdu_store \<Rightarrow> pdu_store" where
  "store_poke c bs s =
     s\<lparr>store_bytes := (store_bytes s)(c := bs @ drop (length bs) (store_bytes s c))\<rparr>"

definition store_write :: "nat \<Rightarrow> byte list \<Rightarrow> pdu_store \<Rightarrow> pdu_store" where
  "store_write c bs s =
     s\<lparr>store_bytes := (store_bytes s)(c := bs @ drop (length bs) (store_bytes s c)),
       store_wver := (store_wver s)(c := store_wver s c + 1)\<rparr>"

definition store_read :: "nat \<Rightarrow> nat \<Rightarrow> pdu_store \<Rightarrow> pdu_store" where
  "store_read a c s = s\<lparr>store_rver := (store_rver s)(a := (store_rver s a)(c := store_wver s c))\<rparr>"

definition store_dirty :: "nat \<Rightarrow> nat \<Rightarrow> pdu_store \<Rightarrow> bool" where
  "store_dirty a c s \<longleftrightarrow> store_rver s a c \<noteq> store_wver s c"

definition channel_bytes :: "'m pdu_env \<Rightarrow> 'm HakoPduData \<Rightarrow> nat \<Rightarrow> byte list" where
  "channel_bytes env w i =
     (if i < length (channel (pdu_meta_data w))
      then slice (pdu_bytes env w) (ch_offset (channel (pdu_meta_data w) ! i))
             (ch_size (channel (pdu_meta_data w) ! i))
      else [])"

definition abs_store :: "'m pdu_env \<Rightarrow> 'm HakoPduData \<Rightarrow> pdu_store" where
  "abs_store env w =
     \<lparr>store_bytes = channel_bytes env w,
      store_wver = (\<lambda>c. atomic_pdu_write_version (pdu_meta_data w) ! c),
      store_rver = (\<lambda>a c. atomic_pdu_read_version (pdu_meta_data w) ! a ! c)\<rparr>"

lemma store_bytes_abs [simp]: "store_bytes (abs_store env w) = channel_bytes env w"
  by (simp add: abs_store_def)

text \<open>No reader and no writer is inside: every flag is down.\<close>

definition pdu_idle :: "HakoPduMetaDataType \<Rightarrow> bool" where
  "pdu_idle m \<longleftrightarrow>
     (\<forall>row \<in> set (atomic_is_rbusy m). True \<notin> set row) \<and>
     True \<notin> set (atomic_is_rbusy_for_external m) \<and> True \<notin> set (atomic_is_wbusy m)"

definition pdu_ready :: "('m \<Rightarrow> bool) \<Rightarrow> 'm pdu_env \<Rightarrow> 'm HakoPduData \<Rightarrow> bool" where
  "pdu_ready invar env w \<longleftrightarrow>
     meta_ok (env_build env) (pdu_meta_data w) \<and> pdu_idle (pdu_meta_data w) \<and>
     pdu_ptr w \<and> invar (asset_shmp w) \<and>
     lock_memory (env_shm env) HAKO_SHARED_MEMORY_ID_1 (asset_shmp w) \<and>
     laid_out (channel (pdu_meta_data w)) \<and>
     sizes_total (channel (pdu_meta_data w)) \<le> length (pdu_bytes env w)"

lemma any_rbusy_False:
  "\<forall>row \<in> set rows. length row = n \<and> True \<notin> set row \<Longrightarrow> 0 \<le> c \<Longrightarrow> c < int n \<Longrightarrow>
   any_rbusy rows c = Inr False"
proof (induction rows)
  case (Cons row rows)
  then have "row ! nat c \<in> set row" by (intro nth_mem) auto
  then have "\<not> row ! nat c" using Cons.prems(1) by auto
  with Cons show ?case by auto
qed simp

lemma idle_not_rbusy:
  assumes "meta_ok b (pdu_meta_data w)" and "pdu_idle (pdu_meta_data w)"
    and "c < HAKO_PDU_CHANNEL_MAX b"
  shows "is_pdu_rbusy (int c) w = Inr False"
proof -
  let ?m = "pdu_meta_data w"
  have "atomic_is_rbusy_for_external ?m ! c \<in> set (atomic_is_rbusy_for_external ?m)"
    using assms by (intro nth_mem) (simp add: meta_ok_def)
  then have "\<not> atomic_is_rbusy_for_external ?m ! c" using assms(2) by (auto simp: pdu_idle_def)
  moreover have "any_rbusy (atomic_is_rbusy ?m) (int c) = Inr False"
    using assms by (intro any_rbusy_False [of _ "HAKO_PDU_CHANNEL_MAX b"]) (auto simp: meta_ok_def pdu_idle_def)
  ultimately show ?thesis using assms by (simp add: is_pdu_rbusy_def meta_ok_def)
qed

lemma idle_not_wbusy:
  assumes "meta_ok b (pdu_meta_data w)" and "pdu_idle (pdu_meta_data w)"
    and "c < HAKO_PDU_CHANNEL_MAX b"
  shows "is_pdu_wbusy (int c) w = Inr False" and "\<not> atomic_is_wbusy (pdu_meta_data w) ! c"
proof -
  have "atomic_is_wbusy (pdu_meta_data w) ! c \<in> set (atomic_is_wbusy (pdu_meta_data w))"
    using assms by (intro nth_mem) (simp add: meta_ok_def)
  then show "\<not> atomic_is_wbusy (pdu_meta_data w) ! c" using assms(2) by (auto simp: pdu_idle_def)
  then show "is_pdu_wbusy (int c) w = Inr False"
    using assms by (simp add: is_pdu_wbusy_def meta_ok_def)
qed

text \<open>A flag that is raised and lowered again is as it was.\<close>

lemma list_update_flag: "\<not> xs ! i \<Longrightarrow> xs[i := True, i := False] = xs"
  by (simp add: list_update_same_conv) (metis list_update_id)

section \<open>Reads and writes in closed form\<close>

definition after_poke :: "'m pdu_env \<Rightarrow> nat \<Rightarrow> byte list \<Rightarrow> 'm HakoPduData \<Rightarrow> 'm HakoPduData" where
  "after_poke env c bs w =
     set_pdu_bytes env (splice (pdu_bytes env w) (ch_offset (channel (pdu_meta_data w) ! c)) bs) w"

definition after_write :: "'m pdu_env \<Rightarrow> nat \<Rightarrow> byte list \<Rightarrow> 'm HakoPduData \<Rightarrow> 'm HakoPduData" where
  "after_write env c bs w =
     upd_meta (\<lambda>m. m\<lparr>atomic_is_dirty := (atomic_is_dirty m)[c := True],
                      atomic_pdu_write_version :=
                        (atomic_pdu_write_version m)[c := atomic_pdu_write_version m ! c + 1]\<rparr>)
       (after_poke env c bs w)"

definition after_read :: "nat \<Rightarrow> nat \<Rightarrow> 'm HakoPduData \<Rightarrow> 'm HakoPduData" where
  "after_read a c w =
     upd_meta (\<lambda>m. m\<lparr>atomic_pdu_read_version := (atomic_pdu_read_version m)[a :=
         (atomic_pdu_read_version m ! a)[c := atomic_pdu_write_version m ! c]]\<rparr>) w"

lemma set_pdu_bytes_simps [simp]:
  "pdu_meta_data (set_pdu_bytes env bs w) = pdu_meta_data w"
  "pdu_ptr (set_pdu_bytes env bs w) = pdu_ptr w"
  "pdu_channel_cache (set_pdu_bytes env bs w) = pdu_channel_cache w"
  "trace (set_pdu_bytes env bs w) = trace w"
  "asset_shmp (set_pdu_bytes env bs w) = set_region (env_shm env) HAKO_SHARED_MEMORY_ID_1 bs (asset_shmp w)"
  by (simp_all add: set_pdu_bytes_def)

lemma pdu_ready_within:
  assumes "pdu_ready invar env w" and "c < HAKO_PDU_CHANNEL_MAX (env_build env)"
  shows "c < length (channel (pdu_meta_data w))"
    and "ch_offset (channel (pdu_meta_data w) ! c) + ch_size (channel (pdu_meta_data w) ! c)
           \<le> length (pdu_bytes env w)"
    and "ch_offset (channel (pdu_meta_data w) ! c) \<le> SIZE_MAX"
    and "ch_size (channel (pdu_meta_data w) ! c) \<le> SIZE_MAX"
proof -
  show c: "c < length (channel (pdu_meta_data w))"
    using assms by (simp add: pdu_ready_def meta_ok_def)
  have l: "laid_out (channel (pdu_meta_data w))" using assms(1) by (simp add: pdu_ready_def)
  show "ch_offset (channel (pdu_meta_data w) ! c) + ch_size (channel (pdu_meta_data w) ! c)
      \<le> length (pdu_bytes env w)"
    using laid_out_within [OF l c] assms(1) by (simp add: pdu_ready_def)
  show "ch_offset (channel (pdu_meta_data w) ! c) \<le> SIZE_MAX" "ch_size (channel (pdu_meta_data w) ! c) \<le> SIZE_MAX"
    using laid_out_within [OF l c] l by (auto simp: laid_out_def)
qed

lemma write_pdu_eq:
  assumes "pdu_ready invar env w" and "c < HAKO_PDU_CHANNEL_MAX (env_build env)"
    and "len \<le> ch_size (channel (pdu_meta_data w) ! c)" and "len \<le> length data"
  shows "write_pdu env (int c) data len w = Inr (True, after_write env c (take len data) w)"
proof -
  let ?m = "pdu_meta_data w"
  let ?w = "upd_meta (\<lambda>m. m\<lparr>atomic_is_wbusy := (atomic_is_wbusy ?m)[c := True]\<rparr>) w"
  have ready: "meta_ok (env_build env) ?m" "pdu_idle ?m" "pdu_ptr w"
    using assms(1) by (simp_all add: pdu_ready_def)
  note lens = ready(1) [unfolded meta_ok_def]
  have rb: "is_pdu_rbusy (int c) ?w = Inr False"
    using idle_not_rbusy [OF ready(1,2) assms(2)] by (simp add: is_pdu_rbusy_def cong: if_cong)
  have "\<not> atomic_is_wbusy ?m ! c" by (rule idle_not_wbusy [OF ready(1,2) assms(2)])
  then have wb: "(atomic_is_wbusy ?m)[c := False] = atomic_is_wbusy ?m"
    by (metis list_update_id)
  show ?thesis
    using assms ready lens rb wb pdu_ready_within [OF assms(1,2)]
    by (simp add: write_pdu_def ensure_loaded_def set_pdu_wbusy_status_def copy_in_def finish_write_def
        after_write_def after_poke_def upd_meta_def set_pdu_bytes_def)
qed

lemma read_pdu_eq:
  assumes "pdu_ready invar env w" and "c < HAKO_PDU_CHANNEL_MAX (env_build env)"
    and "a < HAKO_DATA_MAX_ASSET_NUM (env_build env)"
    and "len \<le> ch_size (channel (pdu_meta_data w) ! c)"
  shows "read_pdu env (int a) (int c) len w =
    Inr (Some (take len (channel_bytes env w c)), after_read a c w)"
proof -
  let ?m = "pdu_meta_data w"
  have ready: "meta_ok (env_build env) ?m" "pdu_idle ?m" "pdu_ptr w"
    using assms(1) by (simp_all add: pdu_ready_def)
  note lens = ready(1) [unfolded meta_ok_def]
  have row: "length (atomic_is_rbusy ?m ! a) = HAKO_PDU_CHANNEL_MAX (env_build env)"
    "length (atomic_pdu_read_version ?m ! a) = HAKO_PDU_CHANNEL_MAX (env_build env)"
    "True \<notin> set (atomic_is_rbusy ?m ! a)"
    using lens assms(3) ready(2) by (auto simp: pdu_idle_def)
  then have "\<not> atomic_is_rbusy ?m ! a ! c" using assms(2) by (metis (full_types) nth_mem)
  then have rb: "(atomic_is_rbusy ?m ! a)[c := False] = atomic_is_rbusy ?m ! a"
    by (metis list_update_id)
  have wb: "\<not> atomic_is_wbusy ?m ! c" by (rule idle_not_wbusy [OF ready(1,2) assms(2)])
  show ?thesis
    using assms ready lens row rb wb pdu_ready_within [OF assms(1,2)]
    by (simp add: read_pdu_def ensure_loaded_def set_pdu_rbusy_status_def copy_out_def finish_read_def
        is_pdu_wbusy_def after_read_def upd_meta_def channel_bytes_def Let_def slice_def min_def)
qed

lemma after_read_refines:
  assumes "pdu_ready invar env w" and "c < HAKO_PDU_CHANNEL_MAX (env_build env)"
    and "a < HAKO_DATA_MAX_ASSET_NUM (env_build env)"
  shows "pdu_ready invar env (after_read a c w)"
    and "abs_store env (after_read a c w) = store_read a c (abs_store env w)"
proof -
  let ?m = "pdu_meta_data w"
  let ?row = "(atomic_pdu_read_version ?m ! a)[c := atomic_pdu_write_version ?m ! c]"
  have row: "length (atomic_pdu_read_version ?m) = HAKO_DATA_MAX_ASSET_NUM (env_build env)"
    "length (atomic_pdu_read_version ?m ! a) = HAKO_PDU_CHANNEL_MAX (env_build env)"
    "\<forall>row \<in> set (atomic_pdu_read_version ?m). length row = HAKO_PDU_CHANNEL_MAX (env_build env)"
    using assms(1,3) by (auto simp: pdu_ready_def meta_ok_def)
  then have "\<forall>row \<in> set ((atomic_pdu_read_version ?m)[a := ?row]). length row = HAKO_PDU_CHANNEL_MAX (env_build env)"
    using set_update_subset_insert [of "atomic_pdu_read_version ?m" a ?row] by auto
  then show "pdu_ready invar env (after_read a c w)"
    using assms(1) by (simp add: pdu_ready_def after_read_def meta_ok_def pdu_idle_def)
  show "abs_store env (after_read a c w) = store_read a c (abs_store env w)"
    using row assms(2,3)
    by (auto simp: abs_store_def store_read_def after_read_def channel_bytes_def fun_eq_iff nth_list_update)
qed

context hako_shared_memory
begin

lemma channel_bytes_after_poke:
  assumes "env_shm env = vt" and "pdu_ready invar env w" and "c < HAKO_PDU_CHANNEL_MAX (env_build env)"
    and "length bs \<le> ch_size (channel (pdu_meta_data w) ! c)"
  shows "channel_bytes env (after_poke env c bs w) =
    (channel_bytes env w)(c := bs @ drop (length bs) (channel_bytes env w c))"
proof
  fix i
  let ?cs = "channel (pdu_meta_data w)" and ?mem = "pdu_bytes env w"
  have mem: "pdu_bytes env (after_poke env c bs w) = splice ?mem (ch_offset (?cs ! c)) bs"
    using assms(1,2) region_set by (simp add: after_poke_def pdu_ready_def)
  have c: "c < length ?cs" "ch_offset (?cs ! c) + ch_size (?cs ! c) \<le> length ?mem"
    using pdu_ready_within [OF assms(2,3)] by simp_all
  have lo: "laid_out ?cs" using assms(2) by (simp add: pdu_ready_def)
  consider "i = c" | "i \<noteq> c" "i < length ?cs" | "length ?cs \<le> i" by linarith
  then show "channel_bytes env (after_poke env c bs w) i =
      ((channel_bytes env w)(c := bs @ drop (length bs) (channel_bytes env w c))) i"
  proof cases
    case 1
    have "slice (splice ?mem (ch_offset (?cs ! c)) bs) (ch_offset (?cs ! c)) (ch_size (?cs ! c)) =
        bs @ drop (length bs) (slice ?mem (ch_offset (?cs ! c)) (ch_size (?cs ! c)))"
      using assms(4) c(2) by (simp add: slice_def splice_def min_def drop_take add.commute)
    then show ?thesis
      using 1 c(1) unfolding channel_bytes_def mem by (simp add: after_poke_def channel_bytes_def)
  next
    case 2
    have "i < HAKO_PDU_CHANNEL_MAX (env_build env)" using 2 assms(2) by (simp add: pdu_ready_def meta_ok_def)
    from pdu_ready_within(2) [OF assms(2) this]
    have "slice (splice ?mem (ch_offset (?cs ! c)) bs) (ch_offset (?cs ! i)) (ch_size (?cs ! i)) =
        slice ?mem (ch_offset (?cs ! i)) (ch_size (?cs ! i))"
      using c(2) assms(4) laid_out_disjoint [OF lo 2(2) c(1) 2(1)]
      by (intro slice_splice_other) auto
    then show ?thesis
      using 2 unfolding channel_bytes_def mem by (simp add: after_poke_def channel_bytes_def)
  next
    case 3
    then show ?thesis
      using c(1) by (simp add: after_poke_def channel_bytes_def)
  qed
qed

lemma channel_bytes_after_write [simp]:
  "channel_bytes env (after_write env c bs w) = channel_bytes env (after_poke env c bs w)"
  by (simp add: fun_eq_iff channel_bytes_def after_write_def cong: if_cong)

lemma after_poke_refines:
  assumes "env_shm env = vt" and "pdu_ready invar env w" and "c < HAKO_PDU_CHANNEL_MAX (env_build env)"
    and "length bs \<le> ch_size (channel (pdu_meta_data w) ! c)"
  shows "pdu_ready invar env (after_poke env c bs w)"
    and "abs_store env (after_poke env c bs w) = store_poke c bs (abs_store env w)"
proof -
  have "ch_offset (channel (pdu_meta_data w) ! c) + length bs \<le> length (pdu_bytes env w)"
    using pdu_ready_within(2) [OF assms(2,3)] assms(4) by simp
  then show "pdu_ready invar env (after_poke env c bs w)"
    using assms(1,2) set_invar set_maps region_set by (simp add: pdu_ready_def after_poke_def)
  show "abs_store env (after_poke env c bs w) = store_poke c bs (abs_store env w)"
    using channel_bytes_after_poke [OF assms]
    by (simp add: abs_store_def store_poke_def) (simp add: after_poke_def)
qed

lemma after_write_refines:
  assumes "env_shm env = vt" and "pdu_ready invar env w" and "c < HAKO_PDU_CHANNEL_MAX (env_build env)"
    and "length bs \<le> ch_size (channel (pdu_meta_data w) ! c)"
  shows "pdu_ready invar env (after_write env c bs w)"
    and "abs_store env (after_write env c bs w) = store_write c bs (abs_store env w)"
proof -
  show "pdu_ready invar env (after_write env c bs w)"
    using after_poke_refines(1) [OF assms]
    by (simp add: pdu_ready_def after_write_def meta_ok_def pdu_idle_def)
  have "c < length (atomic_pdu_write_version (pdu_meta_data w))"
    using assms(2,3) by (simp add: pdu_ready_def meta_ok_def)
  then show "abs_store env (after_write env c bs w) = store_write c bs (abs_store env w)"
    using channel_bytes_after_poke [OF assms]
    by (simp add: abs_store_def store_write_def)
      (auto simp: after_write_def after_poke_def fun_eq_iff nth_list_update)
qed

end

section \<open>Sequences of accesses\<close>

datatype pdu_cmd =
    Write_Pdu nat "byte list"
  | Read_Pdu nat nat nat
  | Read_Pdu_External nat nat
  | Write_Pdu_Nolock nat "byte list"
  | Read_Pdu_Nolock nat nat

text \<open>A command on the object; a write that returns \<open>true\<close> gives \<open>Some []\<close>.\<close>

definition written :: "bool \<Rightarrow> byte list option" where
  "written ok = (if ok then Some [] else None)"

fun pdu_exec :: "'m pdu_env \<Rightarrow> pdu_cmd \<Rightarrow> (byte list option, 'm) pdu_op" where
  "pdu_exec env (Write_Pdu c bs) w =
     bindE (write_pdu env (int c) bs (length bs) w) (\<lambda>(ok, w). Inr (written ok, w))"
| "pdu_exec env (Read_Pdu a c len) w = read_pdu env (int a) (int c) len w"
| "pdu_exec env (Read_Pdu_External c len) w = read_pdu_for_external env (int c) len w"
| "pdu_exec env (Write_Pdu_Nolock c bs) w =
     bindE (write_pdu_nolock env (int c) (Some bs) (length bs) w) (\<lambda>(ok, w). Inr (written ok, w))"
| "pdu_exec env (Read_Pdu_Nolock c len) w = read_pdu_nolock env (int c) True len w"

text \<open>The same command on a store of \<open>n\<close> channels.\<close>

fun store_exec :: "nat \<Rightarrow> pdu_cmd \<Rightarrow> pdu_store \<Rightarrow> byte list option \<times> pdu_store" where
  "store_exec n (Write_Pdu c bs) s =
     (if n \<le> c \<or> length (store_bytes s c) < length bs then (None, s) else (Some [], store_write c bs s))"
| "store_exec n (Read_Pdu a c len) s =
     (if n \<le> c \<or> length (store_bytes s c) < len then (None, s)
      else (Some (take len (store_bytes s c)), store_read a c s))"
| "store_exec n (Read_Pdu_External c len) s =
     (if n \<le> c \<or> length (store_bytes s c) < len then (None, s) else (Some (take len (store_bytes s c)), s))"
| "store_exec n (Write_Pdu_Nolock c bs) s =
     (if n \<le> c then (None, s) else (Some [], store_poke c (take (length (store_bytes s c)) bs) s))"
| "store_exec n (Read_Pdu_Nolock c len) s =
     (if n \<le> c then (None, s) else (Some (take len (store_bytes s c)), s))"

fun store_run :: "nat \<Rightarrow> pdu_cmd list \<Rightarrow> pdu_store \<Rightarrow> byte list option list \<times> pdu_store" where
  "store_run n [] s = ([], s)"
| "store_run n (cmd # cmds) s =
     (let (r, s) = store_exec n cmd s; (rs, s) = store_run n cmds s in (r # rs, s))"

fun cmd_asset_ok :: "nat \<Rightarrow> pdu_cmd \<Rightarrow> bool" where
  "cmd_asset_ok n (Read_Pdu a c len) = (a < n)"
| "cmd_asset_ok n _ = True"

lemma length_channel_bytes:
  assumes "pdu_ready invar env w" and "c < HAKO_PDU_CHANNEL_MAX (env_build env)"
  shows "length (channel_bytes env w c) = ch_size (channel (pdu_meta_data w) ! c)"
  using pdu_ready_within [OF assms] by (simp add: channel_bytes_def)

lemma emit_irrelevant [simp]:
  "pdu_ready invar env (emit e w) = pdu_ready invar env w"
  "abs_store env (emit e w) = abs_store env w"
  by (simp_all add: pdu_ready_def abs_store_def channel_bytes_def fun_eq_iff cong: if_cong)

lemma write_pdu_rejects:
  assumes "pdu_ready invar env w"
    and "HAKO_PDU_CHANNEL_MAX (env_build env) \<le> c \<or> ch_size (channel (pdu_meta_data w) ! c) < len"
  shows "\<exists>msg. write_pdu env (int c) data len w = Inr (False, emit (Log ''ERROR'' msg) w)"
  using assms pdu_ready_within(1) [OF assms(1), of c]
  by (cases "HAKO_PDU_CHANNEL_MAX (env_build env) \<le> c") (auto simp: write_pdu_def)

lemma read_pdu_rejects:
  assumes "pdu_ready invar env w"
    and "HAKO_PDU_CHANNEL_MAX (env_build env) \<le> c \<or> ch_size (channel (pdu_meta_data w) ! c) < len"
  shows "\<exists>msg. read_pdu env a (int c) len w = Inr (None, emit (Log ''ERROR'' msg) w)"
    and "\<exists>msg. read_pdu_for_external env (int c) len w = Inr (None, emit (Log ''ERROR'' msg) w)"
  using assms pdu_ready_within(1) [OF assms(1), of c]
  by (cases "HAKO_PDU_CHANNEL_MAX (env_build env) \<le> c";
      auto simp: read_pdu_def read_pdu_for_external_def)+

lemma read_pdu_for_external_eq:
  assumes "pdu_ready invar env w" and "c < HAKO_PDU_CHANNEL_MAX (env_build env)"
    and "len \<le> ch_size (channel (pdu_meta_data w) ! c)"
  shows "read_pdu_for_external env (int c) len w = Inr (Some (take len (channel_bytes env w c)), w)"
proof -
  let ?m = "pdu_meta_data w"
  have ready: "meta_ok (env_build env) ?m" "pdu_idle ?m" "pdu_ptr w"
    using assms(1) by (simp_all add: pdu_ready_def)
  note lens = ready(1) [unfolded meta_ok_def]
  have "c < length (atomic_is_rbusy_for_external ?m)" using lens assms(2) by simp
  then have "\<not> atomic_is_rbusy_for_external ?m ! c"
    using ready(2) by (metis (full_types) nth_mem pdu_idle_def)
  then have rb: "(atomic_is_rbusy_for_external ?m)[c := False] = atomic_is_rbusy_for_external ?m"
    by (metis list_update_id)
  have wb: "\<not> atomic_is_wbusy ?m ! c" by (rule idle_not_wbusy [OF ready(1,2) assms(2)])
  show ?thesis
    using assms ready lens rb wb pdu_ready_within [OF assms(1,2)]
    by (simp add: read_pdu_for_external_def ensure_loaded_def set_pdu_rbusy_status_for_external_def
        copy_out_def is_pdu_wbusy_def upd_meta_def channel_bytes_def slice_def min_def)
qed

lemma write_pdu_nolock_eq:
  assumes "pdu_ready invar env w" and "c < HAKO_PDU_CHANNEL_MAX (env_build env)"
  shows "write_pdu_nolock env (int c) (Some bs) (length bs) w =
    Inr (True, after_poke env c (take (ch_size (channel (pdu_meta_data w) ! c)) bs) w)"
  using assms pdu_ready_within [OF assms]
  by (simp add: write_pdu_nolock_def ensure_loaded_def copy_in_def after_poke_def pdu_ready_def min_def)

lemma read_pdu_nolock_eq:
  assumes "pdu_ready invar env w" and "c < HAKO_PDU_CHANNEL_MAX (env_build env)"
  shows "read_pdu_nolock env (int c) True len w = Inr (Some (take len (channel_bytes env w c)), w)"
  using assms pdu_ready_within [OF assms]
  by (simp add: read_pdu_nolock_def ensure_loaded_def copy_out_def pdu_ready_def channel_bytes_def slice_def
      min_def)

context hako_shared_memory
begin

lemma pdu_exec_refines:
  assumes env: "env_shm env = vt" and ready: "pdu_ready invar env w"
    and asset: "cmd_asset_ok (HAKO_DATA_MAX_ASSET_NUM (env_build env)) cmd"
  shows "\<exists>r w'. pdu_exec env cmd w = Inr (r, w') \<and> pdu_ready invar env w' \<and>
    store_exec (HAKO_PDU_CHANNEL_MAX (env_build env)) cmd (abs_store env w) = (r, abs_store env w')"
proof (cases cmd)
  case (Write_Pdu c bs)
  show ?thesis
  proof (cases "HAKO_PDU_CHANNEL_MAX (env_build env) \<le> c \<or> ch_size (channel (pdu_meta_data w) ! c) < length bs")
    case True
    then show ?thesis
      using Write_Pdu ready write_pdu_rejects [OF ready True, of bs] length_channel_bytes [OF ready, of c]
      by (auto simp: written_def)
  next
    case False
    then show ?thesis
      using Write_Pdu write_pdu_eq [OF ready, of c "length bs" bs] after_write_refines [OF env ready, of c bs]
        length_channel_bytes [OF ready, of c]
      by (auto simp: written_def)
  qed
next
  case (Read_Pdu a c len)
  show ?thesis
  proof (cases "HAKO_PDU_CHANNEL_MAX (env_build env) \<le> c \<or> ch_size (channel (pdu_meta_data w) ! c) < len")
    case True
    then show ?thesis
      using Read_Pdu ready read_pdu_rejects(1) [OF ready True, of "int a"] length_channel_bytes [OF ready, of c]
      by auto
  next
    case False
    then show ?thesis
      using Read_Pdu read_pdu_eq [OF ready, of c a len] after_read_refines [OF ready, of c a]
        length_channel_bytes [OF ready, of c] asset
      by auto
  qed
next
  case (Read_Pdu_External c len)
  show ?thesis
  proof (cases "HAKO_PDU_CHANNEL_MAX (env_build env) \<le> c \<or> ch_size (channel (pdu_meta_data w) ! c) < len")
    case True
    then show ?thesis
      using Read_Pdu_External ready read_pdu_rejects(2) [OF ready True] length_channel_bytes [OF ready, of c]
      by auto
  next
    case False
    then show ?thesis
      using Read_Pdu_External ready read_pdu_for_external_eq [OF ready, of c len]
        length_channel_bytes [OF ready, of c]
      by auto
  qed
next
  case (Write_Pdu_Nolock c bs)
  then show ?thesis
    using ready write_pdu_nolock_eq [OF ready, of c bs] length_channel_bytes [OF ready, of c]
      after_poke_refines [OF env ready, of c "take (ch_size (channel (pdu_meta_data w) ! c)) bs"]
    by (cases "HAKO_PDU_CHANNEL_MAX (env_build env) \<le> c")
      (auto simp: written_def write_pdu_nolock_def)
next
  case (Read_Pdu_Nolock c len)
  then show ?thesis
    using ready read_pdu_nolock_eq [OF ready, of c len]
    by (cases "HAKO_PDU_CHANNEL_MAX (env_build env) \<le> c") (auto simp: read_pdu_nolock_def)
qed

lemma pdu_run_refines:
  assumes env: "env_shm env = vt" and ready: "pdu_ready invar env w"
    and asset: "\<forall>cmd \<in> set cmds. cmd_asset_ok (HAKO_DATA_MAX_ASSET_NUM (env_build env)) cmd"
  shows "\<exists>rs w'. run_all (pdu_exec env) cmds w = Inr (rs, w') \<and> pdu_ready invar env w' \<and>
    store_run (HAKO_PDU_CHANNEL_MAX (env_build env)) cmds (abs_store env w) = (rs, abs_store env w')"
  using ready asset
proof (induction cmds arbitrary: w)
  case Nil
  then show ?case by simp
next
  case (Cons cmd cmds)
  obtain r w1 where 1: "pdu_exec env cmd w = Inr (r, w1)" "pdu_ready invar env w1"
    "store_exec (HAKO_PDU_CHANNEL_MAX (env_build env)) cmd (abs_store env w) = (r, abs_store env w1)"
    using pdu_exec_refines [OF env Cons.prems(1), of cmd] Cons.prems(2) by auto
  obtain rs w2 where "run_all (pdu_exec env) cmds w1 = Inr (rs, w2)" "pdu_ready invar env w2"
    "store_run (HAKO_PDU_CHANNEL_MAX (env_build env)) cmds (abs_store env w1) = (rs, abs_store env w2)"
    using Cons.IH [OF 1(2)] Cons.prems(2) by auto
  with 1 show ?case by simp
qed

end

end
