(* ===== verification/Hako_Asset.thy ===== *)
theory Hako_Asset
  imports Hako_Rpc Hako_Pdu_Store
begin

text \<open>
  The controller that an asset uses, \<open>hako_asset_impl.cpp\<close>: registration, the report of its
  simulation time, the feedback to simulation events, and the access to PDU channels by
  robot name and logical id. Its state is the master data and, for an asset with callbacks,
  the proxy of the rpc component.
\<close>

section \<open>Registration\<close>

definition asset_register ::
  "'m hako_env \<Rightarrow> string \<Rightarrow> AssetCallbackType \<Rightarrow> HakoInternalRpc option \<Rightarrow> 'm HakoMasterData \<Rightarrow>
   bool \<times> HakoInternalRpc option \<times> 'm HakoMasterData" where
  "asset_register env name callbacks rpc w =
    (let (asset_id, w) = alloc_asset env name HakoAsset_Inside (Some callbacks) w
     in if asset_id < 0 then (False, rpc, HAKO_LOG ''ERROR'' ''can not registered: asset: %s'' w)
        else
          let w = HAKO_LOG ''INFO'' ''registered: asset: %s'' w;
              r = new_rpc asset_id;
              r = register_callback HakoAssetEvent_Start (cb_start callbacks) r;
              r = register_callback HakoAssetEvent_Stop (cb_stop callbacks) r;
              r = register_callback HakoAssetEvent_Reset (cb_reset callbacks) r;
              r = rpc_start env w r
          in (True, Some r, w))"

definition asset_register_polling :: "'m hako_env \<Rightarrow> string \<Rightarrow> 'm HakoMasterData \<Rightarrow> bool \<times> 'm HakoMasterData" where
  "asset_register_polling env name w =
    (let (asset_id, w) = alloc_asset env name HakoAsset_Inside None w
     in if asset_id < 0 then (False, HAKO_LOG ''ERROR'' ''can not registered: asset: %s'' w)
        else (True, HAKO_LOG ''INFO'' ''registered: asset: %s'' w))"

definition asset_get_event :: "hako_build \<Rightarrow> string \<Rightarrow> 'm HakoMasterData \<Rightarrow> HakoAssetEventType" where
  "asset_get_event b name w =
    (case get_asset_nolock name w of
       None \<Rightarrow> HakoAssetEvent_Error
     | Some i \<Rightarrow>
         (case get_asset_event_nolock b (ae_id (assets (master_datap w) ! i)) w of
            None \<Rightarrow> HakoAssetEvent_Error
          | Some j \<Rightarrow> ev_event (assets_ev (master_datap w) ! j)))"

definition asset_unregister ::
  "'m hako_env \<Rightarrow> string \<Rightarrow> HakoInternalRpc option \<Rightarrow> 'm HakoMasterData \<Rightarrow>
   (bool \<times> HakoInternalRpc option \<times> 'm HakoMasterData) result" where
  "asset_unregister env name rpc w =
    (let (ret, w) = free_asset name w;
         w = (if ret then HAKO_LOG ''ERROR'' ''can not unregistered: asset: %s'' w
              else HAKO_LOG ''INFO'' ''unregistered: asset: %s'' w)
     in case rpc of
          None \<Rightarrow> Inr (ret, None, w)
        | Some r \<Rightarrow> bindE (rpc_stop env r w) (\<lambda>(r, w). Inr (ret, Some r, w)))"

section \<open>Time\<close>

definition notify_simtime :: "'m hako_env \<Rightarrow> string \<Rightarrow> int \<Rightarrow> 'm HakoMasterData \<Rightarrow> 'm HakoMasterData result" where
  "notify_simtime env name simtime w =
    (case get_asset_nolock name w of
       None \<Rightarrow> Inr w
     | Some i \<Rightarrow>
         (case get_asset_event_nolock (he_build env) (ae_id (assets (master_datap w) ! i)) w of
            None \<Rightarrow> Inl Null_Deref
          | Some j \<Rightarrow> Inr (upd_ev j (\<lambda>e. e\<lparr>ev_ctime := simtime, ev_update_time := he_now env\<rparr>) w)))"

definition get_worldtime :: "'m HakoMasterData \<Rightarrow> int" where
  "get_worldtime w = ts_current (time_usec (master_datap w))"

fun min_from :: "int \<Rightarrow> int list \<Rightarrow> int" where
  "min_from m [] = m"
| "min_from m (t # ts) = min_from (if t < m then t else m) ts"

definition get_min_asset_time :: "'m HakoMasterData \<Rightarrow> int" where
  "get_min_asset_time w =
    (let asset_times = get_asset_times w
     in if asset_times = [] then 0 else min_from INT64_MAX asset_times)"

section \<open>Feedback\<close>

definition feedback ::
  "'m hako_env \<Rightarrow> string \<Rightarrow> bool \<Rightarrow> HakoSimulationStateType \<Rightarrow> (bool, 'm) master_op" where
  "feedback env asset_name isOk exp_state w =
    (let w = md_lock w
     in case get_asset_nolock asset_name w of
          None \<Rightarrow> Inr (False, md_unlock w)
        | Some i \<Rightarrow>
            (case get_asset_event_nolock (he_build env) (ae_id (assets (master_datap w) ! i)) w of
               None \<Rightarrow> Inl Null_Deref
             | Some j \<Rightarrow>
                 let ret = (sim_state (master_datap w) = exp_state)
                 in Inr (ret, md_unlock (upd_ev j (\<lambda>e. e\<lparr>ev_update_time := he_now env,
                        ev_feedback := (if ret then isOk else False),
                        ev_event := HakoAssetEvent_None\<rparr>) w))))"

definition start_feedback :: "'m hako_env \<Rightarrow> string \<Rightarrow> bool \<Rightarrow> (bool, 'm) master_op" where
  "start_feedback env asset_name isOk w =
     feedback env asset_name isOk HakoSim_Runnable (HAKO_LOG ''INFO'' ''start feedbak: asset: %s %d'' w)"

definition stop_feedback :: "'m hako_env \<Rightarrow> string \<Rightarrow> bool \<Rightarrow> (bool, 'm) master_op" where
  "stop_feedback env asset_name isOk w =
     feedback env asset_name isOk HakoSim_Stopping (HAKO_LOG ''INFO'' ''stop feedbak: asset: %s %d'' w)"

definition reset_feedback :: "'m hako_env \<Rightarrow> string \<Rightarrow> bool \<Rightarrow> (bool, 'm) master_op" where
  "reset_feedback env asset_name isOk w =
     feedback env asset_name isOk HakoSim_Resetting (HAKO_LOG ''INFO'' ''reset feedbak: asset: %s %d'' w)"

section \<open>PDU access\<close>

definition create_pdu_channel :: "'m hako_env \<Rightarrow> int \<Rightarrow> nat \<Rightarrow> (bool, 'm) master_op" where
  "create_pdu_channel env channel_id pdu_size w =
     pdu_call (create_channel (he_build env) channel_id pdu_size)
       (HAKO_LOG ''INFO'' ''create pdu channel: channel_id= %d pdu_size=%ld'' w)"

definition create_pdu_lchannel :: "'m hako_env \<Rightarrow> string \<Rightarrow> int \<Rightarrow> nat \<Rightarrow> (bool, 'm) master_op" where
  "create_pdu_lchannel env name channel_id pdu_size w =
     pdu_call (create_lchannel (he_build env) name channel_id pdu_size)
       (HAKO_LOG ''INFO'' ''create pdu lchannel: robo_name=%s channel_id= %d pdu_size=%ld'' w)"

definition asset_get_pdu_channel :: "string \<Rightarrow> int \<Rightarrow> (int, 'm) master_op" where
  "asset_get_pdu_channel name channel_id = pdu_call (get_pdu_channel name channel_id)"

text \<open>
  Access by logical id: look the real id up, then go on with it, or log and return the
  failure value.
\<close>

definition with_channel ::
  "string \<Rightarrow> int \<Rightarrow> (int \<Rightarrow> ('a, 'm) pdu_op) \<Rightarrow> ('m HakoMasterData \<Rightarrow> 'a \<times> 'm HakoMasterData) \<Rightarrow> ('a, 'm) master_op" where
  "with_channel name channel_id f missing w =
     bindE (pdu_call (get_pdu_channel name channel_id) w) (\<lambda>(real_id, w).
       if real_id \<ge> 0 then pdu_call (f real_id) w else Inr (missing w))"

definition asset_is_pdu_dirty :: "string \<Rightarrow> string \<Rightarrow> int \<Rightarrow> (bool, 'm) master_op" where
  "asset_is_pdu_dirty asset_name name channel_id w =
     with_channel name channel_id
       (\<lambda>real_id p. case get_asset_nolock asset_name w of
          None \<Rightarrow> Inl Null_Deref
        | Some i \<Rightarrow> bindE (is_pdu_dirty (ae_id (assets (master_datap w) ! i)) real_id p) (\<lambda>r. Inr (r, p)))
       (\<lambda>w. (False, HAKO_LOG ''ERROR'' ''is_pdu_dirty: can not find pdu channel: robo_name=%s channel_id=%d'' w)) w"

definition asset_write_pdu :: "'m hako_env \<Rightarrow> string \<Rightarrow> string \<Rightarrow> int \<Rightarrow> byte list \<Rightarrow> nat \<Rightarrow> (bool, 'm) master_op" where
  "asset_write_pdu env asset_name name channel_id data len w =
    (case get_asset_nolock asset_name w of
       None \<Rightarrow> Inr (False, w)
     | Some _ \<Rightarrow> with_channel name channel_id (\<lambda>real_id. write_pdu (he_pdu env) real_id data len)
         (\<lambda>w. (False, HAKO_LOG ''ERROR'' ''write_pdu: can not find pdu channel: robo_name=%s channel_id=%d'' w)) w)"

definition asset_write_pdu_for_external ::
  "'m hako_env \<Rightarrow> string \<Rightarrow> int \<Rightarrow> byte list \<Rightarrow> nat \<Rightarrow> (bool, 'm) master_op" where
  "asset_write_pdu_for_external env name channel_id data len =
     with_channel name channel_id (\<lambda>real_id. write_pdu (he_pdu env) real_id data len)
       (\<lambda>w. (False, HAKO_LOG ''ERROR'' ''write_pdu_for_external: can not find pdu channel: robo_name=%s channel_id=%d'' w))"

definition asset_read_pdu ::
  "'m hako_env \<Rightarrow> string \<Rightarrow> string \<Rightarrow> int \<Rightarrow> nat \<Rightarrow> (byte list option, 'm) master_op" where
  "asset_read_pdu env asset_name name channel_id len w =
    (case get_asset_nolock asset_name w of
       None \<Rightarrow> Inr (None, w)
     | Some i \<Rightarrow> with_channel name channel_id
         (\<lambda>real_id. read_pdu (he_pdu env) (ae_id (assets (master_datap w) ! i)) real_id len)
         (\<lambda>w. (None, HAKO_LOG ''ERROR'' ''read_pdu: can not find pdu channel: robo_name=%s channel_id=%d'' w)) w)"

definition asset_read_pdu_for_external ::
  "'m hako_env \<Rightarrow> string \<Rightarrow> int \<Rightarrow> nat \<Rightarrow> (byte list option, 'm) master_op" where
  "asset_read_pdu_for_external env name channel_id len =
     with_channel name channel_id (\<lambda>real_id. read_pdu_for_external (he_pdu env) real_id len)
       (\<lambda>w. (None, HAKO_LOG ''ERROR'' ''read_pdu_for_external: can not find pdu channel: robo_name=%s channel_id=%d'' w))"

definition asset_write_pdu_nolock ::
  "'m hako_env \<Rightarrow> string \<Rightarrow> int \<Rightarrow> byte list option \<Rightarrow> nat \<Rightarrow> (bool, 'm) master_op" where
  "asset_write_pdu_nolock env name channel_id data len =
     with_channel name channel_id (\<lambda>real_id. write_pdu_nolock (he_pdu env) real_id data len) (\<lambda>w. (False, w))"

definition asset_read_pdu_nolock ::
  "'m hako_env \<Rightarrow> string \<Rightarrow> int \<Rightarrow> bool \<Rightarrow> nat \<Rightarrow> (byte list option, 'm) master_op" where
  "asset_read_pdu_nolock env name channel_id buf_ok len =
     with_channel name channel_id (\<lambda>real_id. read_pdu_nolock (he_pdu env) real_id buf_ok len) (\<lambda>w. (None, w))"

definition asset_notify_read_pdu_done :: "'m hako_env \<Rightarrow> string \<Rightarrow> 'm HakoMasterData \<Rightarrow> 'm HakoMasterData" where
  "asset_notify_read_pdu_done env asset_name w =
    (case get_asset_nolock asset_name w of
       None \<Rightarrow> w
     | Some i \<Rightarrow> w\<lparr>pdu_datap := notify_read_pdu_done (he_build env) (ae_id (assets (master_datap w) ! i)) (pdu_datap w)\<rparr>)"

definition asset_notify_write_pdu_done :: "'m hako_env \<Rightarrow> string \<Rightarrow> 'm HakoMasterData \<Rightarrow> 'm HakoMasterData result" where
  "asset_notify_write_pdu_done env asset_name w =
    (case get_asset_nolock asset_name w of
       None \<Rightarrow> Inr w
     | Some i \<Rightarrow> bindE (notify_write_pdu_done (he_build env) (ae_id (assets (master_datap w) ! i)) (pdu_datap w))
                  (\<lambda>p. Inr (w\<lparr>pdu_datap := p\<rparr>)))"

definition asset_is_pdu_sync_mode :: "'m hako_env \<Rightarrow> string \<Rightarrow> 'm HakoMasterData \<Rightarrow> bool result" where
  "asset_is_pdu_sync_mode env asset_name w =
    (case get_asset_nolock asset_name w of
       None \<Rightarrow> Inr False
     | Some i \<Rightarrow> is_pdu_sync_mode (he_build env) (ae_id (assets (master_datap w) ! i)) (pdu_datap w))"

definition asset_is_simulation_mode :: "'m HakoMasterData \<Rightarrow> bool" where
  "asset_is_simulation_mode w = is_simulation_mode (pdu_datap w)"

definition asset_is_pdu_created :: "'m hako_env \<Rightarrow> (bool, 'm) master_op" where
  "asset_is_pdu_created env = pdu_call (is_pdu_created (he_pdu env))"

section \<open>The callbacks of the sample asset\<close>

text \<open>
  \<open>reset_callback\<close>, \<open>start_callback\<close> and \<open>stop_callback\<close> of
  \<open>sample/base-procs/hako-asset\<close>, numbered 0, 1, 2: each acknowledges the event. Other
  numbers are not functions of that program.
\<close>

definition sample_call :: "'m hako_env \<Rightarrow> string \<Rightarrow> nat \<Rightarrow> 'm HakoMasterData \<Rightarrow> 'm HakoMasterData result" where
  "sample_call env asset_name f w =
     bindE (if f = 0 then reset_feedback env asset_name True w
            else if f = 1 then start_feedback env asset_name True w
            else if f = 2 then stop_feedback env asset_name True w
            else Inl Null_Deref) (\<lambda>(_, w). Inr w)"

section \<open>Lemmas\<close>

lemma lookup_slot:
  assumes "table_ok b (master_datap w)" and "get_asset_nolock name w = Some i"
  shows "i < length (assets (master_datap w))" and "i < length (assets_ev (master_datap w))"
    and "entry_used (assets (master_datap w) ! i)" and "ae_id (assets (master_datap w) ! i) = int i"
    and "get_asset_event_nolock b (int i) w = Some i"
  using assms
  by (auto simp: get_asset_nolock_eq first_index_Some entry_matches_def table_ok_def get_asset_event_nolock_def
      get_asset_def in_use_iff)

text \<open>The lookups see the table only.\<close>

lemma get_asset_nolock_cong:
  "assets (master_datap w') = assets (master_datap w) \<Longrightarrow> get_asset_nolock name w' = get_asset_nolock name w"
  by (simp add: get_asset_nolock_def)

lemma get_asset_event_cong:
  "assets (master_datap w') = assets (master_datap w) \<Longrightarrow>
   get_asset_event_nolock b k w' = get_asset_event_nolock b k w"
  by (simp add: get_asset_event_nolock_def get_asset_def in_use_def)

lemma lookups_lock [simp]:
  "get_asset_nolock name (md_lock w) = get_asset_nolock name w"
  "get_asset_event_nolock b k (md_lock w) = get_asset_event_nolock b k w"
  "get_asset_nolock name (effect e w) = get_asset_nolock name w"
  "get_asset_event_nolock b k (effect e w) = get_asset_event_nolock b k w"
  by (rule get_asset_nolock_cong get_asset_event_cong, simp)+

definition feedback_event :: "int \<Rightarrow> bool \<Rightarrow> bool \<Rightarrow> HakoAssetEntryEventType \<Rightarrow> HakoAssetEntryEventType" where
  "feedback_event now ok isOk e =
     e\<lparr>ev_update_time := now, ev_feedback := (if ok then isOk else False), ev_event := HakoAssetEvent_None\<rparr>"

lemma feedback_eq:
  assumes "table_ok (he_build env) (master_datap w)"
  shows "feedback env name isOk exp_state w =
    (case get_asset_nolock name w of
       None \<Rightarrow> Inr (False, md_unlock (md_lock w))
     | Some i \<Rightarrow> Inr (sim_state (master_datap w) = exp_state,
         md_unlock (upd_ev i (feedback_event (he_now env) (sim_state (master_datap w) = exp_state) isOk) (md_lock w))))"
proof (cases "get_asset_nolock name w")
  case None
  then show ?thesis by (simp add: feedback_def)
next
  case (Some i)
  then show ?thesis
    using lookup_slot [OF assms Some]
    by (simp add: feedback_def Let_def feedback_event_def upd_ev_def cong: if_cong)
qed

lemma feedback_returns:
  assumes "table_ok (he_build env) (master_datap w)"
  shows "\<exists>r w'. feedback env name isOk exp_state w = Inr (r, w') \<and> undisturbed (master_datap w) (master_datap w')"
  using feedback_eq [OF assms, of name isOk exp_state]
  by (cases "get_asset_nolock name w") (auto simp: undisturbed_def)

lemmas feedback_defs = start_feedback_def stop_feedback_def reset_feedback_def

interpretation sample: hako_callbacks "env\<lparr>he_call := sample_call env name\<rparr>" "\<lambda>f. f \<le> 2"
proof (unfold_locales, goal_cases)
  case (1 f w)
  have fb: "\<exists>r w'. feedback env name True st (effect e w) = Inr (r, w') \<and> undisturbed (master_datap w) (master_datap w')"
    for e st using feedback_returns [of env "effect e w" name True st] 1(2) by simp
  define st where "st = (if f = 0 then HakoSim_Resetting else if f = 1 then HakoSim_Runnable else HakoSim_Stopping)"
  define e where "e = Log ''INFO'' (if f = 0 then ''reset feedbak: asset: %s %d''
      else if f = 1 then ''start feedbak: asset: %s %d'' else ''stop feedbak: asset: %s %d'')"
  obtain r w' where "feedback env name True st (effect e w) = Inr (r, w')" "undisturbed (master_datap w) (master_datap w')"
    using fb [of st e] by blast
  moreover have "sample_call env name f w = bindE (feedback env name True st (effect e w)) (\<lambda>(_, w). Inr w)"
    using 1(1) by (auto simp: sample_call_def feedback_defs st_def e_def)
  ultimately show ?case by simp
qed

end
