(* ===== verification/Hako_Simevent.thy ===== *)
theory Hako_Simevent
  imports Hako_Asset
begin

text \<open>
  The controller of simulation events, \<open>hako_simevent_impl.cpp\<close> and
  \<open>hako_simevent_states.hpp\<close>: the commands start, stop and reset, the publication of their
  events to the assets, and the handling of feedback and timeouts that drives the state of
  the simulation on.
\<close>

section \<open>Events\<close>

text \<open>The loop of \<open>publish_event_nolock\<close> over the slots.\<close>

fun publish_from :: "'m hako_env \<Rightarrow> HakoAssetEventType \<Rightarrow> nat list \<Rightarrow> 'm HakoMasterData \<Rightarrow> 'm HakoMasterData result" where
  "publish_from env event [] w = Inr w"
| "publish_from env event (i # is) w =
    (case get_asset (he_build env) (int i) w of
       None \<Rightarrow> publish_from env event is w
     | Some slot \<Rightarrow>
         bindE (case event of
                  HakoAssetEvent_Reset \<Rightarrow>
                    if ev_event (assets_ev (master_datap w) ! slot) = HakoAssetEvent_Error
                    then Inr (upd_ev slot (\<lambda>e. e\<lparr>ev_feedback := True\<rparr>) w)
                    else notify env (int i) event w
                | HakoAssetEvent_Start \<Rightarrow> notify env (int i) event w
                | HakoAssetEvent_Stop \<Rightarrow> notify env (int i) event w
                | HakoAssetEvent_Error \<Rightarrow> Inr (upd_ev slot (\<lambda>e. e\<lparr>ev_event := event, ev_feedback := True\<rparr>) w)
                | _ \<Rightarrow> Inr w) (publish_from env event is))"

definition publish_event_nolock :: "'m hako_env \<Rightarrow> HakoAssetEventType \<Rightarrow> 'm HakoMasterData \<Rightarrow> 'm HakoMasterData result" where
  "publish_event_nolock env event = publish_from env event [0..<HAKO_DATA_MAX_ASSET_NUM (he_build env)]"

definition clear_feedback :: "HakoMasterDataType \<Rightarrow> HakoMasterDataType" where
  "clear_feedback d =
     d\<lparr>assets_ev := map (\<lambda>i. if in_use d i then (assets_ev d ! i)\<lparr>ev_feedback := False\<rparr> else assets_ev d ! i)
         [0..<length (assets_ev d)]\<rparr>"

definition trigger_event ::
  "'m hako_env \<Rightarrow> HakoSimulationStateType \<Rightarrow> HakoSimulationStateType \<Rightarrow> HakoAssetEventType \<Rightarrow> (bool, 'm) master_op" where
  "trigger_event env curr_state next_state event w =
    (let w = md_lock w;
         state = sim_state (master_datap w);
         (ret, w) = (if state = curr_state
                     then (True, upd_md clear_feedback (upd_md (\<lambda>d. d\<lparr>sim_state := next_state\<rparr>) w))
                     else if next_state = HakoSim_Error
                     then (True, upd_md (\<lambda>d. d\<lparr>sim_state := next_state\<rparr>) w)
                     else (False, w));
         w = md_unlock w
     in if ret then bindE (publish_event_nolock env event w) (\<lambda>w. Inr (True, w)) else Inr (False, w))"

definition sim_start :: "'m hako_env \<Rightarrow> (bool, 'm) master_op" where
  "sim_start env w =
     trigger_event env HakoSim_Stopped HakoSim_Runnable HakoAssetEvent_Start (HAKO_LOG ''INFO'' ''Event: Start'' w)"

definition sim_stop :: "'m hako_env \<Rightarrow> (bool, 'm) master_op" where
  "sim_stop env w =
     trigger_event env HakoSim_Running HakoSim_Stopping HakoAssetEvent_Stop (HAKO_LOG ''INFO'' ''Event: Stop'' w)"

definition sim_reset :: "'m hako_env \<Rightarrow> (bool, 'm) master_op" where
  "sim_reset env w =
    (let w = HAKO_LOG ''INFO'' ''Event: Reset'' w;
         state = sim_state (master_datap w)
     in if state = HakoSim_Stopped
        then trigger_event env HakoSim_Stopped HakoSim_Resetting HakoAssetEvent_Reset w
        else if state = HakoSim_Error
        then trigger_event env HakoSim_Error HakoSim_Stopped HakoAssetEvent_Reset w
        else Inr (False, w))"

definition sim_assets :: "'m HakoMasterData \<Rightarrow> string list \<times> 'm HakoMasterData" where
  "sim_assets w = get_asset_names w"

text \<open>\<open>state\<close> and \<open>get_pdu_channel\<close>.\<close>

definition simulation_state :: "'m HakoMasterData \<Rightarrow> HakoSimulationStateType" where
  "simulation_state w = sim_state (master_datap w)"

definition sim_get_pdu_channel :: "string \<Rightarrow> int \<Rightarrow> (int, 'm) master_op" where
  "sim_get_pdu_channel asset_name channel_id = pdu_call (get_pdu_channel asset_name channel_id)"

definition sim_write_pdu :: "'m hako_env \<Rightarrow> int \<Rightarrow> byte list option \<Rightarrow> nat \<Rightarrow> (bool, 'm) master_op" where
  "sim_write_pdu env channel_id data len = pdu_call (write_pdu_nolock (he_pdu env) channel_id data len)"

definition sim_read_pdu :: "'m hako_env \<Rightarrow> int \<Rightarrow> bool \<Rightarrow> nat \<Rightarrow> (byte list option, 'm) master_op" where
  "sim_read_pdu env channel_id buf_ok len = pdu_call (read_pdu_nolock (he_pdu env) channel_id buf_ok len)"

definition sim_pdu_size :: "'m hako_env \<Rightarrow> int \<Rightarrow> 'm HakoMasterData \<Rightarrow> nat result" where
  "sim_pdu_size env channel_id w = pdu_size_nolock (he_build env) channel_id (pdu_datap w)"

section \<open>Feedback and timeouts\<close>

definition sim_event_needs_handling :: "HakoSimulationStateType \<Rightarrow> bool" where
  "sim_event_needs_handling state =
    (case state of HakoSim_Runnable \<Rightarrow> True | HakoSim_Stopping \<Rightarrow> True | HakoSim_Resetting \<Rightarrow> True | _ \<Rightarrow> False)"

definition do_event_handling_timeout_nolock :: "'m hako_env \<Rightarrow> 'm HakoMasterData \<Rightarrow> nat list" where
  "do_event_handling_timeout_nolock env w =
     filter (\<lambda>i. get_asset_event_nolock (he_build env) (int i) w \<noteq> None \<and> is_asset_timeout_nolock env (int i) w)
       [0..<HAKO_DATA_MAX_ASSET_NUM (he_build env)]"

definition do_event_handling_nolock :: "'m hako_env \<Rightarrow> 'm HakoMasterData \<Rightarrow> nat list \<times> 'm HakoMasterData" where
  "do_event_handling_nolock env w =
    (case sim_state (master_datap w) of
       HakoSim_Runnable \<Rightarrow>
         if is_all_feedback_nolock w then ([], upd_md (\<lambda>d. d\<lparr>sim_state := HakoSim_Running\<rparr>) w)
         else (do_event_handling_timeout_nolock env w, w)
     | HakoSim_Stopping \<Rightarrow>
         if is_all_feedback_nolock w then ([], upd_md (\<lambda>d. d\<lparr>sim_state := HakoSim_Stopped\<rparr>) w)
         else (do_event_handling_timeout_nolock env w, w)
     | HakoSim_Resetting \<Rightarrow>
         if is_all_feedback_nolock w then ([], upd_md (\<lambda>d. d\<lparr>sim_state := HakoSim_Stopped\<rparr>) w)
         else (do_event_handling_timeout_nolock env w, w)
     | _ \<Rightarrow> ([], w))"

text \<open>The last loop of \<open>do_event_handling\<close>: the assets that timed out are unregistered.\<close>

fun unregister_from :: "'m hako_env \<Rightarrow> nat list \<Rightarrow> 'm HakoMasterData \<Rightarrow> 'm HakoMasterData result" where
  "unregister_from env [] w = Inr w"
| "unregister_from env (i # is) w =
    (case get_asset (he_build env) (int i) w of
       None \<Rightarrow> Inl Null_Deref
     | Some slot \<Rightarrow>
         bindE (asset_unregister env (hako_fixed2string (ae_name (assets (master_datap w) ! slot))) None w)
           (\<lambda>(_, _, w). unregister_from env is w))"

text \<open>The results are \<open>is_changed\<close> and the two reference parameters.\<close>

definition do_event_handling ::
  "'m hako_env \<Rightarrow> (bool \<times> HakoSimulationStateType \<times> HakoSimulationStateType, 'm) master_op" where
  "do_event_handling env w =
    (let peek = sim_state (master_datap w)
     in if \<not> sim_event_needs_handling peek then Inr ((False, peek, peek), w)
        else
          let w = md_lock w;
              prev = sim_state (master_datap w);
              (error_assets, w) = do_event_handling_nolock env w;
              next = sim_state (master_datap w);
              w = md_unlock w
          in bindE (if error_assets \<noteq> []
                    then bindE (trigger_event env HakoSim_Any HakoSim_Error HakoAssetEvent_Error w) (\<lambda>(_, w). Inr w)
                    else Inr w) (\<lambda>w.
             bindE (unregister_from env error_assets w) (\<lambda>w.
               Inr ((prev \<noteq> next, prev, next), w))))"

text \<open>The variant that drops the results.\<close>

definition do_event_handling_only :: "'m hako_env \<Rightarrow> 'm HakoMasterData \<Rightarrow> 'm HakoMasterData result" where
  "do_event_handling_only env w = bindE (do_event_handling env w) (\<lambda>(_, w). Inr w)"

section \<open>Publication returns\<close>

text \<open>The callbacks of an asset that has any are all functions that the interface covers.\<close>

definition callbacks_ok :: "(nat \<Rightarrow> bool) \<Rightarrow> HakoMasterDataType \<Rightarrow> bool" where
  "callbacks_ok known d \<longleftrightarrow>
     (\<forall>a \<in> set (assets d). entry_used a \<longrightarrow> cb_start (ae_callback a) \<noteq> None \<longrightarrow>
        (\<exists>f g h. ae_callback a = \<lparr>cb_start = Some f, cb_stop = Some g, cb_reset = Some h\<rparr> \<and> known f \<and> known g \<and> known h))"

lemma callbacks_ok_undisturbed: "undisturbed d d' \<Longrightarrow> callbacks_ok known d' = callbacks_ok known d"
  by (simp add: undisturbed_def callbacks_ok_def)

lemma get_asset_Some:
  "table_ok b (master_datap w) \<Longrightarrow>
   get_asset b (int i) w = Some k \<longleftrightarrow> k = i \<and> i < length (assets (master_datap w)) \<and> entry_used (assets (master_datap w) ! i)"
  by (auto simp: get_asset_def in_use_iff table_ok_def)

lemma get_asset_cong:
  "assets (master_datap w') = assets (master_datap w) \<Longrightarrow> get_asset b k w' = get_asset b k w"
  by (simp add: get_asset_def in_use_def)

context hako_callbacks
begin

lemma call_ptr_returns:
  assumes "known f" and "table_ok (he_build env) (master_datap w)"
  shows "\<exists>w'. call_ptr env (Some f) w = Inr w' \<and> undisturbed (master_datap w) (master_datap w')"
  using call_returns [OF assms(1), of "effect (Call f) w"] assms(2) by (simp add: call_ptr_def)

lemma notify_returns:
  assumes ok: "table_ok (he_build env) (master_datap w)" and cb: "callbacks_ok known (master_datap w)"
    and i: "i < length (assets (master_datap w))" "entry_used (assets (master_datap w) ! i)"
  shows "\<exists>w'. notify env (int i) event w = Inr w' \<and> undisturbed (master_datap w) (master_datap w')"
proof -
  let ?w = "upd_ev i (\<lambda>e. e\<lparr>ev_event := event, ev_feedback := False\<rparr>) w"
  let ?cb = "ae_callback (assets (master_datap w) ! i)"
  have slot: "get_asset_event_nolock (he_build env) (int i) w = Some i"
    using get_asset_Some [OF ok, of i i] i by (simp add: get_asset_event_nolock_def)
  have ok': "table_ok (he_build env) (master_datap (effect e ?w))" for e
    using ok by (simp add: undisturbed_table [OF undisturbed_ev])
  have und: "undisturbed (master_datap w) (master_datap w')"
    if "undisturbed (master_datap (effect e ?w)) (master_datap w')" for e w'
    using that by (simp add: undisturbed_def)
  show ?thesis
  proof (cases "cb_start ?cb = None \<or> ev_pid (assets_ev (master_datap ?w) ! i) \<noteq> he_pid env")
    case True
    then show ?thesis using slot by (auto simp: notify_def Let_def)
  next
    case False
    have "assets (master_datap w) ! i \<in> set (assets (master_datap w))" using i(1) by simp
    then obtain f g h where fs: "?cb = \<lparr>cb_start = Some f, cb_stop = Some g, cb_reset = Some h\<rparr>"
      "known f" "known g" "known h"
      using False i(2) cb by (auto simp: callbacks_ok_def)
    have run: "\<exists>w'. call_ptr env (Some k) (effect e ?w) = Inr w' \<and> undisturbed (master_datap w) (master_datap w')"
      if "known k" for k e
      using call_ptr_returns [OF that ok'] und by blast
    show ?thesis
      using False slot fs run [OF fs(2)] run [OF fs(3)] run [OF fs(4)]
      by (cases event) (simp_all add: notify_def Let_def)
  qed
qed

lemma publish_from_returns:
  assumes "table_ok (he_build env) (master_datap w)" and "callbacks_ok known (master_datap w)"
  shows "\<exists>w'. publish_from env event is w = Inr w' \<and> undisturbed (master_datap w) (master_datap w')"
  using assms
proof (induction "is" arbitrary: w)
  case Nil
  then show ?case by simp
next
  case (Cons i "is")
  show ?case
  proof (cases "get_asset (he_build env) (int i) w")
    case None
    then show ?thesis using Cons by simp
  next
    case (Some slot)
    then have i: "slot = i" "i < length (assets (master_datap w))" "entry_used (assets (master_datap w) ! i)"
      using get_asset_Some [OF Cons.prems(1), of i slot] by simp_all
    note nt = notify_returns [OF Cons.prems i(2,3), of event]
    let ?step = "case event of
                  HakoAssetEvent_Reset \<Rightarrow>
                    if ev_event (assets_ev (master_datap w) ! slot) = HakoAssetEvent_Error
                    then Inr (upd_ev slot (\<lambda>e. e\<lparr>ev_feedback := True\<rparr>) w)
                    else notify env (int i) event w
                | HakoAssetEvent_Start \<Rightarrow> notify env (int i) event w
                | HakoAssetEvent_Stop \<Rightarrow> notify env (int i) event w
                | HakoAssetEvent_Error \<Rightarrow> Inr (upd_ev slot (\<lambda>e. e\<lparr>ev_event := event, ev_feedback := True\<rparr>) w)
                | _ \<Rightarrow> Inr w"
    have "\<exists>w1. ?step = Inr w1 \<and> undisturbed (master_datap w) (master_datap w1)"
      using nt undisturbed_ev by (cases event) auto
    then obtain w1 where w1: "?step = Inr w1" "undisturbed (master_datap w) (master_datap w1)" by blast
    then obtain w2 where "publish_from env event is w1 = Inr w2" "undisturbed (master_datap w1) (master_datap w2)"
      using Cons.IH [of w1] Cons.prems undisturbed_table [OF w1(2)] callbacks_ok_undisturbed [OF w1(2)] by auto
    then show ?thesis using Some w1 undisturbed_trans by (auto simp del: upd_entry_simps)
  qed
qed

lemma trigger_event_returns:
  assumes "table_ok (he_build env) (master_datap w)" and "callbacks_ok known (master_datap w)"
    and "fires = (sim_state (master_datap w) = cur \<or> next = HakoSim_Error)"
  shows "\<exists>w'. trigger_event env cur next event w = Inr (fires, w') \<and>
    undisturbed ((master_datap w)\<lparr>sim_state := (if fires then next else sim_state (master_datap w))\<rparr>) (master_datap w')"
proof (cases fires)
  case False
  then show ?thesis using assms(3) by (auto simp: trigger_event_def Let_def)
next
  case True
  define w1 where "w1 = md_unlock (if sim_state (master_datap w) = cur
      then upd_md clear_feedback (upd_md (\<lambda>d. d\<lparr>sim_state := next\<rparr>) (md_lock w))
      else upd_md (\<lambda>d. d\<lparr>sim_state := next\<rparr>) (md_lock w))"
  have und: "undisturbed ((master_datap w)\<lparr>sim_state := next\<rparr>) (master_datap w1)"
    by (simp add: w1_def undisturbed_def clear_feedback_def)
  then have "table_ok (he_build env) (master_datap w1)" "callbacks_ok known (master_datap w1)"
    using undisturbed_table [OF und] callbacks_ok_undisturbed [OF und] assms(1,2)
    by (simp_all add: callbacks_ok_def)
  then obtain w2 where "publish_event_nolock env event w1 = Inr w2" "undisturbed (master_datap w1) (master_datap w2)"
    using publish_from_returns [of w1 event] by (auto simp: publish_event_nolock_def)
  moreover have "trigger_event env cur next event w = bindE (publish_event_nolock env event w1) (\<lambda>w. Inr (True, w))"
    using True assms(3) by (auto simp: trigger_event_def Let_def w1_def)
  ultimately show ?thesis using und True undisturbed_trans by auto
qed

end

section \<open>The commands\<close>

datatype sim_cmd = Cmd_Start | Cmd_Stop | Cmd_Reset

fun sim_exec :: "'m hako_env \<Rightarrow> sim_cmd \<Rightarrow> (bool, 'm) master_op" where
  "sim_exec env Cmd_Start = sim_start env"
| "sim_exec env Cmd_Stop = sim_stop env"
| "sim_exec env Cmd_Reset = sim_reset env"

text \<open>The specification of the commands: the state a command leads to, if it is accepted.\<close>

fun cmd_next :: "sim_cmd \<Rightarrow> HakoSimulationStateType \<Rightarrow> HakoSimulationStateType option" where
  "cmd_next Cmd_Start HakoSim_Stopped = Some HakoSim_Runnable"
| "cmd_next Cmd_Stop HakoSim_Running = Some HakoSim_Stopping"
| "cmd_next Cmd_Reset HakoSim_Stopped = Some HakoSim_Resetting"
| "cmd_next Cmd_Reset HakoSim_Error = Some HakoSim_Stopped"
| "cmd_next _ _ = None"

context hako_callbacks
begin

lemma sim_exec_next:
  assumes "table_ok (he_build env) (master_datap w)" and "callbacks_ok known (master_datap w)"
  shows "\<exists>w'. sim_exec env cmd w = Inr (cmd_next cmd (sim_state (master_datap w)) \<noteq> None, w') \<and>
    undisturbed ((master_datap w)\<lparr>sim_state := (case cmd_next cmd (sim_state (master_datap w)) of
        None \<Rightarrow> sim_state (master_datap w) | Some st \<Rightarrow> st)\<rparr>) (master_datap w')"
proof (cases cmd)
  case Cmd_Start
  have "cmd_next Cmd_Start st = (if st = HakoSim_Stopped then Some HakoSim_Runnable else None)" for st
    by (cases st) simp_all
  then show ?thesis
    using trigger_event_returns [of "HAKO_LOG ''INFO'' ''Event: Start'' w" _ HakoSim_Stopped HakoSim_Runnable
        HakoAssetEvent_Start] assms Cmd_Start
    by (simp add: sim_start_def split: if_splits)
next
  case Cmd_Stop
  have "cmd_next Cmd_Stop st = (if st = HakoSim_Running then Some HakoSim_Stopping else None)" for st
    by (cases st) simp_all
  then show ?thesis
    using trigger_event_returns [of "HAKO_LOG ''INFO'' ''Event: Stop'' w" _ HakoSim_Running HakoSim_Stopping
        HakoAssetEvent_Stop] assms Cmd_Stop
    by (simp add: sim_stop_def split: if_splits)
next
  case Cmd_Reset
  have "cmd_next Cmd_Reset st = (if st = HakoSim_Stopped then Some HakoSim_Resetting
      else if st = HakoSim_Error then Some HakoSim_Stopped else None)" for st
    by (cases st) simp_all
  then show ?thesis
    using trigger_event_returns [of "HAKO_LOG ''INFO'' ''Event: Reset'' w" _ HakoSim_Stopped HakoSim_Resetting
        HakoAssetEvent_Reset]
      trigger_event_returns [of "HAKO_LOG ''INFO'' ''Event: Reset'' w" _ HakoSim_Error HakoSim_Stopped
        HakoAssetEvent_Reset] assms Cmd_Reset
    by (simp add: sim_reset_def Let_def split: if_splits)
qed

end

section \<open>Commands that return\<close>

text \<open>
  An asset may also register with some of its callbacks null. A command that then calls a
  null pointer faults; one that returns has changed no more than event records and the
  state, if the callbacks that are not null are functions that the interface covers.
\<close>

definition callbacks_known :: "(nat \<Rightarrow> bool) \<Rightarrow> HakoMasterDataType \<Rightarrow> bool" where
  "callbacks_known known d \<longleftrightarrow>
     (\<forall>a \<in> set (assets d). entry_used a \<longrightarrow>
        (\<forall>f. Some f \<in> {cb_start (ae_callback a), cb_stop (ae_callback a), cb_reset (ae_callback a)} \<longrightarrow> known f))"

lemma callbacks_known_undisturbed: "undisturbed d d' \<Longrightarrow> callbacks_known known d' = callbacks_known known d"
  by (simp add: undisturbed_def callbacks_known_def)

context hako_callbacks
begin

lemma call_ptr_keeps:
  assumes "call_ptr env f w = Inr w'" and "\<forall>g. f = Some g \<longrightarrow> known g" and "table_ok (he_build env) (master_datap w)"
  shows "undisturbed (master_datap w) (master_datap w')"
proof (cases f)
  case (Some g)
  then show ?thesis using assms(1,2) call_ptr_returns [OF _ assms(3), of g] by auto
qed (use assms(1) in \<open>simp add: call_ptr_def\<close>)

lemma notify_keeps:
  assumes ok: "table_ok (he_build env) (master_datap w)" and cb: "callbacks_known known (master_datap w)"
    and i: "i < length (assets (master_datap w))" "entry_used (assets (master_datap w) ! i)"
    and run: "notify env (int i) event w = Inr w'"
  shows "undisturbed (master_datap w) (master_datap w')"
proof -
  let ?w = "upd_ev i (\<lambda>e. e\<lparr>ev_event := event, ev_feedback := False\<rparr>) w"
  let ?cb = "ae_callback (assets (master_datap w) ! i)"
  have slot: "get_asset_event_nolock (he_build env) (int i) w = Some i"
    using get_asset_Some [OF ok, of i i] i by (simp add: get_asset_event_nolock_def)
  have ok': "table_ok (he_build env) (master_datap (effect e ?w))" for e
    using ok by (simp add: undisturbed_table [OF undisturbed_ev])
  have known: "\<forall>g. f = Some g \<longrightarrow> known g" if "f \<in> {cb_start ?cb, cb_stop ?cb, cb_reset ?cb}" for f
    using cb i that nth_mem [OF i(1)] unfolding callbacks_known_def by blast
  have called: "undisturbed (master_datap w) (master_datap w')"
    if "call_ptr env f (effect e ?w) = Inr w'" "f \<in> {cb_start ?cb, cb_stop ?cb, cb_reset ?cb}" for f e
    using call_ptr_keeps [OF that(1) known [OF that(2)] ok'] by (simp add: undisturbed_def)
  show ?thesis
    using run slot called undisturbed_ev [of w i "\<lambda>e. e\<lparr>ev_event := event, ev_feedback := False\<rparr>"]
    by (cases event) (auto simp: notify_def Let_def split: if_splits)
qed

lemma publish_from_keeps:
  assumes "publish_from env event is w = Inr w'" and "table_ok (he_build env) (master_datap w)"
    and "callbacks_known known (master_datap w)"
  shows "undisturbed (master_datap w) (master_datap w')"
  using assms
proof (induction "is" arbitrary: w)
  case (Cons i "is")
  show ?case
  proof (cases "get_asset (he_build env) (int i) w")
    case None
    then show ?thesis using Cons by simp
  next
    case (Some slot)
    then have i: "slot = i" "i < length (assets (master_datap w))" "entry_used (assets (master_datap w) ! i)"
      using get_asset_Some [OF Cons.prems(2), of i slot] by simp_all
    let ?step = "case event of
                  HakoAssetEvent_Reset \<Rightarrow>
                    if ev_event (assets_ev (master_datap w) ! slot) = HakoAssetEvent_Error
                    then Inr (upd_ev slot (\<lambda>e. e\<lparr>ev_feedback := True\<rparr>) w)
                    else notify env (int i) event w
                | HakoAssetEvent_Start \<Rightarrow> notify env (int i) event w
                | HakoAssetEvent_Stop \<Rightarrow> notify env (int i) event w
                | HakoAssetEvent_Error \<Rightarrow> Inr (upd_ev slot (\<lambda>e. e\<lparr>ev_event := event, ev_feedback := True\<rparr>) w)
                | _ \<Rightarrow> Inr w"
    from Cons.prems(1) Some obtain w1 where w1: "?step = Inr w1" "publish_from env event is w1 = Inr w'"
      by (auto simp: bindE_eq_Inr_iff)
    have "undisturbed (master_datap w) (master_datap w1)"
      using w1(1) notify_keeps [OF Cons.prems(2,3) i(2,3)] undisturbed_ev
      by (cases event) (auto split: if_splits simp del: upd_entry_simps)
    moreover from this have "undisturbed (master_datap w1) (master_datap w')"
      using Cons.IH [OF w1(2)] Cons.prems(2,3) undisturbed_table callbacks_known_undisturbed by blast
    ultimately show ?thesis by (rule undisturbed_trans)
  qed
qed simp

lemma trigger_event_keeps:
  assumes run: "trigger_event env cur next event w = Inr (r, w')"
    and "table_ok (he_build env) (master_datap w)" and "callbacks_known known (master_datap w)"
    and "fires = (sim_state (master_datap w) = cur \<or> next = HakoSim_Error)"
  shows "undisturbed ((master_datap w)\<lparr>sim_state := (if fires then next else sim_state (master_datap w))\<rparr>) (master_datap w')"
proof (cases fires)
  case False
  then show ?thesis using assms by (auto simp: trigger_event_def Let_def)
next
  case True
  define w1 where "w1 = md_unlock (if sim_state (master_datap w) = cur
      then upd_md clear_feedback (upd_md (\<lambda>d. d\<lparr>sim_state := next\<rparr>) (md_lock w))
      else upd_md (\<lambda>d. d\<lparr>sim_state := next\<rparr>) (md_lock w))"
  have und: "undisturbed ((master_datap w)\<lparr>sim_state := next\<rparr>) (master_datap w1)"
    by (simp add: w1_def undisturbed_def clear_feedback_def)
  then have "table_ok (he_build env) (master_datap w1)" "callbacks_known known (master_datap w1)"
    using undisturbed_table [OF und] callbacks_known_undisturbed [OF und] assms(2,3)
    by (simp_all add: callbacks_known_def)
  moreover have "publish_event_nolock env event w1 = Inr w'"
    using run True assms(4) by (auto simp: trigger_event_def Let_def w1_def bindE_eq_Inr_iff)
  ultimately have "undisturbed (master_datap w1) (master_datap w')"
    using publish_from_keeps by (simp add: publish_event_nolock_def)
  then show ?thesis using und True undisturbed_trans by simp
qed

lemma sim_exec_keeps:
  assumes "sim_exec env cmd w = Inr (r, w')" and "table_ok (he_build env) (master_datap w)"
    and "callbacks_known known (master_datap w)"
  shows "undisturbed ((master_datap w)\<lparr>sim_state := (case cmd_next cmd (sim_state (master_datap w)) of
        None \<Rightarrow> sim_state (master_datap w) | Some st \<Rightarrow> st)\<rparr>) (master_datap w')"
proof -
  have log: "table_ok (he_build env) (master_datap (effect e w))" "callbacks_known known (master_datap (effect e w))" for e
    using assms(2,3) by simp_all
  have keeps: "undisturbed ((master_datap w)\<lparr>sim_state := (if sim_state (master_datap w) = cur \<or> next = HakoSim_Error
      then next else sim_state (master_datap w))\<rparr>) (master_datap w')"
    if "trigger_event env cur next event (effect e w) = Inr (r, w')" for cur "next" event e
    using trigger_event_keeps [OF that log refl] by (auto split: if_splits)
  show ?thesis
  proof (cases cmd)
    case Cmd_Start
    have "cmd_next Cmd_Start st = (if st = HakoSim_Stopped then Some HakoSim_Runnable else None)" for st
      by (cases st) simp_all
    then show ?thesis using keeps [of HakoSim_Stopped HakoSim_Runnable] assms(1) Cmd_Start by (auto simp: sim_start_def)
  next
    case Cmd_Stop
    have "cmd_next Cmd_Stop st = (if st = HakoSim_Running then Some HakoSim_Stopping else None)" for st
      by (cases st) simp_all
    then show ?thesis using keeps [of HakoSim_Running HakoSim_Stopping] assms(1) Cmd_Stop by (auto simp: sim_stop_def)
  next
    case Cmd_Reset
    have "cmd_next Cmd_Reset st = (if st = HakoSim_Stopped then Some HakoSim_Resetting
        else if st = HakoSim_Error then Some HakoSim_Stopped else None)" for st
      by (cases st) simp_all
    then show ?thesis
      using keeps [of HakoSim_Stopped HakoSim_Resetting] keeps [of HakoSim_Error HakoSim_Stopped] assms(1) Cmd_Reset
      by (auto simp: sim_reset_def Let_def split: if_splits)
  qed
qed

end

section \<open>The error event\<close>

lemma publish_error_returns:
  assumes "table_ok (he_build env) (master_datap w)"
  shows "\<exists>w'. publish_from env HakoAssetEvent_Error is w = Inr w' \<and> undisturbed (master_datap w) (master_datap w')"
  using assms
proof (induction "is" arbitrary: w)
  case (Cons i "is")
  show ?case
  proof (cases "get_asset (he_build env) (int i) w")
    case (Some slot)
    let ?w = "upd_ev slot (\<lambda>e. e\<lparr>ev_event := HakoAssetEvent_Error, ev_feedback := True\<rparr>) w"
    have und: "undisturbed (master_datap w) (master_datap ?w)" by (rule undisturbed_ev)
    then obtain w' where "publish_from env HakoAssetEvent_Error is ?w = Inr w'"
      "undisturbed (master_datap ?w) (master_datap w')"
      using Cons.IH [of ?w] Cons.prems undisturbed_table [OF und] by blast
    then show ?thesis using Some undisturbed_trans [OF und] by (simp del: upd_entry_simps)
  qed (use Cons in simp)
qed simp

lemma trigger_error_returns:
  assumes "table_ok (he_build env) (master_datap w)"
  shows "\<exists>w'. trigger_event env HakoSim_Any HakoSim_Error HakoAssetEvent_Error w = Inr (True, w') \<and>
    undisturbed ((master_datap w)\<lparr>sim_state := HakoSim_Error\<rparr>) (master_datap w')"
proof -
  define w1 where "w1 = md_unlock (if sim_state (master_datap w) = HakoSim_Any
      then upd_md clear_feedback (upd_md (\<lambda>d. d\<lparr>sim_state := HakoSim_Error\<rparr>) (md_lock w))
      else upd_md (\<lambda>d. d\<lparr>sim_state := HakoSim_Error\<rparr>) (md_lock w))"
  have und: "undisturbed ((master_datap w)\<lparr>sim_state := HakoSim_Error\<rparr>) (master_datap w1)"
    by (simp add: w1_def undisturbed_def clear_feedback_def)
  obtain w2 where "publish_event_nolock env HakoAssetEvent_Error w1 = Inr w2"
    "undisturbed (master_datap w1) (master_datap w2)"
    using publish_error_returns [of env w1] undisturbed_table [OF und] assms
    by (auto simp: publish_event_nolock_def)
  moreover have "trigger_event env HakoSim_Any HakoSim_Error HakoAssetEvent_Error w =
      bindE (publish_event_nolock env HakoAssetEvent_Error w1) (\<lambda>w. Inr (True, w))"
    by (auto simp: trigger_event_def Let_def w1_def)
  ultimately show ?thesis using und undisturbed_trans by auto
qed

section \<open>Timeouts\<close>

definition names_ok :: "HakoMasterDataType \<Rightarrow> bool" where
  "names_ok d \<longleftrightarrow> (\<forall>a \<in> set (assets d). entry_used a \<longrightarrow> NUL \<notin> set (hako_fixed2string (ae_name a)))"

lemma own_name_lookup:
  assumes "table_ok b d" and "names_ok d" and "i < length (assets d)" and "entry_used (assets d ! i)"
  shows "first_index (entry_matches (hako_fixed2string (ae_name (assets d ! i)))) (assets d) = Some i"
proof (rule first_index_unique [OF assms(3)])
  let ?n = "hako_fixed2string (ae_name (assets d ! i))"
  have nul: "NUL \<notin> set ?n" using assms(2-4) by (simp add: names_ok_def)
  have fixed: "fixed_ok (ae_name (assets d ! j))" if "j < length (assets d)" for j
    using that assms(1) by (simp add: table_ok_def)
  show "entry_matches ?n (assets d ! i)"
    using entry_matches_iff [OF nul fixed [OF assms(3)]] assms(4) by simp
  show "j = i" if "j < length (assets d)" "entry_matches ?n (assets d ! j)" for j
    using entry_matches_iff [OF nul fixed [OF that(1)]] that assms unfolding table_ok_def by metis
qed

lemma unregister_slot:
  assumes "table_ok b (master_datap w)" and "names_ok (master_datap w)"
    and "sim_state (master_datap w) = HakoSim_Error"
    and "i < length (assets (master_datap w))" "entry_used (assets (master_datap w) ! i)"
  obtains w' where
    "asset_unregister env (hako_fixed2string (ae_name (assets (master_datap w) ! i))) None w = Inr (True, None, w')"
    "master_datap w' = (master_datap w)\<lparr>assets := (assets (master_datap w))[i := (assets (master_datap w) ! i)
        \<lparr>ae_type := HakoAsset_Unknown\<rparr>], asset_num := asset_num (master_datap w) - 1\<rparr>"
  using own_name_lookup [OF assms(1,2,4,5)] assms(3)
  by (simp add: asset_unregister_def free_asset_eq)

lemma unregister_from_frees:
  assumes "table_ok (he_build env) (master_datap w)" and "names_ok (master_datap w)"
    and "sim_state (master_datap w) = HakoSim_Error" and "distinct is"
    and "\<forall>i \<in> set is. i < length (assets (master_datap w)) \<and> entry_used (assets (master_datap w) ! i)"
  shows "\<exists>w'. unregister_from env is w = Inr w' \<and> table_ok (he_build env) (master_datap w') \<and>
    sim_state (master_datap w') = HakoSim_Error \<and> time_usec (master_datap w') = time_usec (master_datap w) \<and>
    length (assets (master_datap w')) = length (assets (master_datap w)) \<and>
    (\<forall>j < length (assets (master_datap w)). assets (master_datap w') ! j =
       (if j \<in> set is then (assets (master_datap w) ! j)\<lparr>ae_type := HakoAsset_Unknown\<rparr> else assets (master_datap w) ! j))"
  using assms
proof (induction "is" arbitrary: w)
  case Nil
  then show ?case by simp
next
  case (Cons i "is")
  let ?d = "master_datap w"
  have i: "i < length (assets ?d)" "entry_used (assets ?d ! i)" using Cons.prems(5) by simp_all
  obtain w1 where w1: "asset_unregister env (hako_fixed2string (ae_name (assets ?d ! i))) None w = Inr (True, None, w1)"
    "master_datap w1 = ?d\<lparr>assets := (assets ?d)[i := (assets ?d ! i)\<lparr>ae_type := HakoAsset_Unknown\<rparr>],
       asset_num := asset_num ?d - 1\<rparr>"
    using unregister_slot [OF Cons.prems(1-3) i, of env] by metis
  have ok1: "table_ok (he_build env) (master_datap w1)"
    using table_ok_free [OF Cons.prems(1) i] w1(2) by simp
  have "names_ok (master_datap w1)"
    using Cons.prems(2) set_update_subset_insert [of "assets ?d" i "(assets ?d ! i)\<lparr>ae_type := HakoAsset_Unknown\<rparr>"]
    by (auto simp: names_ok_def w1(2) entry_used_def)
  moreover have "\<forall>k \<in> set is. k < length (assets (master_datap w1)) \<and> entry_used (assets (master_datap w1) ! k)"
    using Cons.prems(4,5) by (auto simp: w1(2) nth_list_update)
  ultimately obtain w2 where w2: "unregister_from env is w1 = Inr w2" "table_ok (he_build env) (master_datap w2)"
    "sim_state (master_datap w2) = HakoSim_Error" "time_usec (master_datap w2) = time_usec (master_datap w1)"
    "length (assets (master_datap w2)) = length (assets (master_datap w1))"
    "\<forall>j < length (assets (master_datap w1)). assets (master_datap w2) ! j =
       (if j \<in> set is then (assets (master_datap w1) ! j)\<lparr>ae_type := HakoAsset_Unknown\<rparr> else assets (master_datap w1) ! j)"
    using Cons.IH [of w1] ok1 Cons.prems(3,4) w1(2) by auto
  have "get_asset (he_build env) (int i) w = Some i"
    using get_asset_Some [OF Cons.prems(1), of i i] i by simp
  then have "unregister_from env (i # is) w = Inr w2" using w1(1) w2(1) by simp
  moreover have "assets (master_datap w2) ! j =
      (if j \<in> set (i # is) then (assets ?d ! j)\<lparr>ae_type := HakoAsset_Unknown\<rparr> else assets ?d ! j)"
    if "j < length (assets ?d)" for j
    using that w2(6) w1(2) by (cases "j = i") simp_all
  ultimately show ?case using w2(2-5) w1(2) by auto
qed

section \<open>Event handling\<close>

definition timed_out :: "'m hako_env \<Rightarrow> 'm HakoMasterData \<Rightarrow> nat set" where
  "timed_out env w = {i. i < length (assets (master_datap w)) \<and> entry_used (assets (master_datap w) ! i) \<and>
     is_asset_timeout_nolock env (int i) w}"

lemma timeout_list:
  assumes "table_ok (he_build env) (master_datap w)"
  shows "set (do_event_handling_timeout_nolock env w) = timed_out env w"
    and "distinct (do_event_handling_timeout_nolock env w)"
  using assms
  by (auto simp: do_event_handling_timeout_nolock_def timed_out_def get_asset_event_nolock_def get_asset_def
      in_use_iff table_ok_def)

text \<open>The state a transitional state leads to when every asset has given its feedback.\<close>

fun settled :: "HakoSimulationStateType \<Rightarrow> HakoSimulationStateType" where
  "settled HakoSim_Runnable = HakoSim_Running"
| "settled HakoSim_Stopping = HakoSim_Stopped"
| "settled HakoSim_Resetting = HakoSim_Stopped"
| "settled st = st"

lemma settled_neq: "sim_event_needs_handling st \<Longrightarrow> settled st \<noteq> st"
  by (cases st) (simp_all add: sim_event_needs_handling_def)

lemma do_event_handling_nolock_eq:
  assumes "sim_event_needs_handling (sim_state (master_datap w))"
  shows "do_event_handling_nolock env w =
    (if is_all_feedback_nolock w then ([], upd_md (\<lambda>d. d\<lparr>sim_state := settled (sim_state (master_datap w))\<rparr>) w)
     else (do_event_handling_timeout_nolock env w, w))"
  using assms
  by (cases "sim_state (master_datap w)") (simp_all add: do_event_handling_nolock_def sim_event_needs_handling_def)

lemma idle_handling:
  "\<not> sim_event_needs_handling (sim_state (master_datap w)) \<Longrightarrow>
   do_event_handling env w = Inr ((False, sim_state (master_datap w), sim_state (master_datap w)), w)"
  by (simp add: do_event_handling_def Let_def)

lemma feedback_lock [simp]: "is_all_feedback_nolock (md_lock w) = is_all_feedback_nolock w"
  by (simp add: is_all_feedback_nolock_def)

lemma timeout_lock [simp]:
  "do_event_handling_timeout_nolock env (md_lock w) = do_event_handling_timeout_nolock env w"
  by (simp add: do_event_handling_timeout_nolock_def is_asset_timeout_nolock_def)

lemma settle_handling:
  assumes "sim_event_needs_handling (sim_state (master_datap w))" and "is_all_feedback_nolock w"
  shows "do_event_handling env w =
    Inr ((True, sim_state (master_datap w), settled (sim_state (master_datap w))),
      md_unlock (upd_md (\<lambda>d. d\<lparr>sim_state := settled (sim_state (master_datap w))\<rparr>) (md_lock w)))"
  using assms settled_neq [OF assms(1)]
  by (simp add: do_event_handling_def do_event_handling_nolock_eq Let_def eq_commute)

lemma wait_handling:
  assumes "table_ok (he_build env) (master_datap w)"
    and "sim_event_needs_handling (sim_state (master_datap w))" and "\<not> is_all_feedback_nolock w"
    and "timed_out env w = {}"
  shows "do_event_handling env w =
    Inr ((False, sim_state (master_datap w), sim_state (master_datap w)), md_unlock (md_lock w))"
proof -
  have "do_event_handling_timeout_nolock env w = []" using timeout_list(1) [OF assms(1)] assms(4) by simp
  then show ?thesis using assms by (simp add: do_event_handling_def do_event_handling_nolock_eq Let_def)
qed

lemma timeout_handling:
  assumes ok: "table_ok (he_build env) (master_datap w)" "names_ok (master_datap w)"
    and trans: "sim_event_needs_handling (sim_state (master_datap w))" "\<not> is_all_feedback_nolock w"
    and late: "timed_out env w \<noteq> {}"
  shows "\<exists>w'. do_event_handling env w = Inr ((False, sim_state (master_datap w), sim_state (master_datap w)), w') \<and>
    table_ok (he_build env) (master_datap w') \<and> sim_state (master_datap w') = HakoSim_Error \<and>
    time_usec (master_datap w') = time_usec (master_datap w) \<and>
    (\<forall>j < length (assets (master_datap w)). assets (master_datap w') ! j =
       (if j \<in> timed_out env w then (assets (master_datap w) ! j)\<lparr>ae_type := HakoAsset_Unknown\<rparr>
        else assets (master_datap w) ! j))"
proof -
  let ?L = "do_event_handling_timeout_nolock env w" and ?w = "md_unlock (md_lock w)"
  have L: "set ?L = timed_out env w" "distinct ?L" "?L \<noteq> []" using timeout_list [OF ok(1)] late by auto
  obtain w1 where w1: "trigger_event env HakoSim_Any HakoSim_Error HakoAssetEvent_Error ?w = Inr (True, w1)"
    "undisturbed ((master_datap w)\<lparr>sim_state := HakoSim_Error\<rparr>) (master_datap w1)"
    using trigger_error_returns [of env ?w] ok(1) by auto
  have same: "assets (master_datap w1) = assets (master_datap w)" "sim_state (master_datap w1) = HakoSim_Error"
    "time_usec (master_datap w1) = time_usec (master_datap w)"
    using w1(2) by (simp_all add: undisturbed_def)
  have ok1: "table_ok (he_build env) (master_datap w1)" "names_ok (master_datap w1)"
    using undisturbed_table [OF w1(2)] ok same by (simp_all add: names_ok_def)
  have "\<forall>i \<in> set ?L. i < length (assets (master_datap w1)) \<and> entry_used (assets (master_datap w1) ! i)"
    using L(1) same(1) by (auto simp: timed_out_def)
  from unregister_from_frees [OF ok1 same(2) L(2) this] obtain w2 where
    w2: "unregister_from env ?L w1 = Inr w2" "table_ok (he_build env) (master_datap w2)"
    "sim_state (master_datap w2) = HakoSim_Error" "time_usec (master_datap w2) = time_usec (master_datap w1)"
    "\<forall>j < length (assets (master_datap w1)). assets (master_datap w2) ! j =
       (if j \<in> set ?L then (assets (master_datap w1) ! j)\<lparr>ae_type := HakoAsset_Unknown\<rparr> else assets (master_datap w1) ! j)"
    by blast
  have "do_event_handling env w = Inr ((False, sim_state (master_datap w), sim_state (master_datap w)), w2)"
    using trans L(3) w1(1) w2(1) by (simp add: do_event_handling_def do_event_handling_nolock_eq Let_def)
  then show ?thesis using w2 same L(1) by auto
qed

end
