(* ===== verification/Hako_Time.thy ===== *)
theory Hako_Time
  imports Hako_Types
begin

text \<open>
  The virtual clock of the simulation, \<open>core/simulation/time/hako_time.{hpp,cpp}\<close>: the
  class \<open>TheWorld\<close>, whose step \<open>time_begins_to_move\<close> lets the world time advance only
  while no asset lags by the maximum delay. The theorems give the step in closed form,
  bound the lead of the world over the assets on all runs, whatever is reported, and show
  where it halts.
\<close>

section \<open>The class TheWorld\<close>

record TheWorld =
  max_delay_time_usec :: int
  delta_time_usec :: int
  wait_time_usec :: int
  world_time_usec :: int

definition new_TheWorld :: "int \<Rightarrow> int \<Rightarrow> TheWorld" where
  "new_TheWorld max_delay delta =
     \<lparr>max_delay_time_usec = max_delay, delta_time_usec = delta, wait_time_usec = 0, world_time_usec = 0\<rparr>"

definition world_set_config_simtime :: "TheWorld \<Rightarrow> int \<Rightarrow> int \<Rightarrow> TheWorld" where
  "world_set_config_simtime w max_delay delta =
     w\<lparr>max_delay_time_usec := max_delay, delta_time_usec := delta,
       wait_time_usec := 0, world_time_usec := 0\<rparr>"

definition reset_world_time :: "TheWorld \<Rightarrow> TheWorld" where
  "reset_world_time w = w\<lparr>world_time_usec := 0\<rparr>"

text \<open>The loop over the assets' times, with the early exit of its \<open>break\<close>.\<close>

fun can_step :: "TheWorld \<Rightarrow> int list \<Rightarrow> bool result" where
  "can_step w [] = Inr True"
| "can_step w (asset_time # asset_times) =
     bindE (checked64 (asset_time - world_time_usec w)) (\<lambda>diff.
     bindE (checked64 (- max_delay_time_usec w)) (\<lambda>limit.
       if diff \<le> limit then Inr False else can_step w asset_times))"

definition time_begins_to_move :: "TheWorld \<Rightarrow> int list \<Rightarrow> (int \<times> TheWorld) result" where
  "time_begins_to_move w asset_times =
     bindE (can_step w asset_times) (\<lambda>canStep.
       if canStep then
         bindE (checked64 (world_time_usec w + delta_time_usec w)) (\<lambda>t.
           Inr (t, w\<lparr>world_time_usec := t\<rparr>))
       else
         bindE (checked64 (wait_time_usec w + delta_time_usec w)) (\<lambda>t.
           Inr (world_time_usec w, w\<lparr>wait_time_usec := t\<rparr>)))"

section \<open>The step in closed form\<close>

text \<open>Times and configuration for which no expression of the step can overflow.\<close>

definition time_safe :: "TheWorld \<Rightarrow> int list \<Rightarrow> bool" where
  "time_safe w asset_times \<longleftrightarrow>
     0 \<le> max_delay_time_usec w \<and> max_delay_time_usec w \<le> 2 ^ 61 \<and>
     0 < delta_time_usec w \<and> delta_time_usec w \<le> 2 ^ 61 \<and>
     0 \<le> wait_time_usec w \<and> wait_time_usec w \<le> 2 ^ 61 \<and>
     0 \<le> world_time_usec w \<and> world_time_usec w \<le> 2 ^ 61 \<and>
     (\<forall>t \<in> set asset_times. 0 \<le> t \<and> t \<le> 2 ^ 61)"

definition in_time :: "TheWorld \<Rightarrow> int list \<Rightarrow> bool" where
  "in_time w asset_times \<longleftrightarrow>
     (\<forall>t \<in> set asset_times. world_time_usec w < t + max_delay_time_usec w)"

lemma can_step_eq:
  "0 \<le> max_delay_time_usec w \<Longrightarrow> max_delay_time_usec w \<le> 2 ^ 61 \<Longrightarrow>
   0 \<le> world_time_usec w \<Longrightarrow> world_time_usec w \<le> 2 ^ 61 \<Longrightarrow>
   (\<And>t. t \<in> set ts \<Longrightarrow> 0 \<le> t \<and> t \<le> 2 ^ 61) \<Longrightarrow>
   can_step w ts = Inr (in_time w ts)"
proof (induction ts)
  case Nil
  then show ?case by (simp add: in_time_def)
next
  case (Cons t ts)
  have t: "0 \<le> t" "t \<le> 2 ^ 61" using Cons.prems(5) [of t] by simp_all
  have "fits_int64 (t - world_time_usec w)" "fits_int64 (- max_delay_time_usec w)"
    using Cons.prems(1-4) t by (simp_all add: int64_defs)
  with Cons show ?case by (auto simp: in_time_def)
qed

lemma time_safe_step:
  assumes "time_safe w ts"
  shows "time_begins_to_move w ts =
    (if in_time w ts
     then Inr (world_time_usec w + delta_time_usec w,
               w\<lparr>world_time_usec := world_time_usec w + delta_time_usec w\<rparr>)
     else Inr (world_time_usec w,
               w\<lparr>wait_time_usec := wait_time_usec w + delta_time_usec w\<rparr>))"
proof -
  have "can_step w ts = Inr (in_time w ts)"
    using assms by (intro can_step_eq) (auto simp: time_safe_def)
  moreover have "fits_int64 (world_time_usec w + delta_time_usec w)"
    "fits_int64 (wait_time_usec w + delta_time_usec w)"
    using assms by (simp_all add: time_safe_def int64_defs)
  ultimately show ?thesis by (simp add: time_begins_to_move_def)
qed

section \<open>Runs of the clock with its assets\<close>

text \<open>
  What happens to the clock, in any order: an asset registers, with the time 0 and in any
  slot (\<open>alloc_asset\<close>), or leaves; an asset reports a time, any value at all
  (\<open>notify_simtime\<close>); the world takes a step; a reset sets the world and all assets to 0
  (\<open>execute\<close>); the master configures the time, which makes a new world at 0 and leaves the
  assets (\<open>set_config_simtime\<close>). Beside the report, which alone the code sees, an asset
  carries two auxiliary components: the greatest of its reports since it registered or was
  reset, and whether the world has stood still since it registered.
\<close>

record asset_clock =
  ac_report :: int
  ac_best :: int
  ac_fresh :: bool

inductive time_run :: "TheWorld \<Rightarrow> asset_clock list \<Rightarrow> bool" where
  time_boot: "0 \<le> max_delay \<Longrightarrow> 0 < delta \<Longrightarrow> time_run (new_TheWorld max_delay delta) []"
| time_join: "time_run w (xs @ ys) \<Longrightarrow>
     time_run w (xs @ \<lparr>ac_report = 0, ac_best = 0, ac_fresh = True\<rparr> # ys)"
| time_leave: "time_run w (xs @ a # ys) \<Longrightarrow> time_run w (xs @ ys)"
| time_report: "time_run w (xs @ a # ys) \<Longrightarrow>
     time_run w (xs @ a\<lparr>ac_report := t, ac_best := max (ac_best a) t\<rparr> # ys)"
| time_world: "time_run w as \<Longrightarrow> time_begins_to_move w (map ac_report as) = Inr (r, w') \<Longrightarrow>
     time_run w' (if r \<noteq> world_time_usec w then map (ac_fresh_update (\<lambda>_. False)) as else as)"
| time_reset: "time_run w as \<Longrightarrow>
     time_run (reset_world_time w) (map (\<lambda>_. \<lparr>ac_report = 0, ac_best = 0, ac_fresh = False\<rparr>) as)"
| time_config: "time_run w as \<Longrightarrow> 0 \<le> max_delay \<Longrightarrow> 0 < delta \<Longrightarrow> time_run (new_TheWorld max_delay delta) as"

definition lead_bounded :: "TheWorld \<Rightarrow> asset_clock \<Rightarrow> bool" where
  "lead_bounded w a \<longleftrightarrow> 0 \<le> ac_best a \<and> ac_report a \<le> ac_best a \<and>
     (world_time_usec w - ac_best a < max_delay_time_usec w + delta_time_usec w \<or> ac_fresh a)"

definition time_inv :: "TheWorld \<Rightarrow> asset_clock list \<Rightarrow> bool" where
  "time_inv w as \<longleftrightarrow> 0 \<le> max_delay_time_usec w \<and> 0 < delta_time_usec w \<and> 0 \<le> world_time_usec w \<and>
     (\<forall>a \<in> set as. lead_bounded w a)"

lemma can_step_True:
  "can_step w ts = Inr True \<Longrightarrow> in_time w ts"
  by (induction ts) (auto simp: in_time_def fault_simps split: if_splits)

lemma time_step_cases:
  assumes "time_begins_to_move w ts = Inr (r, w')"
  obtains (moves) "in_time w ts"
      "w' = w\<lparr>world_time_usec := world_time_usec w + delta_time_usec w\<rparr>"
      "r = world_time_usec w'"
  | (waits) "w' = w\<lparr>wait_time_usec := wait_time_usec w + delta_time_usec w\<rparr>"
      "r = world_time_usec w'"
  using assms
  by (auto simp: time_begins_to_move_def fault_simps dest: can_step_True split: if_splits)

lemma time_inv_world:
  assumes "time_inv w as" and "time_begins_to_move w (map ac_report as) = Inr (r, w')"
  shows "time_inv w' (if r \<noteq> world_time_usec w then map (ac_fresh_update (\<lambda>_. False)) as else as)"
  using assms(2)
proof (cases rule: time_step_cases)
  case moves
  have "lead_bounded w' (a\<lparr>ac_fresh := False\<rparr>)" if "a \<in> set as" for a
  proof -
    have "lead_bounded w a" "world_time_usec w < ac_report a + max_delay_time_usec w"
      using moves(1) assms(1) that by (auto simp: in_time_def time_inv_def)
    then show ?thesis by (simp add: lead_bounded_def moves(2))
  qed
  then show ?thesis using assms(1) moves(2,3) by (simp add: time_inv_def)
next
  case waits
  then show ?thesis using assms(1) by (simp add: time_inv_def lead_bounded_def)
qed

lemma time_run_inv: "time_run w as \<Longrightarrow> time_inv w as"
proof (induction rule: time_run.induct)
  case (time_world w as r w')
  then show ?case using time_inv_world by blast
next
  case (time_config w as max_delay delta)
  then have "lead_bounded (new_TheWorld max_delay delta) a" if "a \<in> set as" for a
    using that by (auto simp: time_inv_def lead_bounded_def new_TheWorld_def)
  then show ?case using time_config by (simp add: time_inv_def) (simp add: new_TheWorld_def)
qed (auto simp: time_inv_def lead_bounded_def new_TheWorld_def reset_world_time_def)

section \<open>Assets that stand still\<close>

fun time_iterate :: "nat \<Rightarrow> TheWorld \<Rightarrow> int list \<Rightarrow> TheWorld result" where
  "time_iterate 0 w ts = Inr w"
| "time_iterate (Suc n) w ts =
     bindE (time_begins_to_move w ts) (\<lambda>(t, w'). time_iterate n w' ts)"

lemma int_Suc_mult: "int (Suc n) * d = d + int n * d"
  by (simp add: algebra_simps)

lemma time_iterate_blocked:
  assumes "\<not> in_time w ts" and "time_safe w ts"
    and "wait_time_usec w + int n * delta_time_usec w \<le> 2 ^ 61"
  shows "time_iterate n w ts =
    Inr (w\<lparr>wait_time_usec := wait_time_usec w + int n * delta_time_usec w\<rparr>)"
  using assms
proof (induction n arbitrary: w)
  case 0
  then show ?case by simp
next
  case (Suc n)
  let ?w = "w\<lparr>wait_time_usec := wait_time_usec w + delta_time_usec w\<rparr>"
  have pos: "0 \<le> int n * delta_time_usec w" using Suc.prems(2) by (simp add: time_safe_def)
  have bound: "wait_time_usec ?w + int n * delta_time_usec ?w \<le> 2 ^ 61"
    using Suc.prems(3) by (simp add: algebra_simps)
  have "wait_time_usec w + delta_time_usec w \<le> 2 ^ 61"
    using Suc.prems(3) pos unfolding int_Suc_mult by linarith
  then have "time_safe ?w ts"
    using Suc.prems(2) by (simp add: time_safe_def)
  moreover have "\<not> in_time ?w ts" using Suc.prems(1) by (simp add: in_time_def)
  ultimately have "time_iterate n ?w ts =
      Inr (?w\<lparr>wait_time_usec := wait_time_usec ?w + int n * delta_time_usec ?w\<rparr>)"
    using bound by (intro Suc.IH)
  then show ?case
    using Suc.prems(1) time_safe_step [OF Suc.prems(2)] by (simp add: algebra_simps)
qed

lemma time_iterate_moves:
  assumes "\<forall>t \<in> set ts. world_time_usec w + int n * delta_time_usec w
             < t + max_delay_time_usec w + delta_time_usec w"
    and "time_safe w ts" and "world_time_usec w + int n * delta_time_usec w \<le> 2 ^ 61"
  shows "time_iterate n w ts =
    Inr (w\<lparr>world_time_usec := world_time_usec w + int n * delta_time_usec w\<rparr>)"
  using assms
proof (induction n arbitrary: w)
  case 0
  then show ?case by simp
next
  case (Suc n)
  let ?w = "w\<lparr>world_time_usec := world_time_usec w + delta_time_usec w\<rparr>"
  have pos: "0 \<le> int n * delta_time_usec w" using Suc.prems(2) by (simp add: time_safe_def)
  have "in_time w ts" using Suc.prems(1) pos by (fastforce simp: in_time_def algebra_simps)
  moreover have "world_time_usec w + delta_time_usec w \<le> 2 ^ 61"
    using Suc.prems(3) pos unfolding int_Suc_mult by linarith
  then have "time_safe ?w ts"
    using Suc.prems(2) by (simp add: time_safe_def)
  moreover have "time_iterate n ?w ts =
      Inr (?w\<lparr>world_time_usec := world_time_usec ?w + int n * delta_time_usec ?w\<rparr>)"
    using Suc.prems \<open>time_safe ?w ts\<close> by (intro Suc.IH) (simp_all add: algebra_simps)
  ultimately show ?case
    using time_safe_step [OF Suc.prems(2)] by (simp add: algebra_simps)
qed

section \<open>Properties\<close>

text \<open>
  C1: On every run of the clock, with assets that register, leave and report any values in
  any order, with resets and changes of the configuration (to a maximum delay of at least
  zero and a positive step): the world time is never
  negative, and it leads the greatest time that an asset has reported since it registered
  by less than \<open>max_delay + delta\<close>, unless the world has not moved since the asset
  registered. A step that does move the world finds every asset, by its last report and
  the newly registered ones with the time 0 included, less than \<open>max_delay\<close> behind, and
  leaves it less than \<open>max_delay + delta\<close> behind. An asset that reports a smaller time, or
  registers late, can thus be further behind, and then the world waits for it.
\<close>

theorem world_lead_bounded:
  assumes "time_run w as"
  shows "0 \<le> world_time_usec w \<and>
    (\<forall>a \<in> set as. ac_report a \<le> ac_best a \<and>
       (world_time_usec w - ac_best a < max_delay_time_usec w + delta_time_usec w \<or> ac_fresh a)) \<and>
    (\<forall>r w'. time_begins_to_move w (map ac_report as) = Inr (r, w') \<longrightarrow>
       r = world_time_usec w' \<and>
       (r = world_time_usec w \<or>
        r = world_time_usec w + delta_time_usec w \<and>
        (\<forall>a \<in> set as. world_time_usec w - ac_report a < max_delay_time_usec w \<and>
           r - ac_report a < max_delay_time_usec w + delta_time_usec w)))"
proof -
  have "r = world_time_usec w' \<and>
       (r = world_time_usec w \<or>
        r = world_time_usec w + delta_time_usec w \<and>
        (\<forall>a \<in> set as. world_time_usec w - ac_report a < max_delay_time_usec w \<and>
           r - ac_report a < max_delay_time_usec w + delta_time_usec w))"
    if "time_begins_to_move w (map ac_report as) = Inr (r, w')" for r w'
    using that by (cases rule: time_step_cases) (auto simp: in_time_def)
  then show ?thesis using time_run_inv [OF assms] by (simp add: time_inv_def lead_bounded_def)
qed

theorem world_lead_bounded_witness:
  "time_run ((new_TheWorld 2 1)\<lparr>world_time_usec := 2\<rparr>)
     [\<lparr>ac_report = 0, ac_best = 0, ac_fresh = True\<rparr>, \<lparr>ac_report = 1, ac_best = 5, ac_fresh = False\<rparr>] \<and>
   (2::int) - 5 < 2 + 1"
proof -
  let ?w = "\<lambda>t. (new_TheWorld 2 1)\<lparr>world_time_usec := t\<rparr>"
  let ?a = "\<lambda>r b f. \<lparr>ac_report = r, ac_best = b, ac_fresh = f\<rparr>"
  have steps: "time_begins_to_move (?w 0) [5] = Inr (1, ?w 1)" "time_begins_to_move (?w 1) [5] = Inr (2, ?w 2)"
    by (simp_all add: time_begins_to_move_def new_TheWorld_def checked64_def int64_defs)
  have "time_run (?w 0) []" using time_boot [of 2 1] by (simp add: new_TheWorld_def)
  then have "time_run (?w 0) [?a 0 0 True]" using time_join [of "?w 0" "[]" "[]"] by simp
  then have "time_run (?w 0) [?a 5 5 True]" using time_report [of "?w 0" "[]" "?a 0 0 True" "[]" 5] by simp
  then have "time_run (?w 1) [?a 5 5 False]"
    using time_world [of "?w 0" "[?a 5 5 True]" 1 "?w 1"] steps(1) by simp
  then have "time_run (?w 2) [?a 5 5 False]"
    using time_world [of "?w 1" "[?a 5 5 False]" 2 "?w 2"] steps(2) by simp
  then have "time_run (?w 2) [?a 1 5 False]" using time_report [of "?w 2" "[]" "?a 5 5 False" "[]" 1] by simp
  then have run: "time_run (?w 2) [?a 0 0 True, ?a 1 5 False]"
    using time_join [of "?w 2" "[]" "[?a 1 5 False]"] by simp
  from world_lead_bounded [OF run] run show ?thesis by (simp add: new_TheWorld_def)
qed

text \<open>
  Left alone, the clock moves by exactly \<open>delta\<close> per call while every asset is within
  the maximum delay, then stops for good and books each further call as waiting time;
  each of the \<open>n\<close> calls is accounted for once, and no call overflows while the times
  are below \<open>2 ^ 61\<close>.
\<close>

lemma time_iterate_exact:
  assumes "time_safe w ts"
    and "world_time_usec w + int n * delta_time_usec w \<le> 2 ^ 61"
    and "wait_time_usec w + int n * delta_time_usec w \<le> 2 ^ 61"
  shows "\<exists>k \<le> n.
    time_iterate n w ts =
      Inr (w\<lparr>world_time_usec := world_time_usec w + int k * delta_time_usec w,
             wait_time_usec := wait_time_usec w + int (n - k) * delta_time_usec w\<rparr>) \<and>
    (\<forall>j < k. in_time (w\<lparr>world_time_usec := world_time_usec w + int j * delta_time_usec w\<rparr>) ts) \<and>
    (k < n \<longrightarrow> \<not> in_time (w\<lparr>world_time_usec := world_time_usec w + int k * delta_time_usec w\<rparr>) ts)"
  using assms
proof (induction n arbitrary: w)
  case 0
  then show ?case by simp
next
  case (Suc n)
  show ?case
  proof (cases "in_time w ts")
    case False
    then show ?thesis
      using time_iterate_blocked [OF False Suc.prems(1,3)] by (intro exI [of _ 0]) simp
  next
    case True
    let ?w = "w\<lparr>world_time_usec := world_time_usec w + delta_time_usec w\<rparr>"
    have pos: "0 \<le> int n * delta_time_usec w" using Suc.prems(1) by (simp add: time_safe_def)
    moreover have "0 < delta_time_usec w" using Suc.prems(1) by (simp add: time_safe_def)
    ultimately have "world_time_usec w + delta_time_usec w \<le> 2 ^ 61"
      "wait_time_usec w + int n * delta_time_usec w \<le> 2 ^ 61"
      using Suc.prems(2,3) unfolding int_Suc_mult by linarith+
    moreover from this(1) have "time_safe ?w ts" using Suc.prems(1) by (simp add: time_safe_def)
    moreover have "world_time_usec ?w + int n * delta_time_usec ?w \<le> 2 ^ 61"
      using Suc.prems(2) by (simp add: algebra_simps)
    ultimately obtain k where k: "k \<le> n" "time_iterate n ?w ts =
        Inr (?w\<lparr>world_time_usec := world_time_usec ?w + int k * delta_time_usec ?w,
               wait_time_usec := wait_time_usec ?w + int (n - k) * delta_time_usec ?w\<rparr>)"
      "\<forall>j < k. in_time (?w\<lparr>world_time_usec := world_time_usec ?w + int j * delta_time_usec ?w\<rparr>) ts"
      "k < n \<longrightarrow> \<not> in_time (?w\<lparr>world_time_usec := world_time_usec ?w + int k * delta_time_usec ?w\<rparr>) ts"
      using Suc.IH [of ?w] by auto
    have "in_time (w\<lparr>world_time_usec := world_time_usec w + int j * delta_time_usec w\<rparr>) ts"
      if "j < Suc k" for j
      using that k(3) True by (cases j) (auto simp: algebra_simps)
    then show ?thesis
      using k True time_safe_step [OF Suc.prems(1)]
      by (intro exI [of _ "Suc k"]) (simp add: algebra_simps)
  qed
qed

end
