(* ===== verification/Hako_Pdu_Setup.thy ===== *)
theory Hako_Pdu_Setup
  imports Hako_Pdu_Store
begin

text \<open>
  Set-up, attachment and reset of the PDU area: what \<open>create\<close>, \<open>load\<close> and \<open>reset\<close> of
  \<open>HakoPduData\<close> establish, the handshake of the first write, and what happens to a channel
  that is added once the area exists. The last section states the properties of the PDU
  store for the two shared-memory backends.
\<close>

section \<open>Creating the area\<close>

lemma pdu_bytes_emit [simp]: "pdu_bytes env (emit e w) = pdu_bytes env w"
  by simp

lemma slice_zero_splice:
  "n \<le> length mem \<Longrightarrow> off + k \<le> n \<Longrightarrow> slice (splice mem 0 (replicate n x)) off k = replicate k x"
  by (simp add: slice_def splice_def min_def)

definition created_meta :: "int \<Rightarrow> HakoPduMetaDataType \<Rightarrow> HakoPduMetaDataType" where
  "created_meta asset_num m =
     m\<lparr>mode := HakoTimeMode_Asset, pm_asset_num := asset_num, channel := assign_offsets 0 (channel m)\<rparr>"

lemma lookup_channel_cong:
  "channel_num m' = channel_num m \<Longrightarrow> channel_map m' = channel_map m \<Longrightarrow>
   lookup_channel m' name c = lookup_channel m name c"
  by (simp add: lookup_channel_def chan_matches_def [abs_def])

lemma pdu_create_unfold:
  assumes "env_init_lock env" and "\<not> pdu_ptr w"
    and "create_memory (env_shm env) HAKO_SHARED_MEMORY_ID_1 (pdu_total_size w) (asset_shmp w) = (r, shm)"
    and "lock_memory (env_shm env) HAKO_SHARED_MEMORY_ID_1 shm"
    and "pdu_total_size w \<le> length (region (env_shm env) HAKO_SHARED_MEMORY_ID_1 shm)"
    and "meta_ok b (pdu_meta_data w)"
  obtains c tr where "pdu_create env asset_num w =
      Inr \<lparr>pdu_meta_data = created_meta asset_num (pdu_meta_data w), pdu_ptr = True, pdu_channel_cache = c,
           asset_shmp = set_region (env_shm env) HAKO_SHARED_MEMORY_ID_1
             (splice (region (env_shm env) HAKO_SHARED_MEMORY_ID_1 shm) 0 (replicate (pdu_total_size w) 0)) shm,
           trace = tr\<rparr>"
    "cache_ok (created_meta asset_num (pdu_meta_data w)) c"
proof -
  let ?tr = "trace w @ [Acquire_Init_Lock, Log ''INFO'' ''PDU CREATE: asset_num = %d'',
      Log ''INFO'' ''START CREATE PDU DATA: total_size=%zu'', Lock_Memory HAKO_SHARED_MEMORY_ID_1,
      Unlock_Memory HAKO_SHARED_MEMORY_ID_1]"
  let ?w = "\<lparr>pdu_meta_data = created_meta asset_num (pdu_meta_data w), pdu_ptr = True,
      pdu_channel_cache = pdu_channel_cache w,
      asset_shmp = set_region (env_shm env) HAKO_SHARED_MEMORY_ID_1
        (splice (region (env_shm env) HAKO_SHARED_MEMORY_ID_1 shm) 0 (replicate (pdu_total_size w) 0)) shm,
      trace = ?tr\<rparr>"
  have "meta_ok b (created_meta asset_num (pdu_meta_data w))"
    using assms(6) by (simp add: meta_ok_def created_meta_def)
  then obtain c where c: "rebuild_pdu_channel_index ?w = Inr (?w\<lparr>pdu_channel_cache := c\<rparr>)"
    "cache_ok (created_meta asset_num (pdu_meta_data w)) c"
    using rebuild_pdu_channel_index_ok [of b ?w] by auto
  have "pdu_create env asset_num w = bindE (rebuild_pdu_channel_index ?w) (\<lambda>w.
      Inr (emit Release_Init_Lock (emit (Log ''INFO'' ''CREATED ADDR=%p'') w)))"
    using assms pdu_total_size_le [of w]
    by (cases w) (simp add: pdu_create_def pdu_total_size_def Let_def emit_def upd_meta_def set_pdu_bytes_def
        created_meta_def)
  then show ?thesis
    using c by (intro that) (simp_all add: emit_def)
qed

lemma pdu_create_fails:
  assumes "env_init_lock env" and "\<not> pdu_ptr w"
    and "create_memory (env_shm env) HAKO_SHARED_MEMORY_ID_1 (pdu_total_size w) (asset_shmp w) = (r, shm)"
    and "\<not> lock_memory (env_shm env) HAKO_SHARED_MEMORY_ID_1 shm"
  shows "pdu_create env asset_num w = Inl Null_Deref"
  using assms pdu_total_size_le [of w]
  by (cases w) (simp add: pdu_create_def pdu_total_size_def Let_def emit_def upd_meta_def)

text \<open>
  An object before \<open>create\<close>: well-formed idle metadata, no pointer, no region mapped under
  the key, and channel sizes whose sum is representable.
\<close>

definition pdu_fresh :: "('m \<Rightarrow> bool) \<Rightarrow> 'm pdu_env \<Rightarrow> 'm HakoPduData \<Rightarrow> bool" where
  "pdu_fresh invar env w \<longleftrightarrow>
     meta_ok (env_build env) (pdu_meta_data w) \<and> pdu_idle (pdu_meta_data w) \<and>
     \<not> pdu_ptr w \<and> invar (asset_shmp w) \<and> env_init_lock env \<and>
     \<not> lock_memory (env_shm env) HAKO_SHARED_MEMORY_ID_1 (asset_shmp w) \<and>
     sizes_total (channel (pdu_meta_data w)) \<le> UINT64_MAX"

context hako_shared_memory
begin

lemma pdu_create_ok:
  assumes env: "env_shm env = vt" and fresh: "pdu_fresh invar env w"
    and mem: "create_memory vt HAKO_SHARED_MEMORY_ID_1 (pdu_total_size w) (asset_shmp w) = (r, shm)"
    and ok: "0 \<le> r" and fits: "fits (pdu_total_size w)"
  shows "\<exists>w'. pdu_create env asset_num w = Inr w' \<and> pdu_ready invar env w' \<and>
    pdu_meta_data w' = created_meta asset_num (pdu_meta_data w) \<and>
    cache_ok (pdu_meta_data w') (pdu_channel_cache w') \<and>
    (\<forall>c < HAKO_PDU_CHANNEL_MAX (env_build env).
       channel_bytes env w' c = replicate (ch_size (channel (pdu_meta_data w) ! c)) 0)"
proof -
  let ?m = "pdu_meta_data w" and ?n = "pdu_total_size w"
  let ?mem = "region vt HAKO_SHARED_MEMORY_ID_1 shm"
  have inv: "invar shm" using create_invar fresh env mem by (metis pdu_fresh_def snd_conv)
  have maps: "lock_memory vt HAKO_SHARED_MEMORY_ID_1 shm" "?n \<le> length ?mem"
    using create_maps [OF _ fits mem ok] fresh by (simp_all add: pdu_fresh_def)
  have n: "?n = sizes_total (channel ?m)" using fresh by (simp add: pdu_total_size_eq pdu_fresh_def)
  obtain c tr where c: "pdu_create env asset_num w =
      Inr \<lparr>pdu_meta_data = created_meta asset_num ?m, pdu_ptr = True, pdu_channel_cache = c,
           asset_shmp = set_region vt HAKO_SHARED_MEMORY_ID_1 (splice ?mem 0 (replicate ?n 0)) shm, trace = tr\<rparr>"
    (is "_ = Inr ?w'")
    "cache_ok (created_meta asset_num ?m) c"
    using pdu_create_unfold [of env w r shm "env_build env" asset_num] maps mem fresh env
    by (auto simp: pdu_fresh_def)
  have lo: "laid_out (channel (created_meta asset_num ?m))"
    using fresh by (simp add: created_meta_def laid_out_assign_offsets pdu_fresh_def)
  have bytes: "pdu_bytes env ?w' = splice ?mem 0 (replicate ?n 0)"
    using region_set [OF inv maps(1)] env by simp
  have "meta_ok (env_build env) (created_meta asset_num ?m)" "pdu_idle (created_meta asset_num ?m)"
    using fresh by (simp_all add: pdu_fresh_def meta_ok_def pdu_idle_def created_meta_def)
  then have ready: "pdu_ready invar env ?w'"
    using lo maps bytes env n set_invar [OF inv] set_maps
    by (simp add: pdu_ready_def created_meta_def)
  have "channel_bytes env ?w' i = replicate (ch_size (channel ?m ! i)) 0"
    if "i < HAKO_PDU_CHANNEL_MAX (env_build env)" for i
  proof -
    have i: "i < length (channel ?m)" using that fresh by (simp add: pdu_fresh_def meta_ok_def)
    then have "ch_offset (assign_offsets 0 (channel ?m) ! i) + ch_size (channel ?m ! i) \<le> ?n"
      using laid_out_within [OF lo, of i] n by (simp add: created_meta_def)
    then show ?thesis
      using i bytes maps(2) slice_zero_splice [of ?n ?mem] unfolding channel_bytes_def
      by (simp add: created_meta_def)
  qed
  then show ?thesis using c ready by (intro exI [of _ ?w']) simp
qed

end

section \<open>Resetting the area\<close>

text \<open>An area that is created, whatever its flags are.\<close>

definition pdu_attached :: "('m \<Rightarrow> bool) \<Rightarrow> 'm pdu_env \<Rightarrow> 'm HakoPduData \<Rightarrow> bool" where
  "pdu_attached invar env w \<longleftrightarrow>
     meta_ok (env_build env) (pdu_meta_data w) \<and> pdu_ptr w \<and> invar (asset_shmp w) \<and>
     lock_memory (env_shm env) HAKO_SHARED_MEMORY_ID_1 (asset_shmp w) \<and>
     laid_out (channel (pdu_meta_data w)) \<and>
     sizes_total (channel (pdu_meta_data w)) \<le> length (pdu_bytes env w)"

lemma pdu_ready_iff: "pdu_ready invar env w \<longleftrightarrow> pdu_attached invar env w \<and> pdu_idle (pdu_meta_data w)"
  by (auto simp: pdu_ready_def pdu_attached_def)

lemma reset_meta_ok:
  "meta_ok b m \<Longrightarrow> meta_ok b (reset_meta m)" "pdu_idle (reset_meta m)"
  by (auto simp: meta_ok_def reset_meta_def pdu_idle_def)

lemma reset_meta_not_dirty:
  assumes "meta_ok b (pdu_meta_data w)" and "pdu_meta_data w' = reset_meta (pdu_meta_data w)"
    and "a < HAKO_DATA_MAX_ASSET_NUM b" and "c < HAKO_PDU_CHANNEL_MAX b"
  shows "is_pdu_dirty (int a) (int c) w' = Inr False"
proof -
  have "length (atomic_pdu_read_version (pdu_meta_data w) ! a) = HAKO_PDU_CHANNEL_MAX b"
    using assms(1,3) by (simp add: meta_ok_def)
  then show ?thesis
    using assms by (simp add: is_pdu_dirty_def reset_meta_def meta_ok_def)
qed

lemma pdu_reset_unfold:
  assumes "env_init_lock env" and "pdu_ptr w" and "pdu_total_size w \<le> length (pdu_bytes env w)"
    and "meta_ok b (pdu_meta_data w)"
  obtains c where "pdu_reset env w =
      Inr (w\<lparr>pdu_meta_data := reset_meta (pdu_meta_data w), pdu_channel_cache := c,
             asset_shmp := set_region (env_shm env) HAKO_SHARED_MEMORY_ID_1
               (splice (pdu_bytes env w) 0 (replicate (pdu_total_size w) 0)) (asset_shmp w),
             trace := trace w @ [Acquire_Init_Lock, Log ''INFO'' ''RESET EVENT OCCURED'',
               Lock_Memory HAKO_SHARED_MEMORY_ID_0, Unlock_Memory HAKO_SHARED_MEMORY_ID_0,
               Release_Init_Lock]\<rparr>)"
    "cache_ok (reset_meta (pdu_meta_data w)) c"
proof -
  let ?w = "w\<lparr>pdu_meta_data := reset_meta (pdu_meta_data w),
      asset_shmp := set_region (env_shm env) HAKO_SHARED_MEMORY_ID_1
        (splice (pdu_bytes env w) 0 (replicate (pdu_total_size w) 0)) (asset_shmp w),
      trace := trace w @ [Acquire_Init_Lock, Log ''INFO'' ''RESET EVENT OCCURED'',
        Lock_Memory HAKO_SHARED_MEMORY_ID_0, Unlock_Memory HAKO_SHARED_MEMORY_ID_0]\<rparr>"
  obtain c where c: "rebuild_pdu_channel_index ?w = Inr (?w\<lparr>pdu_channel_cache := c\<rparr>)"
    "cache_ok (reset_meta (pdu_meta_data w)) c"
    using rebuild_pdu_channel_index_ok [of b ?w] reset_meta_ok(1) [OF assms(4)] by auto
  have "channel (reset_meta m) = channel m" for m by (simp add: reset_meta_def)
  then have "pdu_reset env w = bindE (rebuild_pdu_channel_index ?w) (\<lambda>w. Inr (emit Release_Init_Lock w))"
    using assms pdu_total_size_le [of w]
    by (cases w) (simp add: pdu_reset_def pdu_total_size_def Let_def emit_def upd_meta_def set_pdu_bytes_def)
  then show ?thesis using c by (intro that) (simp_all add: emit_def)
qed

context hako_shared_memory
begin

lemma pdu_reset_ok:
  assumes env: "env_shm env = vt" "env_init_lock env" and att: "pdu_attached invar env w"
  shows "\<exists>w'. pdu_reset env w = Inr w' \<and> pdu_ready invar env w' \<and>
    pdu_meta_data w' = reset_meta (pdu_meta_data w) \<and>
    cache_ok (pdu_meta_data w') (pdu_channel_cache w') \<and>
    (\<forall>c < HAKO_PDU_CHANNEL_MAX (env_build env).
       channel_bytes env w' c = replicate (ch_size (channel (pdu_meta_data w) ! c)) 0) \<and>
    (\<forall>a < HAKO_DATA_MAX_ASSET_NUM (env_build env). \<forall>c < HAKO_PDU_CHANNEL_MAX (env_build env).
       is_pdu_dirty (int a) (int c) w' = Inr False)"
proof -
  let ?m = "pdu_meta_data w" and ?n = "pdu_total_size w" and ?mem = "pdu_bytes env w"
  have ok: "meta_ok (env_build env) ?m" "laid_out (channel ?m)" "sizes_total (channel ?m) \<le> length ?mem"
    using att by (simp_all add: pdu_attached_def)
  then have n: "?n = sizes_total (channel ?m)" by (simp add: pdu_total_size_eq laid_out_def)
  obtain c where c: "pdu_reset env w =
      Inr (w\<lparr>pdu_meta_data := reset_meta ?m, pdu_channel_cache := c,
             asset_shmp := set_region (env_shm env) HAKO_SHARED_MEMORY_ID_1
               (splice ?mem 0 (replicate ?n 0)) (asset_shmp w),
             trace := trace w @ [Acquire_Init_Lock, Log ''INFO'' ''RESET EVENT OCCURED'',
               Lock_Memory HAKO_SHARED_MEMORY_ID_0, Unlock_Memory HAKO_SHARED_MEMORY_ID_0,
               Release_Init_Lock]\<rparr>)" (is "_ = Inr ?w'")
    "cache_ok (reset_meta ?m) c"
    using pdu_reset_unfold [of env w "env_build env"] env att n ok by (auto simp: pdu_attached_def)
  have bytes: "pdu_bytes env ?w' = splice ?mem 0 (replicate ?n 0)"
    using region_set att env by (simp add: pdu_attached_def)
  have ch: "channel (reset_meta ?m) = channel ?m" by (simp add: reset_meta_def)
  have ready: "pdu_ready invar env ?w'"
    using att bytes env n ok set_invar set_maps ch reset_meta_ok(1) [OF ok(1)] reset_meta_ok(2)
    by (simp add: pdu_ready_iff pdu_attached_def)
  have "channel_bytes env ?w' i = replicate (ch_size (channel ?m ! i)) 0"
    if "i < HAKO_PDU_CHANNEL_MAX (env_build env)" for i
  proof -
    have i: "i < length (channel ?m)" using that ok(1) by (simp add: meta_ok_def)
    then show ?thesis
      using i bytes ok(3) n laid_out_within [OF ok(2) i] slice_zero_splice [of ?n ?mem]
      unfolding channel_bytes_def by (simp add: ch)
  qed
  then show ?thesis
    using c ready reset_meta_not_dirty [OF ok(1), of ?w'] by (intro exI [of _ ?w']) simp
qed

end

section \<open>The handshake of the first write\<close>

fun notify_all :: "hako_build \<Rightarrow> nat list \<Rightarrow> 'm HakoPduData \<Rightarrow> 'm HakoPduData result" where
  "notify_all b [] w = Inr w"
| "notify_all b (a # as) w = bindE (notify_write_pdu_done b (int a) w) (\<lambda>w. notify_all b as w)"

definition notified :: "'m HakoPduData \<Rightarrow> nat set" where
  "notified w = {i. i < length (asset_pdu_check_status (pdu_meta_data w)) \<and>
                    asset_pdu_check_status (pdu_meta_data w) ! i}"

lemma count_if_card: "count_if (\<lambda>x. x) xs = card {i. i < length xs \<and> xs ! i}"
  by (simp add: count_if_def length_filter_conv_card)

lemma notify_master_noop:
  "is_simulation_mode w \<Longrightarrow> notify_all b as w = Inr w"
  by (induction as) (simp_all add: notify_write_pdu_done_def is_simulation_mode_def)

lemma notify_step:
  assumes "mode (pdu_meta_data w) = HakoTimeMode_Asset" and "a < HAKO_DATA_MAX_ASSET_NUM b"
    and "length (asset_pdu_check_status (pdu_meta_data w)) = HAKO_DATA_MAX_ASSET_NUM b"
  obtains w' where "notify_write_pdu_done b (int a) w = Inr w'"
    "notified w' = insert a (notified w)"
    "pm_asset_num (pdu_meta_data w') = pm_asset_num (pdu_meta_data w)"
    "length (asset_pdu_check_status (pdu_meta_data w')) = HAKO_DATA_MAX_ASSET_NUM b"
    "mode (pdu_meta_data w') =
       (if pm_asset_num (pdu_meta_data w) \<le> int (card (insert a (notified w)))
        then HakoTimeMode_Master else HakoTimeMode_Asset)"
proof -
  let ?m = "pdu_meta_data w"
  let ?st = "(asset_pdu_check_status ?m)[a := True]"
  have set: "{i. i < length ?st \<and> ?st ! i} = insert a (notified w)"
    using assms(2,3) by (auto simp: notified_def nth_list_update)
  let ?w = "upd_meta (\<lambda>m. m\<lparr>asset_pdu_check_status := ?st\<rparr>) w"
  let ?w' = "if pm_asset_num ?m \<le> int (card (insert a (notified w)))
      then upd_meta (\<lambda>m. m\<lparr>mode := HakoTimeMode_Master\<rparr>) ?w else ?w"
  have "notify_write_pdu_done b (int a) w = Inr ?w'"
    using assms set by (simp add: notify_write_pdu_done_def Let_def count_if_card)
  then show ?thesis
    using set assms by (intro that [of ?w']) (auto simp: notified_def)
qed

lemma notify_all_mode:
  assumes "mode (pdu_meta_data w) = HakoTimeMode_Asset" and "\<forall>a \<in> set as. a < HAKO_DATA_MAX_ASSET_NUM b"
    and "length (asset_pdu_check_status (pdu_meta_data w)) = HAKO_DATA_MAX_ASSET_NUM b"
    and "int (card (notified w)) < pm_asset_num (pdu_meta_data w)"
  shows "\<exists>w'. notify_all b as w = Inr w' \<and>
    (is_simulation_mode w' \<longleftrightarrow> pm_asset_num (pdu_meta_data w) \<le> int (card (notified w \<union> set as)))"
  using assms
proof (induction as arbitrary: w)
  case Nil
  then show ?case by (simp add: is_simulation_mode_def)
next
  case (Cons a as)
  have "a < HAKO_DATA_MAX_ASSET_NUM b" using Cons.prems(2) by simp
  from notify_step [OF Cons.prems(1) this Cons.prems(3)] obtain w1 where
    w1: "notify_write_pdu_done b (int a) w = Inr w1" "notified w1 = insert a (notified w)"
    "pm_asset_num (pdu_meta_data w1) = pm_asset_num (pdu_meta_data w)"
    "length (asset_pdu_check_status (pdu_meta_data w1)) = HAKO_DATA_MAX_ASSET_NUM b"
    "mode (pdu_meta_data w1) =
       (if pm_asset_num (pdu_meta_data w) \<le> int (card (insert a (notified w)))
        then HakoTimeMode_Master else HakoTimeMode_Asset)" by blast
  have fin: "finite (notified w \<union> set (a # as))" by (simp add: notified_def)
  show ?case
  proof (cases "pm_asset_num (pdu_meta_data w) \<le> int (card (insert a (notified w)))")
    case True
    then have "is_simulation_mode w1" using w1(5) by (simp add: is_simulation_mode_def)
    moreover have "card (insert a (notified w)) \<le> card (notified w \<union> set (a # as))"
      using fin by (intro card_mono) auto
    ultimately show ?thesis using w1(1) notify_master_noop [of w1] True by auto
  next
    case False
    then obtain w' where "notify_all b as w1 = Inr w'"
      "is_simulation_mode w' \<longleftrightarrow> pm_asset_num (pdu_meta_data w1) \<le> int (card (notified w1 \<union> set as))"
      using Cons.IH [of w1] Cons.prems w1 by auto
    then show ?thesis using w1 by simp
  qed
qed

section \<open>Versions\<close>

lemma store_dirty_abs:
  assumes "meta_ok b (pdu_meta_data w)" and "a < HAKO_DATA_MAX_ASSET_NUM b" and "c < HAKO_PDU_CHANNEL_MAX b"
  shows "is_pdu_dirty (int a) (int c) w = Inr (store_dirty a c (abs_store env w))"
proof -
  have "length (atomic_pdu_read_version (pdu_meta_data w) ! a) = HAKO_PDU_CHANNEL_MAX b"
    using assms(1,2) by (simp add: meta_ok_def)
  then show ?thesis
    using assms by (simp add: is_pdu_dirty_def store_dirty_def abs_store_def meta_ok_def)
qed

lemma store_writes_wver:
  "\<forall>bs \<in> set bss. length bs \<le> length (store_bytes s c) \<Longrightarrow> c < n \<Longrightarrow>
   \<exists>s'. store_run n (map (Write_Pdu c) bss) s = (replicate (length bss) (Some []), s') \<and>
     store_rver s' = store_rver s \<and> store_wver s' c = store_wver s c + of_nat (length bss)"
proof (induction bss arbitrary: s)
  case (Cons bs bss)
  have "\<forall>bs' \<in> set bss. length bs' \<le> length (store_bytes (store_write c bs s) c)"
    using Cons.prems by (auto simp: store_write_def)
  then obtain s' where "store_run n (map (Write_Pdu c) bss) (store_write c bs s) =
        (replicate (length bss) (Some []), s')" "store_rver s' = store_rver (store_write c bs s)"
      "store_wver s' c = store_wver (store_write c bs s) c + of_nat (length bss)"
    using Cons.IH [of "store_write c bs s"] Cons.prems(2) by blast
  then show ?case using Cons.prems by (simp add: store_write_def algebra_simps)
qed simp

section \<open>Two processes on one area\<close>

text \<open>
  The object of a second process over what the first one left: the metadata and the
  mapped files are shared, the pointer, the cache, the key map and the outcomes of its
  system calls are its own. The mmap backend is the one that identifies a region by a file.
\<close>

definition sees :: "mmap_state HakoPduData \<Rightarrow> mmap_state HakoPduData \<Rightarrow> mmap_state HakoPduData" where
  "sees v w = v\<lparr>pdu_meta_data := pdu_meta_data w,
               asset_shmp := (asset_shmp v)\<lparr>mm_files := mm_files (asset_shmp w)\<rparr>\<rparr>"

abbreviation mmap_env :: "mmap_state pdu_env \<Rightarrow> bool" where
  "mmap_env env \<equiv> env_shm env = HakoSharedMemoryMmap"

lemma sees_simps [simp]:
  "pdu_meta_data (sees v w) = pdu_meta_data w"
  "pdu_ptr (sees v w) = pdu_ptr v"
  "pdu_channel_cache (sees v w) = pdu_channel_cache v"
  "mm_files (asset_shmp (sees v w)) = mm_files (asset_shmp w)"
  "mm_map (asset_shmp (sees v w)) = mm_map (asset_shmp v)"
  "mm_os (asset_shmp (sees v w)) = mm_os (asset_shmp v)"
  by (simp_all add: sees_def)

lemma mmap_vt [simp]:
  "region HakoSharedMemoryMmap = mmap_region" "set_region HakoSharedMemoryMmap = mmap_set_region"
  "lock_memory HakoSharedMemoryMmap = mmap_lock_memory" "create_memory HakoSharedMemoryMmap = mmap_create_memory"
  "load_memory HakoSharedMemoryMmap = mmap_load_memory" "destroy_memory HakoSharedMemoryMmap = mmap_destroy_memory"
  by (simp_all add: HakoSharedMemoryMmap_def)

lemma mmap_region_sees:
  "mm_files m = mm_files m' \<Longrightarrow> mmap_region key m = mmap_region key m'"
  by (simp add: mmap_region_def)

lemma abs_store_sees:
  assumes "mmap_env env" and "mm_files (asset_shmp v) = mm_files (asset_shmp w)"
    and "pdu_meta_data v = pdu_meta_data w"
  shows "abs_store env v = abs_store env w"
proof -
  have "channel_bytes env v = channel_bytes env w"
    using assms(1,3) mmap_region_sees [OF assms(2)] by (intro ext) (simp add: channel_bytes_def)
  then show ?thesis using assms(3) by (simp add: abs_store_def)
qed

lemma pdu_ready_sees:
  assumes "mmap_env env" and "pdu_ready mmap_invar env w" and "pdu_ptr v"
    and "mm_map (asset_shmp v) HAKO_SHARED_MEMORY_ID_1 \<noteq> None" and "mmap_invar (asset_shmp (sees v w))"
  shows "pdu_ready mmap_invar env (sees v w)"
  using assms mmap_region_sees [of "asset_shmp (sees v w)" "asset_shmp w"]
  by (simp add: pdu_ready_def mmap_lock_memory_def)

lemma mmap_set_region_dom [simp]: "dom (mm_files (mmap_set_region key bs m)) = dom (mm_files m)"
  by (auto simp: mmap_set_region_def split: option.splits if_splits)

text \<open>The file of the area after \<open>create\<close>: its header says how many bytes it holds.\<close>

definition area_header_ok :: "mmap_state HakoPduData \<Rightarrow> bool" where
  "area_header_ok w \<longleftrightarrow>
     (\<exists>f. mm_files (asset_shmp w) HAKO_SHARED_MEMORY_ID_1 = Some f \<and> magic f = HAKO_SHM_MAGIC \<and>
          version f = HAKO_SHM_LAYOUT_VERSION \<and> data_size f = pdu_total_size w)"

definition os_maps :: "mmap_os \<Rightarrow> bool" where
  "os_maps os \<longleftrightarrow> os_malloc os \<and> os_open os \<and> os_mmap os"

lemma mmap_create_header:
  assumes "mmap_create_memory key sz m = (r, m')" and "0 \<le> r"
  shows "\<exists>f. mm_files m' key = Some f \<and> magic f = HAKO_SHM_MAGIC \<and>
    version f = HAKO_SHM_LAYOUT_VERSION \<and> data_size f = sz"
  using assms by (auto simp: mmap_create_memory_def Let_def split: if_splits prod.splits)

lemma pdu_create_header:
  assumes "mmap_env env" and "pdu_fresh mmap_invar env w"
    and "mmap_create_memory HAKO_SHARED_MEMORY_ID_1 (pdu_total_size w) (asset_shmp w) = (r, shm)" and "0 \<le> r"
    and "pdu_create env asset_num w = Inr w'"
  shows "area_header_ok w'"
proof -
  obtain f where f: "mm_files shm HAKO_SHARED_MEMORY_ID_1 = Some f" "magic f = HAKO_SHM_MAGIC"
    "version f = HAKO_SHM_LAYOUT_VERSION" "data_size f = pdu_total_size w"
    using mmap_create_header [OF assms(3,4)] by blast
  have maps: "mm_map shm HAKO_SHARED_MEMORY_ID_1 \<noteq> None"
    "pdu_total_size w \<le> length (mmap_region HAKO_SHARED_MEMORY_ID_1 shm)"
    using mmap_create_maps [OF assms(3,4)] by simp_all
  obtain c tr where "pdu_create env asset_num w =
      Inr \<lparr>pdu_meta_data = created_meta asset_num (pdu_meta_data w), pdu_ptr = True, pdu_channel_cache = c,
           asset_shmp = mmap_set_region HAKO_SHARED_MEMORY_ID_1
             (splice (mmap_region HAKO_SHARED_MEMORY_ID_1 shm) 0 (replicate (pdu_total_size w) 0)) shm,
           trace = tr\<rparr>" "cache_ok (created_meta asset_num (pdu_meta_data w)) c"
    using pdu_create_unfold [of env w r shm "env_build env" asset_num] maps assms(1-4)
    by (auto simp: pdu_fresh_def mmap_lock_memory_def)
  with assms(5) have w': "asset_shmp w' = mmap_set_region HAKO_SHARED_MEMORY_ID_1
      (splice (mmap_region HAKO_SHARED_MEMORY_ID_1 shm) 0 (replicate (pdu_total_size w) 0)) shm"
    "pdu_meta_data w' = created_meta asset_num (pdu_meta_data w)" by auto
  have "pdu_total_size w' = pdu_total_size w"
    unfolding pdu_total_size_eq w'(2) by (simp add: created_meta_def)
  then show ?thesis
    using f by (simp add: area_header_ok_def w'(1) mmap_set_region_def)
qed

lemma pdu_load_unfold:
  assumes "env_init_lock env" and "\<not> pdu_ptr w" and "meta_ok b (pdu_meta_data w)"
    and "load_memory (env_shm env) HAKO_SHARED_MEMORY_ID_1 (pdu_total_size w) (asset_shmp w) = (ok, shm)"
  obtains (loaded) c tr where "ok" "pdu_load env w =
      Inr (True, w\<lparr>pdu_ptr := True, pdu_channel_cache := c, asset_shmp := shm, trace := tr\<rparr>)"
      "cache_ok (pdu_meta_data w) c"
    | (refused) tr where "\<not> ok" "pdu_load env w = Inr (False, w\<lparr>asset_shmp := shm, trace := tr\<rparr>)"
proof (cases ok)
  case True
  let ?w = "w\<lparr>pdu_ptr := True, asset_shmp := shm,
      trace := trace w @ [Acquire_Init_Lock, Log ''INFO'' ''LOADED PDU DATA'']\<rparr>"
  obtain c where c: "rebuild_pdu_channel_index ?w = Inr (?w\<lparr>pdu_channel_cache := c\<rparr>)"
    "cache_ok (pdu_meta_data w) c"
    using rebuild_pdu_channel_index_ok [of b ?w] assms(3) by auto
  have "pdu_load env w = bindE (rebuild_pdu_channel_index ?w) (\<lambda>w. Inr (True, emit Release_Init_Lock w))"
    using assms True pdu_total_size_le [of w]
    by (cases w) (simp add: pdu_load_def pdu_total_size_def Let_def emit_def)
  then show ?thesis
    using c True by (intro loaded [of "trace ?w @ [Release_Init_Lock]" c]) (simp_all add: emit_def)
next
  case False
  then show ?thesis
    using assms pdu_total_size_le [of w]
    by (intro refused [of "trace w @ [Acquire_Init_Lock, Release_Init_Lock]"])
      (simp_all add: pdu_load_def pdu_total_size_def Let_def emit_def)
qed

lemma pdu_load_sees:
  assumes env: "mmap_env env" "env_init_lock env" and w: "pdu_ready mmap_invar env w" "area_header_ok w"
    and v: "\<not> pdu_ptr v" "mm_map (asset_shmp v) HAKO_SHARED_MEMORY_ID_1 = None"
      "os_maps (mm_os (asset_shmp v))" "mmap_invar (asset_shmp (sees v w))"
    and nz: "pdu_total_size w \<noteq> 0"
  obtains v' where "pdu_load env (sees v w) = Inr (True, v')" "pdu_ready mmap_invar env v'"
    "abs_store env v' = abs_store env w" "cache_ok (pdu_meta_data w) (pdu_channel_cache v')"
    "pdu_meta_data v' = pdu_meta_data w" "mm_files (asset_shmp v') = mm_files (asset_shmp w)"
proof -
  let ?s = "sees v w"
  have tot: "pdu_total_size ?s = pdu_total_size w" by (simp add: pdu_total_size_def)
  have load: "fst (mmap_load_memory HAKO_SHARED_MEMORY_ID_1 (pdu_total_size ?s) (asset_shmp ?s))"
    using w(2) v nz tot
    by (auto simp: area_header_ok_def mmap_load_memory_def hako_mmap_open_def os_maps_def Let_def)
  obtain shm where shm: "mmap_load_memory HAKO_SHARED_MEMORY_ID_1 (pdu_total_size ?s) (asset_shmp ?s) = (True, shm)"
    using load by (cases "mmap_load_memory HAKO_SHARED_MEMORY_ID_1 (pdu_total_size ?s) (asset_shmp ?s)") simp
  then have facts: "mm_files shm = mm_files (asset_shmp w)" "mm_map shm HAKO_SHARED_MEMORY_ID_1 \<noteq> None"
    by (auto simp: mmap_load_memory_def Let_def split: if_splits)
  have inv: "mmap_invar shm"
    using mmap.load_invar [OF v(4), of HAKO_SHARED_MEMORY_ID_1 "pdu_total_size ?s"] shm by simp
  have ok: "meta_ok (env_build env) (pdu_meta_data ?s)" using w(1) by (simp add: pdu_ready_def)
  show ?thesis
  proof (rule pdu_load_unfold [OF env(2) _ ok, of True shm])
    fix c tr
    assume run: "pdu_load env ?s =
        Inr (True, ?s\<lparr>pdu_ptr := True, pdu_channel_cache := c, asset_shmp := shm, trace := tr\<rparr>)"
      and c: "cache_ok (pdu_meta_data ?s) c"
    have ready: "pdu_ready mmap_invar env
        (?s\<lparr>pdu_ptr := True, pdu_channel_cache := c, asset_shmp := shm, trace := tr\<rparr>)"
      using w(1) facts inv env(1) mmap_region_sees [OF facts(1)]
      by (simp add: pdu_ready_def mmap_lock_memory_def)
    have "abs_store env (?s\<lparr>pdu_ptr := True, pdu_channel_cache := c, asset_shmp := shm, trace := tr\<rparr>) =
        abs_store env w"
      using facts(1) by (intro abs_store_sees [OF env(1)]) simp_all
    then show ?thesis using c facts(1) by (intro that [OF run ready]) simp_all
  qed (use v(1) shm env(1) in simp_all)
qed

section \<open>Accesses that fault\<close>

lemma write_pdu_reaches_copy:
  assumes "meta_ok (env_build env) (pdu_meta_data w)" and "pdu_idle (pdu_meta_data w)"
    and "c < HAKO_PDU_CHANNEL_MAX (env_build env)" and "len \<le> ch_size (channel (pdu_meta_data w) ! c)"
    and "ensure_loaded env w = Inr w1" and "pdu_meta_data w1 = pdu_meta_data w"
    and "ch_offset (channel (pdu_meta_data w) ! c) \<le> SIZE_MAX"
    and "copy_in env (ch_offset (channel (pdu_meta_data w) ! c)) data len
           (upd_meta (\<lambda>m. m\<lparr>atomic_is_wbusy := (atomic_is_wbusy (pdu_meta_data w))[c := True]\<rparr>) w1) = Inl e"
  shows "write_pdu env (int c) data len w = Inl e"
proof -
  let ?w = "upd_meta (\<lambda>m. m\<lparr>atomic_is_wbusy := (atomic_is_wbusy (pdu_meta_data w))[c := True]\<rparr>) w1"
  note lens = assms(1) [unfolded meta_ok_def]
  have "is_pdu_rbusy (int c) w1 = Inr False"
    using idle_not_rbusy [of "env_build env" w1 c] assms by simp
  then have "is_pdu_rbusy (int c) ?w = Inr False" by (simp add: is_pdu_rbusy_def cong: if_cong)
  then show ?thesis
    using assms lens by (simp add: write_pdu_def set_pdu_wbusy_status_def)
qed

lemma sizes_before_unused:
  assumes "\<forall>i < length cs. k \<le> i \<longrightarrow> ch_size (cs ! i) = 0"
  shows "sizes_before cs k = sizes_total cs"
proof -
  have "\<forall>c \<in> set (drop k cs). ch_size c = 0" using assms by (auto simp: in_set_conv_nth)
  then have "sum_list (map ch_size (drop k cs)) = 0" by (simp add: sum_list_eq_0_iff)
  moreover have "sizes_total (take k cs @ drop k cs) = sizes_before cs k + sum_list (map ch_size (drop k cs))"
    by (simp only: map_append sum_list_append)
  ultimately show ?thesis by simp
qed

text \<open>A channel made by \<open>create_lchannel\<close> after \<open>create\<close> begins where the area ends.\<close>

lemma late_channel_offset:
  assumes "pdu_attached invar env w" and "chan_inv (env_build env) w"
    and "channels_used w < HAKO_PDU_CHANNEL_MAX (env_build env)"
    and "adds_channel name channel_id sz (pdu_meta_data w) m'"
  shows "ch_offset (channel m' ! channels_used w) = sizes_total (channel (pdu_meta_data w))"
    and "ch_size (channel m' ! channels_used w) = sz"
    and "sizes_total (channel m') = sizes_total (channel (pdu_meta_data w)) + sz"
proof -
  let ?cs = "channel (pdu_meta_data w)" and ?k = "channels_used w"
  have k: "?k < length ?cs" using assms(2,3) by (simp add: chan_inv_def meta_ok_def)
  have free: "\<forall>i < length ?cs. ?k \<le> i \<longrightarrow> ch_size (?cs ! i) = 0"
    using assms(2) by (auto simp: chan_inv_def table_compact_def channels_used_def)
  have cs': "channel m' = ?cs[?k := (?cs ! ?k)\<lparr>ch_size := sz\<rparr>]"
    using assms(4) by (simp add: adds_channel_def channels_used_def)
  show "ch_size (channel m' ! ?k) = sz" using k cs' by simp
  show "ch_offset (channel m' ! ?k) = sizes_total ?cs"
    using k cs' assms(1) sizes_before_unused [OF free] by (simp add: pdu_attached_def laid_out_def)
  have "ch_size (?cs ! ?k) = 0" using free k by simp
  moreover have "sizes_total (channel m') = sizes_total ?cs + sz - ch_size (?cs ! ?k)"
    using k unfolding cs' map_update by (simp add: sum_list_update)
  ultimately show "sizes_total (channel m') = sizes_total ?cs + sz" by simp
qed

end
