(* ===== verification/Hako_Pdu_Theorems.thy ===== *)
theory Hako_Pdu_Theorems
  imports Hako_Pdu_Setup
begin

text \<open>
  The properties of the PDU store: layout, refinement of an abstract store by sequences
  of reads and writes, version counters, reset, the start-up handshake, the view of a
  second process, and the behaviour on the failure paths of set-up and attachment.
\<close>

section \<open>Concrete objects for the examples\<close>

definition good_os :: mmap_os where
  "good_os = \<lparr>os_malloc = True, os_open_creat = True, os_truncate = True, os_open = True, os_mmap = True,
              os_flock_create = (\<lambda>_. 1)\<rparr>"

definition demo_env :: "mmap_state pdu_env" where
  "demo_env = \<lparr>env_build = small_build, env_shm = HakoSharedMemoryMmap, env_init_lock = True\<rparr>"

definition demo_shm :: mmap_state where
  "demo_shm = \<lparr>mm_files = Map.empty, mm_map = Map.empty, mm_os = good_os\<rparr>"

definition demo_pdu :: "mmap_state HakoPduData" where
  "demo_pdu = upd_meta (\<lambda>m. m\<lparr>channel_num := 2,
       channel := [\<lparr>ch_offset = 0, ch_size = 4\<rparr>, \<lparr>ch_offset = 0, ch_size = 2\<rparr>, \<lparr>ch_offset = 0, ch_size = 0\<rparr>]\<rparr>)
     (empty_pdu demo_shm)"

lemma demo_build [simp]:
  "env_build demo_env = small_build" "env_shm demo_env = HakoSharedMemoryMmap" "env_init_lock demo_env"
  by (simp_all add: demo_env_def)

lemma demo_channels [simp]:
  "channel (pdu_meta_data demo_pdu) =
     [\<lparr>ch_offset = 0, ch_size = 4\<rparr>, \<lparr>ch_offset = 0, ch_size = 2\<rparr>, \<lparr>ch_offset = 0, ch_size = 0\<rparr>]"
  "asset_shmp demo_pdu = demo_shm" "pdu_total_size demo_pdu = 6"
  by (simp_all add: demo_pdu_def empty_pdu_def upd_meta_def pdu_total_size_def SIZE_MAX_def)

lemma demo_fresh: "pdu_fresh mmap_invar demo_env demo_pdu"
  by (simp add: pdu_fresh_def demo_pdu_def empty_pdu_def upd_meta_def meta_ok_def zero_meta_def Let_def
      pdu_idle_def demo_shm_def mmap_invar_def mmap_lock_memory_def SIZE_MAX_def)

lemma demo_create_memory:
  "\<exists>m. mmap_create_memory HAKO_SHARED_MEMORY_ID_1 6 demo_shm = (0, m) \<and>
     mm_map m HAKO_SHARED_MEMORY_ID_1 \<noteq> None \<and> length (mmap_region HAKO_SHARED_MEMORY_ID_1 m) = 14"
  by (simp add: mmap_create_memory_def hako_mmap_create_def demo_shm_def good_os_def Let_def
      sizeof_defs OFF_MAX_def map_insert_def mmap_region_def zero_region_def)

lemma demo_created:
  obtains w where "pdu_create demo_env 1 demo_pdu = Inr w" "pdu_ready mmap_invar demo_env w"
    "pdu_meta_data w = created_meta 1 (pdu_meta_data demo_pdu)"
    "\<forall>c < 3. channel_bytes demo_env w c = replicate (ch_size (channel (pdu_meta_data demo_pdu) ! c)) 0"
    "area_header_ok w"
proof -
  obtain m where m: "mmap_create_memory HAKO_SHARED_MEMORY_ID_1 6 demo_shm = (0, m)"
    using demo_create_memory by blast
  have fits: "mmap_fits (pdu_total_size demo_pdu)" by (simp add: mmap_fits_def)
  obtain w where w: "pdu_create demo_env 1 demo_pdu = Inr w" "pdu_ready mmap_invar demo_env w"
    "pdu_meta_data w = created_meta 1 (pdu_meta_data demo_pdu)"
    "\<forall>c < 3. channel_bytes demo_env w c = replicate (ch_size (channel (pdu_meta_data demo_pdu) ! c)) 0"
    using mmap.pdu_create_ok [OF demo_build(2) demo_fresh, of 0 m 1, OF _ _ fits] m by auto
  moreover have "area_header_ok w"
    using pdu_create_header [OF demo_build(2) demo_fresh _ _ w(1), of 0 m] m by simp
  ultimately show ?thesis by (rule that)
qed

lemma demo_created_channels:
  assumes "pdu_meta_data w = created_meta 1 (pdu_meta_data demo_pdu)"
  shows "channel (pdu_meta_data w) =
    [\<lparr>ch_offset = 0, ch_size = 4\<rparr>, \<lparr>ch_offset = 4, ch_size = 2\<rparr>, \<lparr>ch_offset = 6, ch_size = 0\<rparr>]"
  using assms by (simp add: created_meta_def SIZE_MAX_def)

section \<open>Layout and refinement\<close>

text \<open>
  C4: When the creation of the shared memory succeeds, \<open>create\<close> gives every channel an
  extent of its size inside the area, extents of different channels are disjoint, every
  byte of every channel is zero, the time mode is the assets' and the number of expected
  assets is recorded.
\<close>

theorem pdu_create_lays_out:
  assumes "env_shm env = HakoSharedMemoryMmap" and "pdu_fresh mmap_invar env w"
    and "mmap_create_memory HAKO_SHARED_MEMORY_ID_1 (pdu_total_size w) (asset_shmp w) = (r, shm)" and "0 \<le> r"
  shows "\<exists>w'. pdu_create env asset_num w = Inr w' \<and> pdu_ready mmap_invar env w' \<and>
    mode (pdu_meta_data w') = HakoTimeMode_Asset \<and> pm_asset_num (pdu_meta_data w') = asset_num \<and>
    (let cs = channel (pdu_meta_data w') in
       map ch_size cs = map ch_size (channel (pdu_meta_data w)) \<and>
       (\<forall>i < length cs. ch_offset (cs ! i) + ch_size (cs ! i) \<le> length (pdu_bytes env w') \<and>
          channel_bytes env w' i = replicate (ch_size (cs ! i)) 0 \<and>
          (\<forall>j < i. ch_offset (cs ! j) + ch_size (cs ! j) \<le> ch_offset (cs ! i))))"
proof -
  have fits: "mmap_fits (pdu_total_size w)" by (simp add: mmap_fits_def)
  obtain w' where w': "pdu_create env asset_num w = Inr w'" "pdu_ready mmap_invar env w'"
    "pdu_meta_data w' = created_meta asset_num (pdu_meta_data w)"
    "\<forall>c < HAKO_PDU_CHANNEL_MAX (env_build env).
       channel_bytes env w' c = replicate (ch_size (channel (pdu_meta_data w) ! c)) 0"
    using mmap.pdu_create_ok [OF assms(1,2) _ assms(4) fits, of shm asset_num] assms(3) by auto
  let ?cs = "channel (pdu_meta_data w')"
  have len: "length ?cs = HAKO_PDU_CHANNEL_MAX (env_build env)" and lo: "laid_out ?cs"
    using w'(2) by (simp_all add: pdu_ready_def meta_ok_def)
  have cs: "?cs = assign_offsets 0 (channel (pdu_meta_data w))" using w'(3) by (simp add: created_meta_def)
  have "ch_offset (?cs ! i) + ch_size (?cs ! i) \<le> length (pdu_bytes env w') \<and>
      channel_bytes env w' i = replicate (ch_size (?cs ! i)) 0 \<and>
      (\<forall>j < i. ch_offset (?cs ! j) + ch_size (?cs ! j) \<le> ch_offset (?cs ! i))"
    if "i < length ?cs" for i
    using that lo len cs w'(4) pdu_ready_within(2) [OF w'(2), of i] sizes_before_mono [of _ i ?cs]
    by (auto simp: laid_out_def)
  then show ?thesis using w' cs by (auto simp: Let_def created_meta_def)
qed

theorem pdu_create_lays_out_witness:
  "\<exists>w'. pdu_create demo_env 2 demo_pdu = Inr w' \<and> pdu_ready mmap_invar demo_env w' \<and>
    pm_asset_num (pdu_meta_data w') = 2"
proof -
  obtain m where "mmap_create_memory HAKO_SHARED_MEMORY_ID_1 6 demo_shm = (0, m)"
    using demo_create_memory by blast
  then show ?thesis using pdu_create_lays_out [OF demo_build(2) demo_fresh, of 0 m 2] by auto
qed

text \<open>
  C2: Every sequence of reads and writes, of all five kinds and with the rejected ones
  included, returns what the same sequence returns on the abstract store and ends in the
  corresponding store: a read returns the bytes last written to its channel, a write to
  one channel leaves every other channel alone, and no call faults.
\<close>

theorem pdu_accesses_refine_store:
  assumes "env_shm env = HakoSharedMemoryMmap" and "pdu_ready mmap_invar env w"
    and "\<forall>cmd \<in> set cmds. cmd_asset_ok (HAKO_DATA_MAX_ASSET_NUM (env_build env)) cmd"
  shows "\<exists>rs w'. run_all (pdu_exec env) cmds w = Inr (rs, w') \<and> pdu_ready mmap_invar env w' \<and>
    store_run (HAKO_PDU_CHANNEL_MAX (env_build env)) cmds (abs_store env w) = (rs, abs_store env w')"
  by (rule mmap.pdu_run_refines [OF assms])

theorem pdu_accesses_refine_store_witness:
  "\<exists>w w'. pdu_create demo_env 1 demo_pdu = Inr w \<and>
    run_all (pdu_exec demo_env) [Write_Pdu 0 [7, 8], Write_Pdu 1 [9], Write_Pdu 1 [1, 2, 3], Read_Pdu 1 0 4] w =
      Inr ([Some [], Some [], None, Some [7, 8, 0, 0]], w')"
proof -
  obtain w where w: "pdu_create demo_env 1 demo_pdu = Inr w" "pdu_ready mmap_invar demo_env w"
    "pdu_meta_data w = created_meta 1 (pdu_meta_data demo_pdu)"
    "\<forall>c < 3. channel_bytes demo_env w c = replicate (ch_size (channel (pdu_meta_data demo_pdu) ! c)) 0"
    using demo_created by metis
  have "channel_bytes demo_env w 0 = [0, 0, 0, 0]" "channel_bytes demo_env w 1 = [0, 0]"
    using w(4) by (simp_all add: numeral_eq_Suc)
  then show ?thesis
    using pdu_accesses_refine_store [OF demo_build(2) w(2),
        of "[Write_Pdu 0 [7, 8], Write_Pdu 1 [9], Write_Pdu 1 [1, 2, 3], Read_Pdu 1 0 4]"] w(1)
    by (auto simp: store_write_def)
qed

text \<open>
  After \<open>n\<close> writes to a channel that an asset had read up to date, the asset sees the
  channel as dirty exactly if \<open>n\<close> is not a multiple of \<open>2 ^ 32\<close>: the versions are
  unsigned 32-bit counters that wrap around.
\<close>

lemma dirty_after_writes:
  assumes "env_shm env = HakoSharedMemoryMmap" and "pdu_ready mmap_invar env w"
    and "a < HAKO_DATA_MAX_ASSET_NUM (env_build env)" and "c < HAKO_PDU_CHANNEL_MAX (env_build env)"
    and "is_pdu_dirty (int a) (int c) w = Inr False"
    and "\<forall>bs \<in> set bss. length bs \<le> ch_size (channel (pdu_meta_data w) ! c)"
  shows "\<exists>w'. run_all (pdu_exec env) (map (Write_Pdu c) bss) w = Inr (replicate (length bss) (Some []), w') \<and>
    is_pdu_dirty (int a) (int c) w' = Inr (\<not> 2 ^ 32 dvd length bss)"
proof -
  have len: "\<forall>bs \<in> set bss. length bs \<le> length (store_bytes (abs_store env w) c)"
    using assms(6) length_channel_bytes [OF assms(2,4)] by simp
  obtain rs w' where run: "run_all (pdu_exec env) (map (Write_Pdu c) bss) w = Inr (rs, w')"
    "pdu_ready mmap_invar env w'" "store_run (HAKO_PDU_CHANNEL_MAX (env_build env)) (map (Write_Pdu c) bss)
      (abs_store env w) = (rs, abs_store env w')"
    using mmap.pdu_run_refines [OF assms(1,2), of "map (Write_Pdu c) bss"] by auto
  have st: "rs = replicate (length bss) (Some [])" "store_rver (abs_store env w') = store_rver (abs_store env w)"
    "store_wver (abs_store env w') c = store_wver (abs_store env w) c + of_nat (length bss)"
    using store_writes_wver [OF len assms(4)] run(3) by auto
  have ok: "meta_ok (env_build env) (pdu_meta_data w)" "meta_ok (env_build env) (pdu_meta_data w')"
    using assms(2) run(2) by (simp_all add: pdu_ready_def)
  have "store_rver (abs_store env w) a c = store_wver (abs_store env w) c"
    using assms(5) store_dirty_abs [OF ok(1) assms(3,4), of env] by (simp add: store_dirty_def)
  then have "store_dirty a c (abs_store env w') \<longleftrightarrow> (of_nat (length bss) :: 32 word) \<noteq> 0"
    using st by (simp add: store_dirty_def)
  also have "\<dots> \<longleftrightarrow> \<not> 2 ^ 32 dvd length bss"
    by (simp add: word_of_nat_eq_0_iff)
  finally show ?thesis
    using run(1) st(1) store_dirty_abs [OF ok(2) assms(3,4), of env] by auto
qed

section \<open>Reset and start-up\<close>

text \<open>The metadata after a reset is that of a fresh start, but for what describes the channels.\<close>

lemma const_rows:
  "\<forall>row \<in> set rows. length row = n \<Longrightarrow> map (map (\<lambda>_. x)) rows = replicate (length rows) (replicate n x)"
  by (induction rows) (auto simp: map_replicate_const)

lemma reset_meta_eq:
  assumes "meta_ok b m"
  shows "reset_meta m = (zero_meta b)\<lparr>mode := HakoTimeMode_Asset, pm_asset_num := pm_asset_num m,
    channel_num := channel_num m, channel := channel m, channel_map := channel_map m\<rparr>"
proof -
  have "map (map (\<lambda>_. False)) (atomic_is_rbusy m) =
      replicate (HAKO_DATA_MAX_ASSET_NUM b) (replicate (HAKO_PDU_CHANNEL_MAX b) False)"
    "map (map (\<lambda>_. 0)) (atomic_pdu_read_version m) =
      replicate (HAKO_DATA_MAX_ASSET_NUM b) (replicate (HAKO_PDU_CHANNEL_MAX b) 0)"
    using assms by (simp_all add: meta_ok_def const_rows [of _ "HAKO_PDU_CHANNEL_MAX b"])
  then show ?thesis
    using assms by (cases m) (simp add: meta_ok_def reset_meta_def zero_meta_def Let_def map_replicate_const)
qed

text \<open>
  C8: The reset of a created area, whatever flags a reader or writer left raised, zeroes
  every channel and leaves the metadata of a fresh start: every busy and dirty flag is down,
  every read and write version is 0, the check status of every asset and the id of the
  synchronising asset are cleared; but the time mode is the assets', and the channel table,
  its layout and the number of assets are kept. No channel is then dirty for any asset.
\<close>

theorem pdu_reset_clears:
  assumes "env_shm env = HakoSharedMemoryMmap" and "env_init_lock env" and "pdu_attached mmap_invar env w"
  shows "\<exists>w'. pdu_reset env w = Inr w' \<and> pdu_ready mmap_invar env w' \<and>
    (let m = pdu_meta_data w; A = HAKO_DATA_MAX_ASSET_NUM (env_build env); C = HAKO_PDU_CHANNEL_MAX (env_build env) in
       pdu_meta_data w' =
         \<lparr>mode = HakoTimeMode_Asset, pm_asset_num = pm_asset_num m, pdu_sync_asset_id = 0,
          asset_pdu_check_status = replicate A False, channel_num = channel_num m,
          atomic_is_dirty = replicate C False, atomic_is_rbusy = replicate A (replicate C False),
          atomic_is_rbusy_for_external = replicate C False, atomic_is_wbusy = replicate C False,
          atomic_is_channel_table_busy = False, channel = channel m,
          atomic_pdu_read_version = replicate A (replicate C 0), atomic_pdu_write_version = replicate C 0,
          channel_map = channel_map m\<rparr>) \<and>
    (\<forall>c < HAKO_PDU_CHANNEL_MAX (env_build env).
       channel_bytes env w' c = replicate (ch_size (channel (pdu_meta_data w) ! c)) 0 \<and>
       (\<forall>a < HAKO_DATA_MAX_ASSET_NUM (env_build env). is_pdu_dirty (int a) (int c) w' = Inr False))"
proof -
  have "meta_ok (env_build env) (pdu_meta_data w)" using assms(3) by (simp add: pdu_attached_def)
  from reset_meta_eq [OF this] mmap.pdu_reset_ok [OF assms] show ?thesis
    by (auto simp: zero_meta_def Let_def)
qed

theorem pdu_reset_clears_witness:
  "\<exists>w w'. pdu_create demo_env 1 demo_pdu = Inr w \<and>
    pdu_reset demo_env (upd_meta (\<lambda>m. m\<lparr>atomic_is_wbusy := [True, False, True]\<rparr>) w) = Inr w' \<and>
    pdu_ready mmap_invar demo_env w'"
proof -
  obtain w where w: "pdu_create demo_env 1 demo_pdu = Inr w" "pdu_ready mmap_invar demo_env w"
    using demo_created by metis
  then have "pdu_attached mmap_invar demo_env (upd_meta (\<lambda>m. m\<lparr>atomic_is_wbusy := [True, False, True]\<rparr>) w)"
    by (simp add: pdu_ready_def pdu_attached_def meta_ok_def)
  then show ?thesis using pdu_reset_clears [OF demo_build(2,3)] w(1) by blast
qed

text \<open>
  The handshake that starts the simulation: after \<open>create\<close> for \<open>n\<close> assets, a series of
  \<open>notify_write_pdu_done\<close> calls switches to the master's time mode exactly when at least
  \<open>n\<close> different assets have called; an asset that repeats the call is counted once, and
  the switch is never undone by a later call.
\<close>

lemma handshake_counts_assets:
  assumes "meta_ok b (pdu_meta_data w)" and "mode (pdu_meta_data w) = HakoTimeMode_Asset"
    and "notified w = {}" and "0 < pm_asset_num (pdu_meta_data w)"
    and "\<forall>a \<in> set as. a < HAKO_DATA_MAX_ASSET_NUM b"
  shows "\<exists>w'. notify_all b as w = Inr w' \<and>
    (is_simulation_mode w' \<longleftrightarrow> pm_asset_num (pdu_meta_data w) \<le> int (card (set as)))"
  using notify_all_mode [of w as b] assms by (simp add: meta_ok_def)

section \<open>A second process\<close>

text \<open>
  C7: A process that attaches to the area after \<open>create\<close> shares its contents: its \<open>load\<close>
  succeeds, and whatever the first process then writes, the second one reads, channel by
  channel and version by version, through its own mapping and cache.
\<close>

theorem second_process_shares_store:
  assumes env: "env_shm env = HakoSharedMemoryMmap" "env_init_lock env"
    and w: "pdu_ready mmap_invar env w" "area_header_ok w" "pdu_total_size w \<noteq> 0"
    and v: "\<not> pdu_ptr v" "mm_map (asset_shmp v) HAKO_SHARED_MEMORY_ID_1 = None"
      "os_maps (mm_os (asset_shmp v))" "mmap_invar (asset_shmp (sees v w))"
    and c: "c < HAKO_PDU_CHANNEL_MAX (env_build env)" "length bs = ch_size (channel (pdu_meta_data w) ! c)"
    and a: "a < HAKO_DATA_MAX_ASSET_NUM (env_build env)"
  shows "\<exists>v' w' v''. pdu_load env (sees v w) = Inr (True, v') \<and>
    write_pdu env (int c) bs (length bs) w = Inr (True, w') \<and>
    read_pdu env (int a) (int c) (length bs) (sees v' w') = Inr (Some bs, v'') \<and>
    is_pdu_dirty (int a) (int c) v'' = Inr False"
proof -
  obtain v' where v': "pdu_load env (sees v w) = Inr (True, v')" "pdu_ready mmap_invar env v'"
    "pdu_meta_data v' = pdu_meta_data w" "mm_files (asset_shmp v') = mm_files (asset_shmp w)"
    using pdu_load_sees [OF env w(1,2) v w(3)] by metis
  let ?w = "after_write env c bs w"
  have wr: "write_pdu env (int c) bs (length bs) w = Inr (True, ?w)"
    using write_pdu_eq [OF w(1) c(1), of "length bs" bs] c(2) by simp
  have rw: "pdu_ready mmap_invar env ?w" "abs_store env ?w = store_write c bs (abs_store env w)"
    using mmap.after_write_refines [OF env(1) w(1) c(1), of bs] c(2) by simp_all
  have files: "dom (mm_files (asset_shmp v')) = dom (mm_files (asset_shmp ?w))"
    using v'(4) env(1) by (simp add: after_write_def after_poke_def)
  have ptr: "pdu_ptr v'" "mm_map (asset_shmp v') HAKO_SHARED_MEMORY_ID_1 \<noteq> None" "mmap_invar (asset_shmp v')"
    using v'(2) env(1) by (simp_all add: pdu_ready_def mmap_lock_memory_def)
  then have "mmap_invar (asset_shmp (sees v' ?w))" using files by (auto simp: mmap_invar_def)
  then have rs: "pdu_ready mmap_invar env (sees v' ?w)"
    using pdu_ready_sees [OF env(1) rw(1) ptr(1,2)] by simp
  have abs: "abs_store env (sees v' ?w) = store_write c bs (abs_store env w)"
    using rw(2) abs_store_sees [OF env(1), of "sees v' ?w" ?w] by simp
  have size: "ch_size (channel (pdu_meta_data (sees v' ?w)) ! c) = length bs"
    using c(2) by (simp add: after_write_def after_poke_def)
  have "channel_bytes env (sees v' ?w) = store_bytes (store_write c bs (abs_store env w))"
    unfolding abs [symmetric] by simp
  then have "channel_bytes env (sees v' ?w) c = bs"
    using length_channel_bytes [OF w(1) c(1)] c(2) by (simp add: store_write_def)
  then have rd: "read_pdu env (int a) (int c) (length bs) (sees v' ?w) = Inr (Some bs, after_read a c (sees v' ?w))"
    using read_pdu_eq [OF rs c(1) a, of "length bs"] size by simp
  have "pdu_ready mmap_invar env (after_read a c (sees v' ?w))"
    "abs_store env (after_read a c (sees v' ?w)) = store_read a c (abs_store env (sees v' ?w))"
    using after_read_refines [OF rs c(1) a] by simp_all
  then have "is_pdu_dirty (int a) (int c) (after_read a c (sees v' ?w)) = Inr False"
    using store_dirty_abs [OF _ a c(1), of "after_read a c (sees v' ?w)" env]
    by (simp add: pdu_ready_def store_dirty_def store_read_def)
  then show ?thesis using v'(1) wr rd by blast
qed

theorem second_process_shares_store_witness:
  "\<exists>w v' w' v''. pdu_create demo_env 1 demo_pdu = Inr w \<and>
    pdu_load demo_env (sees demo_pdu w) = Inr (True, v') \<and>
    write_pdu demo_env 1 [5, 6] 2 w = Inr (True, w') \<and>
    read_pdu demo_env 1 1 2 (sees v' w') = Inr (Some [5, 6], v'')"
proof -
  obtain w where w: "pdu_create demo_env 1 demo_pdu = Inr w" "pdu_ready mmap_invar demo_env w"
    "pdu_meta_data w = created_meta 1 (pdu_meta_data demo_pdu)" "area_header_ok w"
    using demo_created by metis
  have "pdu_total_size w = 6"
    using w(3) by (simp add: pdu_total_size_def created_meta_def SIZE_MAX_def)
  moreover have "\<not> pdu_ptr demo_pdu" "mm_map (asset_shmp demo_pdu) HAKO_SHARED_MEMORY_ID_1 = None"
    "os_maps (mm_os (asset_shmp demo_pdu))" "mmap_invar (asset_shmp (sees demo_pdu w))"
    using demo_fresh by (simp_all add: pdu_fresh_def demo_shm_def os_maps_def good_os_def mmap_invar_def)
  ultimately show ?thesis
    using second_process_shares_store [OF demo_build(2,3) w(2,4), of demo_pdu 1 "[5, 6]" 1] w(1)
      demo_created_channels [OF w(3)]
    by (auto simp: numeral_2_eq_2)
qed

section \<open>Failure paths\<close>

text \<open>
  When the creation of the shared memory fails, \<open>create\<close> does not report it: the
  assertion on the returned id cannot fire, and the null pointer that \<open>lock_memory\<close>
  returns for the missing region is written to.
\<close>

lemma pdu_create_failure_null_deref:
  assumes "env_shm env = HakoSharedMemoryMmap" and "pdu_fresh mmap_invar env w"
    and "mmap_create_memory HAKO_SHARED_MEMORY_ID_1 (pdu_total_size w) (asset_shmp w) = (r, shm)" and "r < 0"
  shows "pdu_create env asset_num w = Inl Null_Deref"
proof -
  have "\<not> mmap_lock_memory HAKO_SHARED_MEMORY_ID_1 shm"
    using mmap.create_fails [of HAKO_SHARED_MEMORY_ID_1 "pdu_total_size w" "asset_shmp w" r shm] assms
    by (simp add: pdu_fresh_def)
  then show ?thesis using pdu_create_fails [of env w r shm] assms by (simp add: pdu_fresh_def)
qed

lemma demo_created_length:
  assumes "pdu_create demo_env 1 demo_pdu = Inr w"
  shows "length (pdu_bytes demo_env w) = 14" and "chan_inv small_build w"
proof -
  obtain m where m: "mmap_create_memory HAKO_SHARED_MEMORY_ID_1 6 demo_shm = (0, m)"
    "mm_map m HAKO_SHARED_MEMORY_ID_1 \<noteq> None" "length (mmap_region HAKO_SHARED_MEMORY_ID_1 m) = 14"
    using demo_create_memory by blast
  have ok: "meta_ok small_build (pdu_meta_data demo_pdu)" "\<not> pdu_ptr demo_pdu"
    using demo_fresh by (simp_all add: pdu_fresh_def)
  obtain c tr where run: "pdu_create demo_env 1 demo_pdu =
      Inr \<lparr>pdu_meta_data = created_meta 1 (pdu_meta_data demo_pdu), pdu_ptr = True, pdu_channel_cache = c,
           asset_shmp = mmap_set_region HAKO_SHARED_MEMORY_ID_1
             (splice (mmap_region HAKO_SHARED_MEMORY_ID_1 m) 0 (replicate 6 0)) m, trace = tr\<rparr>"
    "cache_ok (created_meta 1 (pdu_meta_data demo_pdu)) c"
    using pdu_create_unfold [of demo_env demo_pdu 0 m small_build 1] ok m by (auto simp: mmap_lock_memory_def)
  then show "length (pdu_bytes demo_env w) = 14"
    using assms m by (auto simp: mmap_set_region_def mmap_region_def split: option.splits)
  have "table_compact (created_meta 1 (pdu_meta_data demo_pdu))"
    by (auto simp: table_compact_def created_meta_def demo_pdu_def SIZE_MAX_def nth_Cons split: nat.splits)
  then show "chan_inv small_build w"
    using run assms ok
    by (simp add: chan_inv_def meta_ok_def created_meta_def)
      (simp add: demo_pdu_def empty_pdu_def zero_meta_def Let_def)
qed

text \<open>
  C9: A logical channel that is created once the area exists is accepted, but its extent
  begins where the area ends: unless the mapped file happens to be longer than the area,
  a write of the whole channel through the process that made the area leaves the file's
  bounds, and a process that attaches from then on is refused by \<open>load\<close> and dereferences
  a null pointer at its first write, whose result of \<open>load\<close> is not looked at.
\<close>

theorem late_channel_faults:
  assumes env: "env_shm env = HakoSharedMemoryMmap" "env_init_lock env"
    and w: "pdu_ready mmap_invar env w" "area_header_ok w" "chan_inv (env_build env) w"
    and new: "valid_name name" "find_channel name channel_id w < 0"
      "channels_used w < HAKO_PDU_CHANNEL_MAX (env_build env)"
    and size: "0 < sz" "sizes_total (channel (pdu_meta_data w)) + sz \<le> UINT64_MAX"
      "length (pdu_bytes env w) < sizes_total (channel (pdu_meta_data w)) + sz" "length bs = sz"
    and v: "\<not> pdu_ptr v" "mm_map (asset_shmp v) HAKO_SHARED_MEMORY_ID_1 = None"
  shows "\<exists>w'. create_lchannel (env_build env) name channel_id sz w = Inr (True, w') \<and>
    find_channel name channel_id w' = int (channels_used w) \<and>
    write_pdu env (int (channels_used w)) bs sz w' = Inl Out_Of_Bounds \<and>
    write_pdu env (int (channels_used w)) bs sz (sees v w') = Inl Null_Deref"
proof -
  let ?k = "channels_used w" and ?m = "pdu_meta_data w"
  have num: "channel_num ?m = int ?k" using w(3) by (simp add: chan_inv_def meta_ok_def channels_used_def)
  have att: "pdu_attached mmap_invar env w" using w(1) by (simp add: pdu_ready_iff)
  obtain w' where w': "create_lchannel (env_build env) name channel_id sz w = Inr (True, w')"
    "adds_channel name channel_id sz ?m (pdu_meta_data w')" "chan_inv (env_build env) w'"
    "pdu_ptr w' = pdu_ptr w" "asset_shmp w' = asset_shmp w"
    using create_lchannel_new [of "env_build env" w name channel_id sz] w(3) new
    by (auto simp: valid_name_def find_channel_def channels_used_less)
  note late = late_channel_offset [OF att w(3) new(3) w'(2)]
  have "pdu_idle ?m" using w(1) by (simp add: pdu_ready_def)
  moreover obtain cm cs n where "pdu_meta_data w' = ?m\<lparr>channel_map := cm, channel := cs, channel_num := n\<rparr>"
    using w'(2) unfolding adds_channel_def by blast
  ultimately have idle: "pdu_idle (pdu_meta_data w')" by (simp add: pdu_idle_def)
  have ok: "meta_ok (env_build env) (pdu_meta_data w')" using w'(3) by (simp add: chan_inv_def)
  have "pdu_ptr w'" using w(1) w'(4) by (simp add: pdu_ready_def)
  then have "write_pdu env (int ?k) bs sz w' = Inl Out_Of_Bounds"
    using size late w'(5)
    by (intro write_pdu_reaches_copy [OF ok idle new(3), where ?w1.0 = w'])
      (simp_all add: ensure_loaded_def copy_in_def)
  moreover have "write_pdu env (int ?k) bs sz (sees v w') = Inl Null_Deref"
  proof -
    let ?s = "sees v w'"
    have tot: "pdu_total_size ?s = sizes_total (channel ?m) + sz" "pdu_total_size w = sizes_total (channel ?m)"
      using size(2) late(3) by (simp_all add: pdu_total_size_eq)
    then have refuse: "mmap_load_memory HAKO_SHARED_MEMORY_ID_1 (pdu_total_size ?s) (asset_shmp ?s) = (False, asset_shmp ?s)"
      using w(2) v(2) w'(5) size(1)
      by (auto simp: area_header_ok_def mmap_load_memory_def Let_def)
    obtain tr where "pdu_load env ?s = Inr (False, ?s\<lparr>asset_shmp := asset_shmp ?s, trace := tr\<rparr>)"
      using pdu_load_unfold [OF env(2), of ?s "env_build env" False "asset_shmp ?s"] v(1) ok refuse env(1) by auto
    then have "ensure_loaded env ?s = Inr (?s\<lparr>trace := tr\<rparr>)" using v(1) by (simp add: ensure_loaded_def)
    then show ?thesis
      using size late v(1) ok idle new(3)
      by (intro write_pdu_reaches_copy [of env ?s ?k sz "?s\<lparr>trace := tr\<rparr>"]) (simp_all add: copy_in_def)
  qed
  moreover have "find_channel name channel_id w' = int ?k"
    using w'(2) num by (simp add: find_channel_def adds_channel_def)
  ultimately show ?thesis using w'(1) by blast
qed

theorem late_channel_faults_witness:
  "\<exists>w w'. pdu_create demo_env 1 demo_pdu = Inr w \<and>
    create_lchannel small_build ''late'' 3 9 w = Inr (True, w') \<and>
    write_pdu demo_env 2 (replicate 9 1) 9 w' = Inl Out_Of_Bounds \<and>
    write_pdu demo_env 2 (replicate 9 1) 9 (sees demo_pdu w') = Inl Null_Deref"
proof -
  obtain w where w: "pdu_create demo_env 1 demo_pdu = Inr w" "pdu_ready mmap_invar demo_env w"
    "pdu_meta_data w = created_meta 1 (pdu_meta_data demo_pdu)" "area_header_ok w"
    using demo_created by metis
  have "find_channel ''late'' 3 w < 0"
    using w(3) by (simp add: find_channel_def lookup_channel_def chan_matches_def created_meta_def demo_pdu_def
        empty_pdu_def zero_meta_def Let_def numeral_2_eq_2)
  moreover have "channels_used w = 2" using w(3) by (simp add: channels_used_def created_meta_def demo_pdu_def)
  moreover have "valid_name ''late''" by (simp add: valid_name_def NUL_def HAKO_FIXED_STRLEN_MAX_def)
  moreover have "\<not> pdu_ptr demo_pdu" "mm_map (asset_shmp demo_pdu) HAKO_SHARED_MEMORY_ID_1 = None"
    using demo_fresh by (simp_all add: pdu_fresh_def demo_shm_def)
  moreover have "chan_inv (env_build demo_env) w" "length (pdu_bytes demo_env w) = 14"
    using demo_created_length [OF w(1)] by simp_all
  ultimately show ?thesis
    using late_channel_faults [OF demo_build(2,3) w(2,4), of "''late''" 3 9 "replicate 9 1" demo_pdu] w(1)
      demo_created_channels [OF w(3)]
    by (auto simp: SIZE_MAX_def)
qed

end
