(* ===== verification/Hako_Master.thy ===== *)
theory Hako_Master
  imports Hako_Simevent Hako_Time Hako_Pdu_Theorems
begin

text \<open>
  The master's controller, \<open>hako_master_impl.cpp\<close>: \<open>execute\<close>, which the conductor calls in
  a loop, handles the events of the simulation, sets the PDU area up when the simulation
  starts running, clears it when a reset completes, and moves the virtual time.
\<close>

section \<open>The controller\<close>

record 'm HakoMasterController =
  theWorld :: "TheWorld option"
  mc_data :: "'m HakoMasterData"

definition set_config_simtime :: "int \<Rightarrow> int \<Rightarrow> 'm HakoMasterController \<Rightarrow> 'm HakoMasterController" where
  "set_config_simtime max_delay delta c =
    (let c = c\<lparr>theWorld := Some (new_TheWorld max_delay delta)\<rparr>;
         w = md_lock (mc_data c);
         w = upd_md (\<lambda>d. d\<lparr>time_usec := (time_usec d)\<lparr>ts_max_delay := max_delay, ts_delta := delta\<rparr>\<rparr>) w
     in c\<lparr>mc_data := md_unlock w\<rparr>)"

text \<open>What \<open>execute\<close> does once a reset has completed.\<close>

definition finish_reset :: "'m hako_env \<Rightarrow> TheWorld \<Rightarrow> 'm HakoMasterData \<Rightarrow> (TheWorld \<times> 'm HakoMasterData) result" where
  "finish_reset env tw w =
    (let w = md_lock w;
         w = upd_md (\<lambda>d. d\<lparr>time_usec := (time_usec d)\<lparr>ts_current := 0\<rparr>\<rparr>) w;
         w = reset_asset_ctime_nolock w;
         tw = reset_world_time tw;
         w = md_unlock w
     in bindE (destroy_pdu_data env w) (\<lambda>w. Inr (tw, w)))"

text \<open>The last part of \<open>execute\<close>: one attempt to move the time.\<close>

definition move_time :: "TheWorld \<Rightarrow> 'm HakoMasterData \<Rightarrow> (bool \<times> TheWorld \<times> 'm HakoMasterData) result" where
  "move_time tw w =
    (let prev_world_time = world_time_usec tw
     in bindE (time_begins_to_move tw (get_asset_times w)) (\<lambda>(world_time, tw).
          if world_time > prev_world_time
          then Inr (True, tw, upd_md (\<lambda>d. d\<lparr>time_usec := (time_usec d)\<lparr>ts_current := world_time\<rparr>\<rparr>) w)
          else Inr (False, tw, w)))"

definition execute :: "'m hako_env \<Rightarrow> 'm HakoMasterController \<Rightarrow> (bool \<times> 'm HakoMasterController) result" where
  "execute env c =
    (case theWorld c of
       None \<Rightarrow> Inr (False, c)
     | Some tw \<Rightarrow>
         bindE (do_event_handling env (mc_data c)) (\<lambda>((is_changed, prev, next), w).
         bindE (if is_changed \<and> prev = HakoSim_Runnable \<and> next = HakoSim_Running
                then bindE (create_pdu_data env w) (\<lambda>w. Inr (tw, w))
                else if is_changed \<and> prev = HakoSim_Resetting \<and> next = HakoSim_Stopped
                then finish_reset env tw w
                else Inr (tw, w)) (\<lambda>(tw, w).
           if next \<noteq> HakoSim_Running then Inr (False, \<lparr>theWorld = Some tw, mc_data = w\<rparr>)
           else if \<not> is_simulation_mode (pdu_datap w) then Inr (False, \<lparr>theWorld = Some tw, mc_data = w\<rparr>)
           else bindE (move_time tw w) (\<lambda>(r, tw, w). Inr (r, \<lparr>theWorld = Some tw, mc_data = w\<rparr>)))))"

section \<open>Moving the time\<close>

lemma move_time_result:
  assumes "move_time tw w = Inr (r, tw', w')" and "0 < delta_time_usec tw"
  shows "r \<Longrightarrow> in_time tw (get_asset_times w) \<and> world_time_usec tw' = world_time_usec tw + delta_time_usec tw \<and>
      master_datap w' = (master_datap w)\<lparr>time_usec := (time_usec (master_datap w))\<lparr>ts_current := world_time_usec tw'\<rparr>\<rparr>"
    and "\<not> r \<Longrightarrow> w' = w \<and> world_time_usec tw' = world_time_usec tw"
    and "pdu_datap w' = pdu_datap w" and "max_delay_time_usec tw' = max_delay_time_usec tw"
    and "delta_time_usec tw' = delta_time_usec tw"
proof -
  obtain t tw1 where t: "time_begins_to_move tw (get_asset_times w) = Inr (t, tw1)"
    using assms(1) by (auto simp: move_time_def fault_simps)
  from t have "tw' = tw1 \<and> r = (t > world_time_usec tw) \<and> w' = (if t > world_time_usec tw
      then upd_md (\<lambda>d. d\<lparr>time_usec := (time_usec d)\<lparr>ts_current := t\<rparr>\<rparr>) w else w)"
    using assms(1) by (auto simp: move_time_def Let_def split: if_splits)
  then show "r \<Longrightarrow> in_time tw (get_asset_times w) \<and> world_time_usec tw' = world_time_usec tw + delta_time_usec tw \<and>
      master_datap w' = (master_datap w)\<lparr>time_usec := (time_usec (master_datap w))\<lparr>ts_current := world_time_usec tw'\<rparr>\<rparr>"
    and "\<not> r \<Longrightarrow> w' = w \<and> world_time_usec tw' = world_time_usec tw"
    and "pdu_datap w' = pdu_datap w" and "max_delay_time_usec tw' = max_delay_time_usec tw"
    and "delta_time_usec tw' = delta_time_usec tw"
    using t assms(2) by (auto elim!: time_step_cases)
qed

lemma asset_times_used:
  "set (get_asset_times w) = {ev_ctime (assets_ev (master_datap w) ! i) | i.
     i < length (assets (master_datap w)) \<and> entry_used (assets (master_datap w) ! i)}"
  by (auto simp: get_asset_times_def in_use_iff)

section \<open>A small system for the examples\<close>

definition demo_master :: "HakoSimulationStateType \<Rightarrow> HakoMasterDataType" where
  "demo_master st =
     \<lparr>master_pid = 1, sim_state = st, time_usec = \<lparr>ts_max_delay = 20, ts_delta = 10, ts_current = 0\<rparr>, asset_num = 1,
      assets = [\<lparr>ae_id = 0, ae_name = hako_string2fixed ''a'' zero_fixed, ae_type = HakoAsset_Inside,
                ae_callback = zero_callback\<rparr>, zero_entry],
      assets_ev = [zero_event\<lparr>ev_pid := 2\<rparr>, zero_event]\<rparr>"

definition demo_data :: "HakoSimulationStateType \<Rightarrow> mmap_state HakoMasterData" where
  "demo_data st = \<lparr>master_datap = demo_master st, pdu_datap = demo_pdu, asset_timeout_usec = 30000000,
     is_master_locked = False\<rparr>"

definition demo_controller :: "HakoSimulationStateType \<Rightarrow> mmap_state HakoMasterController" where
  "demo_controller st = \<lparr>theWorld = Some (new_TheWorld 20 10), mc_data = demo_data st\<rparr>"

text \<open>The environment of the master's process, with the callbacks of the sample asset.\<close>

definition bare_henv :: "int \<Rightarrow> mmap_state hako_env" where
  "bare_henv now = \<lparr>he_pdu = demo_env, he_pid = 1, he_now = now, he_call = (\<lambda>_ _. Inl Null_Deref)\<rparr>"

definition demo_henv :: "int \<Rightarrow> mmap_state hako_env" where
  "demo_henv now = (bare_henv now)\<lparr>he_call := sample_call (bare_henv now) ''a''\<rparr>"

lemma demo_henv_simps [simp]:
  "he_pdu (demo_henv now) = demo_env" "he_pid (demo_henv now) = 1" "he_now (demo_henv now) = now"
  by (simp_all add: demo_henv_def bare_henv_def)

lemma demo_data_simps [simp]:
  "master_datap (demo_data st) = demo_master st" "pdu_datap (demo_data st) = demo_pdu"
  "asset_timeout_usec (demo_data st) = 30000000"
  "mc_data (demo_controller st) = demo_data st" "theWorld (demo_controller st) = Some (new_TheWorld 20 10)"
  by (simp_all add: demo_data_def demo_controller_def)

lemma demo_table: "table_ok small_build (demo_master st)"
proof -
  have "fixed_ok (hako_string2fixed ''a'' zero_fixed)"
    by (rule fixed_ok_string2fixed) (simp_all add: HAKO_FIXED_STRLEN_MAX_def)
  then show ?thesis
    by (auto simp: table_ok_def demo_master_def entry_used_def zero_entry_def nth_Cons split: nat.splits)
qed

section \<open>Properties\<close>

text \<open>
  C15: One call of \<open>execute\<close> while the simulation runs, in closed form: it moves the world
  time by \<open>delta\<close> and publishes it exactly if the assets have completed the handshake of the
  first write and every registered asset is within the maximum delay; otherwise the time
  stands still, and nothing else in the shared data changes.
\<close>

theorem execute_running:
  assumes "theWorld c = Some tw" and "sim_state (master_datap (mc_data c)) = HakoSim_Running"
    and "time_safe tw (get_asset_times (mc_data c))"
  shows "execute env c =
    (if \<not> is_simulation_mode (pdu_datap (mc_data c)) then Inr (False, c)
     else if in_time tw (get_asset_times (mc_data c))
     then let t = world_time_usec tw + delta_time_usec tw in
       Inr (True, \<lparr>theWorld = Some (tw\<lparr>world_time_usec := t\<rparr>),
         mc_data = upd_md (\<lambda>d. d\<lparr>time_usec := (time_usec d)\<lparr>ts_current := t\<rparr>\<rparr>) (mc_data c)\<rparr>)
     else Inr (False, c\<lparr>theWorld := Some (tw\<lparr>wait_time_usec := wait_time_usec tw + delta_time_usec tw\<rparr>)\<rparr>))"
proof -
  have "do_event_handling env (mc_data c) = Inr ((False, HakoSim_Running, HakoSim_Running), mc_data c)"
    using idle_handling [of "mc_data c" env] assms(2) by (simp add: sim_event_needs_handling_def)
  moreover have "0 < delta_time_usec tw" using assms(3) by (simp add: time_safe_def)
  ultimately show ?thesis
    using assms(1) time_safe_step [OF assms(3)]
    by (cases c) (simp add: execute_def move_time_def Let_def)
qed

theorem execute_running_witness:
  "\<exists>c. execute (demo_henv 0) (demo_controller HakoSim_Running) = Inr (True, c) \<and>
    ts_current (time_usec (master_datap (mc_data c))) = 10"
proof -
  let ?c = "demo_controller HakoSim_Running"
  have times: "get_asset_times (mc_data ?c) = [0]"
    by (simp add: get_asset_times_def demo_master_def in_use_def zero_entry_def zero_event_def)
  then have "time_safe (new_TheWorld 20 10) (get_asset_times (mc_data ?c))"
    "in_time (new_TheWorld 20 10) (get_asset_times (mc_data ?c))"
    by (simp_all add: time_safe_def in_time_def new_TheWorld_def)
  moreover have "is_simulation_mode (pdu_datap (mc_data ?c))"
    by (simp add: demo_pdu_def is_simulation_mode_def empty_pdu_def zero_meta_def Let_def)
  ultimately show ?thesis
    using execute_running [of ?c "new_TheWorld 20 10" "demo_henv 0"]
    by (simp add: demo_master_def Let_def new_TheWorld_def)
qed

lemma emit_setup [simp]:
  "pdu_total_size (emit e w) = pdu_total_size w" "pdu_fresh invar env (emit e w) = pdu_fresh invar env w"
  "pdu_attached invar env (emit e w) = pdu_attached invar env w"
  by (simp_all add: pdu_total_size_def pdu_fresh_def pdu_attached_def)

text \<open>
  When all assets have acknowledged the start, the next call of \<open>execute\<close> lets the
  simulation run and creates the PDU area for the number of registered assets; the time
  mode is the assets' then, so this call does not move the time.
\<close>

lemma execute_starts:
  assumes "theWorld c = Some tw" and "sim_state (master_datap (mc_data c)) = HakoSim_Runnable"
    and "is_all_feedback_nolock (mc_data c)" and "env_shm (he_pdu env) = HakoSharedMemoryMmap"
    and "pdu_fresh mmap_invar (he_pdu env) (pdu_datap (mc_data c))"
    and "mmap_create_memory HAKO_SHARED_MEMORY_ID_1 (pdu_total_size (pdu_datap (mc_data c)))
           (asset_shmp (pdu_datap (mc_data c))) = (r, shm)" and "0 \<le> r"
  shows "\<exists>w. execute env c = Inr (False, \<lparr>theWorld = Some tw, mc_data = w\<rparr>) \<and>
    master_datap w = (master_datap (mc_data c))\<lparr>sim_state := HakoSim_Running\<rparr> \<and>
    pdu_ready mmap_invar (he_pdu env) (pdu_datap w) \<and>
    mode (pdu_meta_data (pdu_datap w)) = HakoTimeMode_Asset \<and>
    pm_asset_num (pdu_meta_data (pdu_datap w)) = sint (asset_num (master_datap (mc_data c)))"
proof -
  let ?w = "mc_data c"
  let ?w1 = "md_unlock (upd_md (\<lambda>d. d\<lparr>sim_state := HakoSim_Running\<rparr>) (md_lock ?w))"
  have h: "do_event_handling env ?w = Inr ((True, HakoSim_Runnable, HakoSim_Running), ?w1)"
    using settle_handling [of ?w env] assms(2,3) by (simp add: sim_event_needs_handling_def)
  obtain p where p: "pdu_create (he_pdu env) (sint (asset_num (master_datap ?w))) (pdu_datap ?w1) = Inr p"
    "pdu_ready mmap_invar (he_pdu env) p"
    "pdu_meta_data p = created_meta (sint (asset_num (master_datap ?w))) (pdu_meta_data (pdu_datap ?w))"
    using mmap.pdu_create_ok [of "he_pdu env" "pdu_datap ?w1" r shm "sint (asset_num (master_datap ?w))"] assms
    by (auto simp: mmap_fits_def)
  have "create_pdu_data env ?w1 = Inr (?w1\<lparr>pdu_datap := p\<rparr>)" using p(1) by (simp add: create_pdu_data_def)
  then have "execute env c = Inr (False, \<lparr>theWorld = Some tw, mc_data = ?w1\<lparr>pdu_datap := p\<rparr>\<rparr>)"
    using assms(1) h p(3) by (simp add: execute_def is_simulation_mode_def created_meta_def)
  then show ?thesis using p by (auto simp: created_meta_def)
qed

text \<open>
  C16: When all assets have acknowledged a reset, the next call of \<open>execute\<close> stops the
  simulation at time zero: the world time, the published time and the time of every
  registered asset are zero, and the PDU area is cleared.
\<close>

theorem execute_resets:
  assumes "theWorld c = Some tw" and "sim_state (master_datap (mc_data c)) = HakoSim_Resetting"
    and "is_all_feedback_nolock (mc_data c)" and "env_shm (he_pdu env) = HakoSharedMemoryMmap"
    and "env_init_lock (he_pdu env)" and "pdu_attached mmap_invar (he_pdu env) (pdu_datap (mc_data c))"
    and "table_ok (he_build env) (master_datap (mc_data c))"
  shows "\<exists>w. execute env c = Inr (False, \<lparr>theWorld = Some (tw\<lparr>world_time_usec := 0\<rparr>), mc_data = w\<rparr>) \<and>
    sim_state (master_datap w) = HakoSim_Stopped \<and> ts_current (time_usec (master_datap w)) = 0 \<and>
    set (get_asset_times w) \<subseteq> {0} \<and> assets (master_datap w) = assets (master_datap (mc_data c)) \<and>
    pdu_ready mmap_invar (he_pdu env) (pdu_datap w) \<and>
    (\<forall>i < HAKO_PDU_CHANNEL_MAX (he_build env). set (channel_bytes (he_pdu env) (pdu_datap w) i) \<subseteq> {0})"
proof -
  let ?w = "mc_data c"
  let ?w1 = "md_unlock (upd_md (\<lambda>d. d\<lparr>sim_state := HakoSim_Stopped\<rparr>) (md_lock ?w))"
  let ?w2 = "md_unlock (reset_asset_ctime_nolock (upd_md (\<lambda>d. d\<lparr>time_usec := (time_usec d)\<lparr>ts_current := 0\<rparr>\<rparr>)
      (md_lock ?w1)))"
  have h: "do_event_handling env ?w = Inr ((True, HakoSim_Resetting, HakoSim_Stopped), ?w1)"
    using settle_handling [of ?w env] assms(2,3) by (simp add: sim_event_needs_handling_def)
  have "pdu_attached mmap_invar (he_pdu env) (pdu_datap ?w2)"
    using assms(6) by (simp add: reset_asset_ctime_nolock_def)
  from mmap.pdu_reset_ok [OF assms(4,5) this] obtain p where
    p: "pdu_reset (he_pdu env) (pdu_datap ?w2) = Inr p" "pdu_ready mmap_invar (he_pdu env) p"
    "\<forall>i < HAKO_PDU_CHANNEL_MAX (he_build env). channel_bytes (he_pdu env) p i =
       replicate (ch_size (channel (pdu_meta_data (pdu_datap ?w2)) ! i)) 0" by auto
  have "finish_reset env tw ?w1 = Inr (tw\<lparr>world_time_usec := 0\<rparr>, ?w2\<lparr>pdu_datap := p\<rparr>)"
    using p(1) by (simp add: finish_reset_def destroy_pdu_data_def Let_def reset_world_time_def)
  then have run: "execute env c = Inr (False, \<lparr>theWorld = Some (tw\<lparr>world_time_usec := 0\<rparr>), mc_data = ?w2\<lparr>pdu_datap := p\<rparr>\<rparr>)"
    using assms(1) h by (simp add: execute_def)
  have "set (get_asset_times (?w2\<lparr>pdu_datap := p\<rparr>)) \<subseteq> {0}"
    using assms(7) by (auto simp: asset_times_used reset_asset_ctime_nolock_def in_use_iff table_ok_def)
  then show ?thesis
    using run p by (intro exI [of _ "?w2\<lparr>pdu_datap := p\<rparr>"]) (auto simp: reset_asset_ctime_nolock_def)
qed

theorem execute_resets_witness:
  "\<exists>p w. pdu_create demo_env 1 demo_pdu = Inr p \<and>
    execute (demo_henv 0) ((demo_controller HakoSim_Resetting)\<lparr>mc_data := (upd_ev 0 (\<lambda>e. e\<lparr>ev_feedback := True, ev_ctime := 70\<rparr>)
      (demo_data HakoSim_Resetting))\<lparr>pdu_datap := p\<rparr>\<rparr>) = Inr (False, \<lparr>theWorld = Some (new_TheWorld 20 10), mc_data = w\<rparr>) \<and>
    sim_state (master_datap w) = HakoSim_Stopped"
proof -
  obtain p where p: "pdu_create demo_env 1 demo_pdu = Inr p" "pdu_ready mmap_invar demo_env p"
    using demo_created by metis
  let ?w = "(upd_ev 0 (\<lambda>e. e\<lparr>ev_feedback := True, ev_ctime := 70\<rparr>) (demo_data HakoSim_Resetting))\<lparr>pdu_datap := p\<rparr>"
  let ?c = "(demo_controller HakoSim_Resetting)\<lparr>mc_data := ?w\<rparr>"
  have "is_all_feedback_nolock ?w"
    by (simp add: is_all_feedback_nolock_def demo_master_def in_use_def zero_entry_def)
  moreover have "sim_state (demo_master HakoSim_Resetting) = HakoSim_Resetting" by (simp add: demo_master_def)
  moreover have "(new_TheWorld 20 10)\<lparr>world_time_usec := 0\<rparr> = new_TheWorld 20 10" by (simp add: new_TheWorld_def)
  ultimately show ?thesis
    using execute_resets [of ?c "new_TheWorld 20 10" "demo_henv 0"] p demo_table [of HakoSim_Resetting]
    by (auto simp: pdu_ready_iff)
qed

end
