(* ===== verification/Hako_Simulation.thy ===== *)
theory Hako_Simulation
  imports Hako_Master
begin

text \<open>
  The life cycle of a simulation as the controllers drive it together: the commands of the
  simulation event controller, the feedback of the assets, and the handling of feedback and
  timeouts by the master. The theorems say when a command settles and which assets a timeout
  removes.
\<close>

section \<open>Publication to assets that are not called back\<close>

text \<open>
  An asset is notified without a call if it polls or if it lives in another process; the
  event record that the publication leaves is then determined.
\<close>

definition notified_remotely :: "'m hako_env \<Rightarrow> HakoMasterDataType \<Rightarrow> bool" where
  "notified_remotely env d \<longleftrightarrow>
     (\<forall>i < length (assets d). entry_used (assets d ! i) \<longrightarrow>
        cb_start (ae_callback (assets d ! i)) = None \<or> ev_pid (assets_ev d ! i) \<noteq> he_pid env)"

fun published :: "HakoAssetEventType \<Rightarrow> HakoAssetEntryEventType \<Rightarrow> HakoAssetEntryEventType" where
  "published HakoAssetEvent_Reset e =
     (if ev_event e = HakoAssetEvent_Error then e\<lparr>ev_feedback := True\<rparr>
      else e\<lparr>ev_event := HakoAssetEvent_Reset, ev_feedback := False\<rparr>)"
| "published HakoAssetEvent_Start e = e\<lparr>ev_event := HakoAssetEvent_Start, ev_feedback := False\<rparr>"
| "published HakoAssetEvent_Stop e = e\<lparr>ev_event := HakoAssetEvent_Stop, ev_feedback := False\<rparr>"
| "published HakoAssetEvent_Error e = e\<lparr>ev_event := HakoAssetEvent_Error, ev_feedback := True\<rparr>"
| "published _ e = e"

lemma published_pid [simp]: "ev_pid (published event e) = ev_pid e"
  by (cases event) simp_all

lemma notify_remote:
  assumes "table_ok (he_build env) (master_datap w)" and "notified_remotely env (master_datap w)"
    and "i < length (assets (master_datap w))" "entry_used (assets (master_datap w) ! i)"
  shows "\<exists>w'. notify env (int i) event w = Inr w' \<and> master_datap w' = (master_datap w)\<lparr>assets_ev :=
    (assets_ev (master_datap w))[i := (assets_ev (master_datap w) ! i)\<lparr>ev_event := event, ev_feedback := False\<rparr>]\<rparr>"
proof -
  have "get_asset_event_nolock (he_build env) (int i) w = Some i" and len: "i < length (assets_ev (master_datap w))"
    using get_asset_Some [OF assms(1), of i i] assms by (simp_all add: get_asset_event_nolock_def table_ok_def)
  moreover have "cb_start (ae_callback (assets (master_datap w) ! i)) = None \<or>
      ev_pid (assets_ev (master_datap w) ! i) \<noteq> he_pid env"
    using assms(2-4) by (simp add: notified_remotely_def)
  ultimately show ?thesis by (auto simp: notify_def Let_def)
qed

text \<open>The events of the used slots in \<open>I\<close> have been published; the rest is as it was.\<close>

definition events_published :: "HakoAssetEventType \<Rightarrow> nat set \<Rightarrow> HakoMasterDataType \<Rightarrow> HakoMasterDataType \<Rightarrow> bool" where
  "events_published event I d d' \<longleftrightarrow>
     d' = d\<lparr>assets_ev := assets_ev d'\<rparr> \<and> length (assets_ev d') = length (assets_ev d) \<and>
     (\<forall>j < length (assets_ev d). assets_ev d' ! j =
        (if j \<in> I \<and> entry_used (assets d ! j) then published event (assets_ev d ! j) else assets_ev d ! j))"

lemma events_published_none [simp]: "events_published event {} d d"
  by (simp add: events_published_def)

lemma events_published_skip:
  "\<not> (i < length (assets_ev d) \<and> entry_used (assets d ! i)) \<Longrightarrow>
   events_published event I d d' \<Longrightarrow> events_published event (insert i I) d d'"
  unfolding events_published_def by (metis insert_iff)

lemma events_published_step:
  assumes "i < length (assets_ev d)" and "entry_used (assets d ! i)" and "i \<notin> I"
    and "events_published event I (d\<lparr>assets_ev := (assets_ev d)[i := published event (assets_ev d ! i)]\<rparr>) d'"
  shows "events_published event (insert i I) d d'"
  using assms unfolding events_published_def by (auto simp: nth_list_update)

lemma events_published_undisturbed:
  assumes "events_published event I d d'"
  shows "undisturbed d d'"
proof -
  obtain es where "d' = d\<lparr>assets_ev := es\<rparr>" "length es = length (assets_ev d)"
    using assms unfolding events_published_def by metis
  then show ?thesis by simp
qed

lemma publish_from_remote:
  assumes "table_ok (he_build env) (master_datap w)" and "notified_remotely env (master_datap w)" and "distinct is"
  shows "\<exists>w'. publish_from env event is w = Inr w' \<and>
    events_published event (set is) (master_datap w) (master_datap w')"
  using assms
proof (induction "is" arbitrary: w)
  case Nil
  then show ?case by simp
next
  case (Cons i "is")
  let ?d = "master_datap w"
  show ?case
  proof (cases "get_asset (he_build env) (int i) w")
    case None
    then have "\<not> (i < length (assets_ev ?d) \<and> entry_used (assets ?d ! i))"
      using get_asset_Some [OF Cons.prems(1), of i i] Cons.prems(1) by (auto simp: table_ok_def)
    then show ?thesis using None Cons events_published_skip by fastforce
  next
    case (Some slot)
    then have i: "slot = i" "i < length (assets ?d)" "entry_used (assets ?d ! i)"
      using get_asset_Some [OF Cons.prems(1), of i slot] by simp_all
    then have len: "i < length (assets_ev ?d)" using Cons.prems(1) by (simp add: table_ok_def)
    let ?step = "case event of
                  HakoAssetEvent_Reset \<Rightarrow>
                    if ev_event (assets_ev ?d ! slot) = HakoAssetEvent_Error
                    then Inr (upd_ev slot (\<lambda>e. e\<lparr>ev_feedback := True\<rparr>) w)
                    else notify env (int i) event w
                | HakoAssetEvent_Start \<Rightarrow> notify env (int i) event w
                | HakoAssetEvent_Stop \<Rightarrow> notify env (int i) event w
                | HakoAssetEvent_Error \<Rightarrow> Inr (upd_ev slot (\<lambda>e. e\<lparr>ev_event := event, ev_feedback := True\<rparr>) w)
                | _ \<Rightarrow> Inr w"
    let ?d1 = "?d\<lparr>assets_ev := (assets_ev ?d)[i := published event (assets_ev ?d ! i)]\<rparr>"
    have "\<exists>w1. ?step = Inr w1 \<and> master_datap w1 = ?d1"
      using notify_remote [OF Cons.prems(1,2) i(2,3), of event] i(1) by (cases event) auto
    then obtain w1 where w1: "?step = Inr w1" "master_datap w1 = ?d1" by blast
    have ok1: "table_ok (he_build env) (master_datap w1)"
      using Cons.prems(1) w1(2) undisturbed_table [of ?d "master_datap w1"] by simp
    moreover have "notified_remotely env (master_datap w1)"
      using Cons.prems(2) len by (simp add: notified_remotely_def w1(2) nth_list_update)
    ultimately obtain w2 where w2: "publish_from env event is w1 = Inr w2"
      "events_published event (set is) ?d1 (master_datap w2)"
      using Cons.IH [of w1] Cons.prems(3) w1(2) by auto
    have "publish_from env event (i # is) w = bindE ?step (publish_from env event is)" using Some by simp
    then have "publish_from env event (i # is) w = Inr w2" by (simp only: w1(1) bindE_simps w2(1))
    then show ?thesis
      using events_published_step [OF len i(3) _ w2(2)] Cons.prems(3) by auto
  qed
qed

text \<open>An accepted command: the state, and the event and feedback of every asset.\<close>

fun cmd_event :: "sim_cmd \<Rightarrow> HakoAssetEventType" where
  "cmd_event Cmd_Start = HakoAssetEvent_Start"
| "cmd_event Cmd_Stop = HakoAssetEvent_Stop"
| "cmd_event Cmd_Reset = HakoAssetEvent_Reset"

lemma sim_exec_trigger:
  "cmd_next cmd (sim_state (master_datap w)) = Some st \<Longrightarrow> \<exists>e. sim_exec env cmd w =
     trigger_event env (sim_state (master_datap w)) st (cmd_event cmd) (effect e w)"
  by (cases cmd; cases "sim_state (master_datap w)")
     (auto simp: sim_start_def sim_stop_def sim_reset_def Let_def)

lemma command_publishes:
  assumes "table_ok (he_build env) (master_datap w)" and "notified_remotely env (master_datap w)"
    and "cmd_next cmd (sim_state (master_datap w)) = Some st"
  shows "\<exists>w'. sim_exec env cmd w = Inr (True, w') \<and>
    events_published (cmd_event cmd) UNIV (clear_feedback ((master_datap w)\<lparr>sim_state := st\<rparr>)) (master_datap w')"
proof -
  obtain e where e: "sim_exec env cmd w =
      trigger_event env (sim_state (master_datap w)) st (cmd_event cmd) (effect e w)"
    using sim_exec_trigger [OF assms(3)] by blast
  define w1 where "w1 = md_unlock (upd_md clear_feedback (upd_md (\<lambda>d. d\<lparr>sim_state := st\<rparr>) (md_lock (effect e w))))"
  have d1: "master_datap w1 = clear_feedback ((master_datap w)\<lparr>sim_state := st\<rparr>)" by (simp add: w1_def)
  have und: "undisturbed ((master_datap w)\<lparr>sim_state := st\<rparr>) (master_datap w1)"
    by (simp add: d1 undisturbed_def clear_feedback_def)
  have ok: "table_ok (he_build env) (master_datap w1)" using undisturbed_table [OF und] assms(1) by simp
  have "notified_remotely env (master_datap w1)"
    using assms(1,2) by (simp add: notified_remotely_def d1 clear_feedback_def table_ok_def in_use_iff)
  from publish_from_remote [OF ok this distinct_upt, of "cmd_event cmd" 0 "HAKO_DATA_MAX_ASSET_NUM (he_build env)"]
  obtain w2 where w2: "publish_event_nolock env (cmd_event cmd) w1 = Inr w2"
    "events_published (cmd_event cmd) {0..<HAKO_DATA_MAX_ASSET_NUM (he_build env)} (master_datap w1) (master_datap w2)"
    by (auto simp: publish_event_nolock_def)
  have "length (assets_ev (master_datap w1)) = HAKO_DATA_MAX_ASSET_NUM (he_build env)"
    using ok by (simp add: table_ok_def)
  then have "events_published (cmd_event cmd) UNIV (master_datap w1) (master_datap w2)"
    using w2(2) unfolding events_published_def by simp
  moreover have "sim_exec env cmd w = Inr (True, w2)"
    using e w2(1) by (simp add: trigger_event_def w1_def Let_def)
  ultimately show ?thesis using d1 by auto
qed

section \<open>Acknowledgements\<close>

fun cmd_state :: "sim_cmd \<Rightarrow> HakoSimulationStateType" where
  "cmd_state Cmd_Start = HakoSim_Runnable"
| "cmd_state Cmd_Stop = HakoSim_Stopping"
| "cmd_state Cmd_Reset = HakoSim_Resetting"

fun ack :: "'m hako_env \<Rightarrow> sim_cmd \<Rightarrow> string \<Rightarrow> bool \<Rightarrow> (bool, 'm) master_op" where
  "ack env Cmd_Start = start_feedback env"
| "ack env Cmd_Stop = stop_feedback env"
| "ack env Cmd_Reset = reset_feedback env"

text \<open>The last feedback that the asset in slot \<open>i\<close> gives in a sequence of calls.\<close>

fun ack_of :: "(string \<Rightarrow> nat option) \<Rightarrow> (string \<times> bool) list \<Rightarrow> nat \<Rightarrow> bool option" where
  "ack_of dir [] i = None"
| "ack_of dir ((n, b) # fs) i =
     (case ack_of dir fs i of Some r \<Rightarrow> Some r | None \<Rightarrow> if dir n = Some i then Some b else None)"

lemma ack_feedback: "\<exists>e. ack env cmd n b w = feedback env n b (cmd_state cmd) (effect e w)"
  by (cases cmd) (auto simp: feedback_defs)

lemma ack_recorded:
  assumes ok: "table_ok (he_build env) (master_datap w)" and st: "sim_state (master_datap w) = cmd_state cmd"
  shows "\<exists>r w'. ack env cmd n b w = Inr (r, w') \<and> undisturbed (master_datap w) (master_datap w') \<and>
    (\<forall>i < length (assets_ev (master_datap w)). ev_feedback (assets_ev (master_datap w') ! i) =
       (if get_asset_nolock n w = Some i then b else ev_feedback (assets_ev (master_datap w) ! i)))"
proof -
  obtain e where e: "ack env cmd n b w = feedback env n b (cmd_state cmd) (effect e w)" using ack_feedback by blast
  have ok': "table_ok (he_build env) (master_datap (effect e w))" using ok by simp
  show ?thesis
  proof (cases "get_asset_nolock n w")
    case None
    then have "ack env cmd n b w = Inr (False, md_unlock (md_lock (effect e w)))"
      using e feedback_eq [OF ok', of n b "cmd_state cmd"] by simp
    then show ?thesis using None by auto
  next
    case (Some k)
    let ?w = "md_unlock (upd_ev k (feedback_event (he_now env) True b) (md_lock (effect e w)))"
    have "ack env cmd n b w = Inr (True, ?w)"
      using Some e st feedback_eq [OF ok', of n b "cmd_state cmd"] by simp
    moreover have "undisturbed (master_datap w) (master_datap ?w)" by (simp add: undisturbed_def)
    moreover have "\<forall>i < length (assets_ev (master_datap w)). ev_feedback (assets_ev (master_datap ?w) ! i) =
        (if get_asset_nolock n w = Some i then b else ev_feedback (assets_ev (master_datap w) ! i))"
      using Some by (auto simp: nth_list_update feedback_event_def)
    ultimately show ?thesis by blast
  qed
qed

lemma acks_recorded:
  assumes "table_ok (he_build env) (master_datap w)" and "sim_state (master_datap w) = cmd_state cmd"
  shows "\<exists>rs w'. run_all (\<lambda>(n, b). ack env cmd n b) fs w = Inr (rs, w') \<and>
    undisturbed (master_datap w) (master_datap w') \<and>
    (\<forall>i < length (assets_ev (master_datap w)). ev_feedback (assets_ev (master_datap w') ! i) =
       (case ack_of (\<lambda>n. get_asset_nolock n w) fs i of
          None \<Rightarrow> ev_feedback (assets_ev (master_datap w) ! i) | Some b \<Rightarrow> b))"
  using assms
proof (induction fs arbitrary: w)
  case Nil
  then show ?case by simp
next
  case (Cons f fs)
  obtain n b where f: "f = (n, b)" by (cases f)
  obtain r w1 where w1: "ack env cmd n b w = Inr (r, w1)" "undisturbed (master_datap w) (master_datap w1)"
    "\<forall>i < length (assets_ev (master_datap w)). ev_feedback (assets_ev (master_datap w1) ! i) =
       (if get_asset_nolock n w = Some i then b else ev_feedback (assets_ev (master_datap w) ! i))"
    using ack_recorded [OF Cons.prems] by blast
  have same: "assets (master_datap w1) = assets (master_datap w)" "sim_state (master_datap w1) = cmd_state cmd"
    "length (assets_ev (master_datap w1)) = length (assets_ev (master_datap w))"
    using w1(2) Cons.prems(2) by (simp_all add: undisturbed_def)
  have dir: "get_asset_nolock m w1 = get_asset_nolock m w" for m by (rule get_asset_nolock_cong [OF same(1)])
  obtain rs w2 where "run_all (\<lambda>(n, b). ack env cmd n b) fs w1 = Inr (rs, w2)"
    "undisturbed (master_datap w1) (master_datap w2)"
    "\<forall>i < length (assets_ev (master_datap w1)). ev_feedback (assets_ev (master_datap w2) ! i) =
       (case ack_of (\<lambda>n. get_asset_nolock n w1) fs i of
          None \<Rightarrow> ev_feedback (assets_ev (master_datap w1) ! i) | Some b \<Rightarrow> b)"
    using Cons.IH [of w1] Cons.prems(1) same(2) undisturbed_table [OF w1(2)] by blast
  then show ?case
    using w1 same undisturbed_trans [OF w1(2)] by (auto simp: f dir split: option.splits)
qed

lemma all_feedback_iff:
  "is_all_feedback_nolock w \<longleftrightarrow>
     (\<forall>i < length (assets (master_datap w)). entry_used (assets (master_datap w) ! i) \<longrightarrow>
        ev_feedback (assets_ev (master_datap w) ! i))"
  by (auto simp: is_all_feedback_nolock_def list_all_iff in_use_iff)

text \<open>The handling settles exactly if all feedback is positive.\<close>

lemma handling_settles_iff:
  assumes "table_ok (he_build env) (master_datap w)" and "names_ok (master_datap w)"
    and "sim_event_needs_handling (sim_state (master_datap w))"
  shows "\<exists>r w'. do_event_handling env w = Inr (r, w') \<and>
    (sim_state (master_datap w') = settled (sim_state (master_datap w)) \<longleftrightarrow> is_all_feedback_nolock w)"
proof (cases "is_all_feedback_nolock w")
  case True
  then show ?thesis using settle_handling [OF assms(3)] by auto
next
  case False
  have "settled (sim_state (master_datap w)) \<noteq> HakoSim_Error"
    using assms(3) by (cases "sim_state (master_datap w)") (simp_all add: sim_event_needs_handling_def)
  then have neq: "HakoSim_Error \<noteq> settled (sim_state (master_datap w))"
    "sim_state (master_datap w) \<noteq> settled (sim_state (master_datap w))"
    using settled_neq [OF assms(3)] by simp_all
  show ?thesis
  proof (cases "timed_out env w = {}")
    case True
    then show ?thesis using wait_handling [OF assms(1,3) False] neq False by auto
  next
    case late: False
    obtain r w' where "do_event_handling env w = Inr (r, w')" "sim_state (master_datap w') = HakoSim_Error"
      using timeout_handling [OF assms False late] by blast
    then show ?thesis using neq False by (intro exI [of _ r] exI [of _ w']) simp
  qed
qed

section \<open>Properties\<close>

text \<open>
  The commands of the simulation event controller follow their specification: with
  callbacks that return, each command returns, it is accepted exactly in the states that
  \<open>cmd_next\<close> names, an accepted command moves the simulation to the state named there, and
  no command touches the table of assets or the time.
\<close>

lemma sim_commands_spec:
  assumes "hako_callbacks env known"
    and "table_ok (he_build env) (master_datap w)" and "callbacks_ok known (master_datap w)"
  shows "\<exists>w'. sim_exec env cmd w = Inr (cmd_next cmd (sim_state (master_datap w)) \<noteq> None, w') \<and>
    sim_state (master_datap w') = (case cmd_next cmd (sim_state (master_datap w)) of
        None \<Rightarrow> sim_state (master_datap w) | Some st \<Rightarrow> st) \<and>
    assets (master_datap w') = assets (master_datap w) \<and> asset_num (master_datap w') = asset_num (master_datap w) \<and>
    time_usec (master_datap w') = time_usec (master_datap w)"
  using hako_callbacks.sim_exec_next [OF assms, of cmd] by (auto simp: undisturbed_def)

lemma demo_callbacks: "hako_callbacks (demo_henv now) (\<lambda>f. f \<le> 2)"
  unfolding demo_henv_def by (rule sample.hako_callbacks_axioms)

lemma demo_polls: "callbacks_ok known (demo_master st)"
  by (auto simp: callbacks_ok_def demo_master_def entry_used_def zero_entry_def zero_callback_def)

lemma demo_state [simp]: "sim_state (demo_master st) = st"
  by (simp add: demo_master_def)

text \<open>
  C19: The acknowledgement of a command by the assets decides what it leads to. After an
  accepted command to assets that poll or live in other processes, after any sequence of
  feedback calls, the next event handling of the master settles the simulation (in
  \<open>Running\<close> for start, in \<open>Stopped\<close> for stop and reset) exactly if the last feedback of
  every registered asset was positive; an asset whose event is an error counts as having
  acknowledged a reset. None of the calls faults.
\<close>

theorem command_settles_iff_acknowledged:
  assumes ok: "table_ok (he_build env) (master_datap w)" "names_ok (master_datap w)"
    and remote: "notified_remotely env (master_datap w)"
    and cmd: "cmd_next cmd (sim_state (master_datap w)) = Some (cmd_state cmd)"
    and build: "he_build env' = he_build env" "he_build env'' = he_build env"
  shows "\<exists>w1 rs w2 r w3. sim_exec env cmd w = Inr (True, w1) \<and>
    run_all (\<lambda>(n, b). ack env' cmd n b) fs w1 = Inr (rs, w2) \<and> do_event_handling env'' w2 = Inr (r, w3) \<and>
    (sim_state (master_datap w3) = settled (cmd_state cmd) \<longleftrightarrow>
      (\<forall>i < length (assets (master_datap w)). entry_used (assets (master_datap w) ! i) \<longrightarrow>
        (case ack_of (\<lambda>n. get_asset_nolock n w) fs i of
           Some b \<Rightarrow> b
         | None \<Rightarrow> cmd = Cmd_Reset \<and> ev_event (assets_ev (master_datap w) ! i) = HakoAssetEvent_Error)))"
proof -
  let ?d = "master_datap w"
  obtain w1 where w1: "sim_exec env cmd w = Inr (True, w1)"
    "events_published (cmd_event cmd) UNIV (clear_feedback (?d\<lparr>sim_state := cmd_state cmd\<rparr>)) (master_datap w1)"
    using command_publishes [OF ok(1) remote cmd] by blast
  have und: "undisturbed (?d\<lparr>sim_state := cmd_state cmd\<rparr>) (master_datap w1)"
    using events_published_undisturbed [OF w1(2)] by (simp add: undisturbed_def clear_feedback_def)
  have same: "assets (master_datap w1) = assets ?d" "sim_state (master_datap w1) = cmd_state cmd"
    "length (assets_ev (master_datap w1)) = length (assets_ev ?d)"
    using und by (simp_all add: undisturbed_def)
  have len: "length (assets ?d) = length (assets_ev ?d)" using ok(1) by (simp add: table_ok_def)
  have pub: "ev_feedback (assets_ev (master_datap w1) ! i) \<longleftrightarrow>
      cmd = Cmd_Reset \<and> ev_event (assets_ev ?d ! i) = HakoAssetEvent_Error"
    if "i < length (assets ?d)" "entry_used (assets ?d ! i)" for i
    using w1(2) that len
    by (cases cmd) (simp_all add: events_published_def clear_feedback_def in_use_iff)
  have ok1: "table_ok (he_build env') (master_datap w1)" using undisturbed_table [OF und] ok(1) build by simp
  obtain rs w2 where w2: "run_all (\<lambda>(n, b). ack env' cmd n b) fs w1 = Inr (rs, w2)"
    "undisturbed (master_datap w1) (master_datap w2)"
    "\<forall>i < length (assets_ev (master_datap w1)). ev_feedback (assets_ev (master_datap w2) ! i) =
       (case ack_of (\<lambda>n. get_asset_nolock n w1) fs i of
          None \<Rightarrow> ev_feedback (assets_ev (master_datap w1) ! i) | Some b \<Rightarrow> b)"
    using acks_recorded [OF ok1 same(2)] by blast
  have dir: "get_asset_nolock n w1 = get_asset_nolock n w" for n by (rule get_asset_nolock_cong [OF same(1)])
  have same2: "assets (master_datap w2) = assets ?d" "sim_state (master_datap w2) = cmd_state cmd"
    using w2(2) same by (simp_all add: undisturbed_def)
  have ok2: "table_ok (he_build env'') (master_datap w2)" "names_ok (master_datap w2)"
    using undisturbed_table [OF w2(2)] ok1 ok(2) build same2(1) by (simp_all add: names_ok_def)
  have trans: "sim_event_needs_handling (sim_state (master_datap w2))"
    using same2(2) by (cases cmd) (simp_all add: sim_event_needs_handling_def)
  obtain r w3 where w3: "do_event_handling env'' w2 = Inr (r, w3)"
    "sim_state (master_datap w3) = settled (cmd_state cmd) \<longleftrightarrow> is_all_feedback_nolock w2"
    using handling_settles_iff [OF ok2 trans] same2(2) by auto
  have "is_all_feedback_nolock w2 \<longleftrightarrow> (\<forall>i < length (assets ?d). entry_used (assets ?d ! i) \<longrightarrow>
        (case ack_of (\<lambda>n. get_asset_nolock n w) fs i of
           Some b \<Rightarrow> b | None \<Rightarrow> cmd = Cmd_Reset \<and> ev_event (assets_ev ?d ! i) = HakoAssetEvent_Error))"
    unfolding all_feedback_iff same2(1) using w2(3) pub same(3) len by (simp add: dir split: option.split)
  then show ?thesis using w1(1) w2(1) w3 by blast
qed

lemma demo_names: "names_ok (demo_master st)"
  by (auto simp: names_ok_def demo_master_def NUL_def entry_used_def zero_entry_def)

lemma demo_remote: "notified_remotely (demo_henv now) (demo_master st)"
  by (auto simp: notified_remotely_def demo_master_def entry_used_def zero_entry_def zero_callback_def nth_Cons
      split: nat.splits)

theorem command_settles_iff_acknowledged_witness:
  "\<exists>w1 rs w2 r w3. sim_start (demo_henv 0) (demo_data HakoSim_Stopped) = Inr (True, w1) \<and>
    run_all (\<lambda>(n, b). start_feedback (demo_henv 3) n b) [(''a'', False), (''b'', False), (''a'', True)] w1 = Inr (rs, w2) \<and>
    do_event_handling (demo_henv 9) w2 = Inr (r, w3) \<and> sim_state (master_datap w3) = HakoSim_Running"
proof -
  let ?w = "demo_data HakoSim_Stopped"
  have a: "get_asset_nolock ''a'' ?w = Some 0" and b: "get_asset_nolock ''b'' ?w = None"
    by (simp_all add: get_asset_nolock_eq demo_master_def entry_matches_def entry_used_def zero_entry_def
        fixed_matches_def hako_string2fixed_def)
  have used: "i = 0" if "i < length (assets (demo_master HakoSim_Stopped))"
    "entry_used (assets (demo_master HakoSim_Stopped) ! i)" for i
    using that by (auto simp: demo_master_def entry_used_def zero_entry_def nth_Cons split: nat.splits)
  show ?thesis
    using command_settles_iff_acknowledged [of "demo_henv 0" ?w Cmd_Start "demo_henv 3" "demo_henv 9"
        "[(''a'', False), (''b'', False), (''a'', True)]"]
      demo_table [of HakoSim_Stopped] demo_names [of HakoSim_Stopped] demo_remote [of 0 HakoSim_Stopped] used a b
    by auto
qed

text \<open>
  C20: Event handling while an event is not acknowledged by all assets looks at the age of
  each asset's last sign of life, the clock reading that its registration, its last time
  report or its last feedback stored, and not at how long the event is pending or who has
  answered it. If no registered asset has been silent for the timeout (30 seconds, unless a
  positive one is set), nothing changes. Otherwise the simulation goes to the error state and
  exactly the silent assets lose their slots, those that had answered as well, while assets
  that have not answered but give signs of life stay; the other entries, the time and the
  soundness of the table are kept.
\<close>

theorem timeout_removes_silent_assets:
  assumes "table_ok (he_build env) (master_datap w)" and "names_ok (master_datap w)"
    and "sim_event_needs_handling (sim_state (master_datap w))" and "\<not> is_all_feedback_nolock w"
  shows "let d = master_datap w; st = sim_state d;
      limit = (if asset_timeout_usec w \<le> 0 then 30000000 else asset_timeout_usec w);
      silent = (\<lambda>j. entry_used (assets d ! j) \<and> ev_update_time (assets_ev d ! j) + limit \<le> he_now env) in
    if \<forall>j < length (assets d). \<not> silent j
    then do_event_handling env w = Inr ((False, st, st), md_unlock (md_lock w))
    else \<exists>w'. do_event_handling env w = Inr ((False, st, st), w') \<and> table_ok (he_build env) (master_datap w') \<and>
      sim_state (master_datap w') = HakoSim_Error \<and> time_usec (master_datap w') = time_usec d \<and>
      (\<forall>j < length (assets d). assets (master_datap w') ! j =
         (if silent j then (assets d ! j)\<lparr>ae_type := HakoAsset_Unknown\<rparr> else assets d ! j))"
proof -
  let ?d = "master_datap w" and ?limit = "if asset_timeout_usec w \<le> 0 then 30000000 else asset_timeout_usec w"
  have "length (assets ?d) = HAKO_DATA_MAX_ASSET_NUM (he_build env)" using assms(1) by (simp add: table_ok_def)
  then have silent: "timed_out env w = {j. j < length (assets ?d) \<and> entry_used (assets ?d ! j) \<and>
      ev_update_time (assets_ev ?d ! j) + ?limit \<le> he_now env}"
    by (auto simp: timed_out_def is_asset_timeout_nolock_def hako_clock_is_timeout_def HAKO_ASSET_TIMEOUT_USEC_def)
  show ?thesis
  proof (cases "timed_out env w = {}")
    case True
    then show ?thesis using wait_handling [OF assms(1,3,4) True] by (auto simp: silent Let_def)
  next
    case False
    from timeout_handling [OF assms False] False show ?thesis by (auto simp: silent Let_def)
  qed
qed

text \<open>Two assets: the first has answered and then been silent, the second reports and does not answer.\<close>

definition two_assets :: "mmap_state HakoMasterData" where
  "two_assets = upd_md (\<lambda>d. d\<lparr>asset_num := 2,
     assets := (assets d)[1 := \<lparr>ae_id = 1, ae_name = hako_string2fixed ''b'' zero_fixed, ae_type = HakoAsset_Inside,
       ae_callback = zero_callback\<rparr>],
     assets_ev := [zero_event\<lparr>ev_feedback := True\<rparr>, zero_event\<lparr>ev_update_time := 1\<rparr>]\<rparr>) (demo_data HakoSim_Runnable)"

lemma two_assets_ok: "table_ok small_build (master_datap two_assets)" "names_ok (master_datap two_assets)"
proof -
  have "fixed_ok (hako_string2fixed n zero_fixed)" if "n \<in> {''a'', ''b''}" for n
    using that by (intro fixed_ok_string2fixed) (auto simp: HAKO_FIXED_STRLEN_MAX_def)
  then show "table_ok small_build (master_datap two_assets)"
    by (auto simp: table_ok_def two_assets_def demo_master_def entry_used_def zero_entry_def nth_Cons split: nat.splits)
  show "names_ok (master_datap two_assets)"
    by (auto simp: names_ok_def two_assets_def demo_master_def NUL_def)
qed

theorem timeout_removes_silent_assets_witness:
  "\<exists>r w. do_event_handling (demo_henv 30000000) two_assets = Inr (r, w) \<and> sim_state (master_datap w) = HakoSim_Error \<and>
    ae_type (assets (master_datap w) ! 0) = HakoAsset_Unknown \<and> ae_type (assets (master_datap w) ! 1) = HakoAsset_Inside"
proof -
  have "sim_event_needs_handling (sim_state (master_datap two_assets))" "\<not> is_all_feedback_nolock two_assets"
    by (simp_all add: two_assets_def demo_master_def sim_event_needs_handling_def is_all_feedback_nolock_def in_use_def
        zero_event_def)
  moreover have d: "assets (master_datap two_assets) =
      [assets (demo_master HakoSim_Runnable) ! 0, \<lparr>ae_id = 1, ae_name = hako_string2fixed ''b'' zero_fixed,
         ae_type = HakoAsset_Inside, ae_callback = zero_callback\<rparr>]"
    "assets_ev (master_datap two_assets) = [zero_event\<lparr>ev_feedback := True\<rparr>, zero_event\<lparr>ev_update_time := 1\<rparr>]"
    "asset_timeout_usec two_assets = 30000000"
    "entry_used (assets (demo_master HakoSim_Runnable) ! 0)" "\<And>a. ae_type a = HakoAsset_Inside \<Longrightarrow> entry_used a"
    by (simp_all add: two_assets_def demo_master_def entry_used_def)
  moreover have not_all: "All ((<) (0::nat)) = False" by (metis less_irrefl)
  ultimately show ?thesis
    using timeout_removes_silent_assets [of "demo_henv 30000000" two_assets] two_assets_ok
    by (auto simp: Let_def d not_all zero_event_def All_less_Suc)
qed

end
