(* ===== verification/Hako_Registration.thy ===== *)
theory Hako_Registration
  imports Hako_Master
begin

text \<open>
  The properties of the registration of assets: what a registration and an unregistration
  do to the table, what a new asset inherits from the slot it takes, what happens when an
  asset is unregistered while the simulation runs, and the minimum of the assets' times.
\<close>

section \<open>Registration\<close>

lemma alloc_keeps_table:
  assumes ok: "table_ok (he_build env) (master_datap w)" and run: "alloc_asset env name type callback w = (r, w')"
  shows "table_ok (he_build env) (master_datap w')"
proof (cases "can_register (he_build env) name type (master_datap w)")
  case False
  from alloc_asset_refuses [OF ok False, of callback] run ok show ?thesis by auto
next
  case True
  then have can: "first_index (entry_matches name) (assets (master_datap w)) = None"
    "length name \<le> HAKO_FIXED_STRLEN_MAX" "type \<noteq> HakoAsset_Unknown" by (simp_all add: can_register_def)
  from alloc_asset_accepts [OF ok True, of callback] obtain i where
    i: "i < length (assets (master_datap w))" "\<not> entry_used (assets (master_datap w) ! i)" and
    eq: "alloc_asset env name type callback w =
       (int i, md_unlock (upd_md (\<lambda>d. d\<lparr>assets := (assets d)[i := new_entry name type callback i (assets d ! i)],
          assets_ev := (assets_ev d)[i := new_event env type (assets_ev d ! i)],
          asset_num := asset_num d + 1\<rparr>) (md_lock w)))" by blast
  show ?thesis using run table_ok_fill [OF ok i can] by (auto simp: eq)
qed

text \<open>
  C21: A registration is accepted exactly if the type is not unknown, the name is not too
  long, the simulation is stopped, no registered asset has the name and a slot is free. It
  then takes the lowest free slot, whose index it returns and under whose index the asset is
  found by its name. The entry of the slot has the id, the name, the type and the callbacks
  of the new asset, null ones if none are given; its event record has the pid of the caller,
  the time 0 and the present clock as the last sign of life, no semaphore unless the asset is
  an outside one, and the event and feedback that the slot had before. The number of assets
  goes up by one, everything else in the shared data stays, and the invariant of the table is
  kept. A refused registration returns -1 and leaves the shared data as it was.
\<close>

theorem alloc_asset_spec:
  assumes "table_ok (he_build env) (master_datap w)"
  shows "\<exists>r w'. alloc_asset env name type callback w = (r, w') \<and> table_ok (he_build env) (master_datap w') \<and>
    (if can_register (he_build env) name type (master_datap w)
     then \<exists>i < length (assets (master_datap w)). r = int i \<and>
            first_index (\<lambda>a. \<not> entry_used a) (assets (master_datap w)) = Some i \<and>
            get_asset_nolock name w' = Some i \<and>
            hako_fixed2string (ae_name (assets (master_datap w') ! i)) = name \<and>
            (let d = master_datap w; a = assets d ! i; e = assets_ev d ! i in
             master_datap w' = d\<lparr>
               assets := (assets d)[i :=
                 \<lparr>ae_id = int i, ae_name = hako_string2fixed name (ae_name a), ae_type = type,
                  ae_callback = (case callback of Some cb \<Rightarrow> cb
                                 | None \<Rightarrow> \<lparr>cb_start = None, cb_stop = None, cb_reset = None\<rparr>)\<rparr>],
               assets_ev := (assets_ev d)[i :=
                 \<lparr>ev_pid = he_pid env, ev_ctime = 0, ev_update_time = he_now env, ev_event = ev_event e,
                  ev_feedback = ev_feedback e,
                  ev_semid = (if type = HakoAsset_Outside then ev_semid e else -1)\<rparr>],
               asset_num := asset_num d + 1\<rparr>)
     else r = -1 \<and> master_datap w' = master_datap w)"
proof (cases "can_register (he_build env) name type (master_datap w)")
  case False
  then show ?thesis using alloc_asset_refuses [OF assms False, of callback] assms by auto
next
  case True
  let ?d = "master_datap w"
  from alloc_asset_accepts [OF assms True, of callback] obtain i where
    i: "i < length (assets ?d)" "\<not> entry_used (assets ?d ! i)" "\<forall>j < i. entry_used (assets ?d ! j)" and
    run: "alloc_asset env name type callback w =
       (int i, md_unlock (upd_md (\<lambda>d. d\<lparr>assets := (assets d)[i := new_entry name type callback i (assets d ! i)],
          assets_ev := (assets_ev d)[i := new_event env type (assets_ev d ! i)],
          asset_num := asset_num d + 1\<rparr>) (md_lock w)))" by blast
  have can: "first_index (entry_matches name) (assets ?d) = None" "type \<noteq> HakoAsset_Unknown"
    using True by (simp_all add: can_register_def)
  have entry: "new_entry name type callback i a = \<lparr>ae_id = int i, ae_name = hako_string2fixed name (ae_name a),
      ae_type = type, ae_callback = (case callback of Some cb \<Rightarrow> cb | None \<Rightarrow> \<lparr>cb_start = None, cb_stop = None, cb_reset = None\<rparr>)\<rparr>" for a
    by (cases a; cases callback) (simp_all add: new_entry_def zero_callback_def)
  have event: "new_event env type e = \<lparr>ev_pid = he_pid env, ev_ctime = 0, ev_update_time = he_now env,
      ev_event = ev_event e, ev_feedback = ev_feedback e,
      ev_semid = (if type = HakoAsset_Outside then ev_semid e else -1)\<rparr>" for e
    by (cases e) (simp add: new_event_def)
  have "first_index (\<lambda>a. \<not> entry_used a) (assets ?d) = Some i" using i by (simp add: first_index_Some)
  moreover have "first_index (entry_matches name) ((assets ?d)[i := new_entry name type callback i (assets ?d ! i)]) = Some i"
    by (rule lookup_after_fill(1) [OF assms i(1,2) can(2) refl can(1)])
  ultimately show ?thesis
    using True run i(1) alloc_keeps_table [OF assms run]
    by (auto simp: get_asset_nolock_eq entry event Let_def)
qed

lemma demo_zero: "table_ok small_build (zero_master small_build 1)"
  by (rule table_ok_zero) simp

definition empty_data :: "mmap_state HakoMasterData" where
  "empty_data = \<lparr>master_datap = zero_master small_build 1, pdu_datap = demo_pdu, asset_timeout_usec = 30000000,
     is_master_locked = False\<rparr>"

lemma empty_data_simps [simp]:
  "master_datap empty_data = zero_master small_build 1" "pdu_datap empty_data = demo_pdu"
  by (simp_all add: empty_data_def)

lemma empty_can_register: "can_register small_build ''robo'' HakoAsset_Inside (zero_master small_build 1)"
  by (simp add: can_register_def zero_master_def HAKO_FIXED_STRLEN_MAX_def numeral_2_eq_2 entry_matches_def
      entry_used_def zero_entry_def)

theorem alloc_asset_spec_witness:
  "\<exists>w. alloc_asset (demo_henv 5) ''robo'' HakoAsset_Inside (Some \<lparr>cb_start = Some 1, cb_stop = None, cb_reset = Some 3\<rparr>)
      empty_data = (0, w) \<and>
    get_asset_nolock ''robo'' w = Some 0 \<and> asset_num (master_datap w) = 1 \<and>
    ae_callback (assets (master_datap w) ! 0) = \<lparr>cb_start = Some 1, cb_stop = None, cb_reset = Some 3\<rparr> \<and>
    ev_update_time (assets_ev (master_datap w) ! 0) = 5"
  using alloc_asset_spec [of "demo_henv 5" empty_data "''robo''" HakoAsset_Inside
      "Some \<lparr>cb_start = Some 1, cb_stop = None, cb_reset = Some 3\<rparr>"] demo_zero empty_can_register
  by (auto simp: zero_master_def numeral_2_eq_2 entry_used_def zero_entry_def)

text \<open>
  C22: Registration and unregistration of an asset through the controller are inverse on
  the directory of assets: while the simulation is stopped, a new valid name is registered
  if a slot is free, a second registration of it is refused, and its unregistration gives
  back the directory and the number of free slots there were before.
\<close>

theorem register_unregister_roundtrip:
  assumes "table_ok (he_build env) (master_datap w)" and "sim_state (master_datap w) = HakoSim_Stopped"
    and "valid_asset_name name" and "get_asset_nolock name w = None" and "0 < md_free w"
  shows "\<exists>w1 w2 w3 i. asset_register_polling env name w = (True, w1) \<and> get_asset_nolock name w1 = Some i \<and>
    asset_register_polling env name w1 = (False, w2) \<and>
    asset_unregister env name None w1 = Inr (True, None, w3) \<and>
    table_ok (he_build env) (master_datap w3) \<and> md_free w3 = md_free w \<and>
    (\<forall>n. valid_asset_name n \<longrightarrow> get_asset_nolock n w3 = get_asset_nolock n w)"
proof -
  obtain i s1 s2 s3 where s: "alloc_asset env name HakoAsset_Inside None w = (int i, s1)"
    "get_asset_nolock name s1 = Some i" "alloc_asset env name HakoAsset_Inside None s1 = (-1, s2)"
    "free_asset name s1 = (True, s3)" "table_ok (he_build env) (master_datap s3)" "md_free s3 = md_free w"
    "\<forall>n. valid_asset_name n \<longrightarrow> get_asset_nolock n s3 = get_asset_nolock n w"
    using asset_table.register_unregister [OF assms, of None] by blast
  define w1 where "w1 = HAKO_LOG ''INFO'' ''registered: asset: %s'' s1"
  have same: "master_datap w1 = master_datap s1" by (simp add: w1_def)
  have "sim_state (master_datap s1) = HakoSim_Stopped \<or> sim_state (master_datap s1) = HakoSim_Error"
    using s(4) by (auto simp: free_asset_eq split: if_splits option.splits)
  then obtain s3' where s3': "free_asset name w1 = (True, s3')" "master_datap s3' = master_datap s3"
    using s(2,4) same by (auto simp: free_asset_eq get_asset_nolock_eq)
  have ok1: "table_ok (he_build env) (master_datap s1)"
    by (rule alloc_keeps_table [OF assms(1) s(1)])
  have "\<not> can_register (he_build env) name HakoAsset_Inside (master_datap w1)"
    using s(2) same by (simp add: can_register_def get_asset_nolock_eq)
  then obtain s2' where "alloc_asset env name HakoAsset_Inside None w1 = (-1, s2')"
    using alloc_asset_refuses [of env w1 name HakoAsset_Inside None] ok1 same by auto
  then have "asset_register_polling env name w1 = (False, HAKO_LOG ''ERROR'' ''can not registered: asset: %s'' s2')"
    by (simp add: asset_register_polling_def)
  moreover have "asset_register_polling env name w = (True, w1)"
    using s(1) by (simp add: asset_register_polling_def w1_def)
  moreover have "get_asset_nolock name w1 = Some i" using s(2) by (simp add: w1_def)
  moreover obtain w3 where "asset_unregister env name None w1 = Inr (True, None, w3)" "master_datap w3 = master_datap s3"
    using s3' by (simp add: asset_unregister_def)
  ultimately show ?thesis using s(5-7) by (auto simp: md_free_def get_asset_nolock_eq)
qed

theorem register_unregister_roundtrip_witness:
  "\<exists>w1 w3. asset_register_polling (demo_henv 5) ''robo'' empty_data = (True, w1) \<and>
    asset_unregister (demo_henv 5) ''robo'' None w1 = Inr (True, None, w3) \<and> md_free w3 = 2"
proof -
  have "md_free empty_data = 2"
    by (simp add: md_free_def zero_master_def numeral_2_eq_2 entry_used_def zero_entry_def)
  moreover have "valid_asset_name ''robo''" by (simp add: valid_asset_name_def HAKO_FIXED_STRLEN_MAX_def NUL_def)
  moreover have "get_asset_nolock ''robo'' empty_data = None"
    using empty_can_register by (simp add: can_register_def get_asset_nolock_eq)
  ultimately show ?thesis
    using register_unregister_roundtrip [of "demo_henv 5" empty_data "''robo''"] demo_zero
    by (auto simp: zero_master_def)
qed

section \<open>What the slot keeps\<close>

text \<open>
  The event a new asset polls right after its registration is the one that the slot
  held before: \<open>alloc_asset\<close> writes the pid, the times and the semaphore id of the event
  record, and neither the event nor the feedback. So an asset that takes the slot of one
  that left with a pending event is told that event, and one that takes the slot of an
  asset removed by a timeout is told an error.
\<close>

lemma registration_keeps_event:
  assumes "table_ok (he_build env) (master_datap w)"
    and "can_register (he_build env) name HakoAsset_Inside (master_datap w)"
  shows "\<exists>i w'. asset_register_polling env name w = (True, w') \<and>
    first_index (\<lambda>a. \<not> entry_used a) (assets (master_datap w)) = Some i \<and>
    asset_get_event (he_build env) name w' = ev_event (assets_ev (master_datap w) ! i) \<and>
    ev_feedback (assets_ev (master_datap w') ! i) = ev_feedback (assets_ev (master_datap w) ! i)"
proof -
  let ?d = "master_datap w"
  from alloc_asset_accepts [OF assms, of None] obtain i where
    i: "i < length (assets ?d)" "\<not> entry_used (assets ?d ! i)" "\<forall>j < i. entry_used (assets ?d ! j)" and
    run: "alloc_asset env name HakoAsset_Inside None w =
       (int i, md_unlock (upd_md (\<lambda>d. d\<lparr>assets := (assets d)[i := new_entry name HakoAsset_Inside None i (assets d ! i)],
          assets_ev := (assets_ev d)[i := new_event env HakoAsset_Inside (assets_ev d ! i)],
          asset_num := asset_num d + 1\<rparr>) (md_lock w)))" by blast
  define w1 where "w1 = HAKO_LOG ''INFO'' ''registered: asset: %s'' (snd (alloc_asset env name HakoAsset_Inside None w))"
  have reg: "asset_register_polling env name w = (True, w1)"
    by (simp add: asset_register_polling_def w1_def run)
  have d1: "assets (master_datap w1) = (assets ?d)[i := new_entry name HakoAsset_Inside None i (assets ?d ! i)]"
    "assets_ev (master_datap w1) = (assets_ev ?d)[i := new_event env HakoAsset_Inside (assets_ev ?d ! i)]"
    by (simp_all add: w1_def run)
  have len: "i < length (assets_ev ?d)" "i < HAKO_DATA_MAX_ASSET_NUM (he_build env)"
    using assms(1) i(1) by (simp_all add: table_ok_def)
  have can: "first_index (entry_matches name) (assets ?d) = None"
    using assms(2) by (simp add: can_register_def)
  have "get_asset_nolock name w1 = Some i"
    using lookup_after_fill(1) [OF assms(1) i(1,2) _ d1(1) can] by (simp add: get_asset_nolock_eq)
  then have "asset_get_event (he_build env) name w1 = ev_event (assets_ev ?d ! i)"
    using i(1) len
    by (simp add: asset_get_event_def get_asset_event_nolock_def get_asset_def in_use_def d1 new_entry_def new_event_def)
  moreover have "ev_feedback (assets_ev (master_datap w1) ! i) = ev_feedback (assets_ev ?d ! i)"
    using len by (simp add: d1 new_event_def)
  moreover have "first_index (\<lambda>a. \<not> entry_used a) (assets ?d) = Some i" using i by (simp add: first_index_Some)
  ultimately show ?thesis using reg by blast
qed

definition stale_data :: "mmap_state HakoMasterData" where
  "stale_data = upd_ev 0 (\<lambda>e. e\<lparr>ev_event := HakoAssetEvent_Error\<rparr>) empty_data"

section \<open>Unregistration while the simulation runs\<close>

text \<open>
  The unregistration of an asset with callbacks stops its proxy thread whether or not
  the asset was freed. While the simulation is not stopped and not in error the asset is
  kept, the thread wakes up, finds the asset and calls the function registered for its
  current event: for an asset that has acknowledged its last event there is none, and the
  thread calls a null pointer.
\<close>

lemma unregister_while_running_faults:
  assumes "table_ok (he_build env) (master_datap w)" and "get_asset_nolock name w = Some i"
    and "sim_state (master_datap w) \<notin> {HakoSim_Stopped, HakoSim_Error}"
    and "ev_event (assets_ev (master_datap w) ! i) = HakoAssetEvent_None"
    and "he_pid env \<noteq> master_pid (master_datap w)"
  shows "asset_unregister env name
      (Some (rpc_start env w (register_callback HakoAssetEvent_Reset r (register_callback HakoAssetEvent_Stop s
        (register_callback HakoAssetEvent_Start f (new_rpc (int i))))))) w = Inl Null_Deref"
proof -
  have free: "free_asset name w = (False, md_unlock (md_lock w))"
    using assms(3) by (simp add: free_asset_eq)
  have "get_asset_event_nolock (he_build env) (int i) (effect e (md_unlock (md_lock w))) = Some i" for e
    using lookup_slot(5) [OF assms(1,2)] get_asset_event_cong [of "effect e (md_unlock (md_lock w))" w] by simp
  then show ?thesis
    using free assms(4,5)
    by (simp add: asset_unregister_def rpc_stop_def rpc_start_def proxy_turn_def register_callback_def new_rpc_def
        call_ptr_def map_insert_def get_asset_event_nolock_def get_asset_def in_use_def)
qed

definition asset_henv :: "mmap_state hako_env" where
  "asset_henv = (demo_henv 0)\<lparr>he_pid := 2\<rparr>"

section \<open>The times of the assets\<close>

lemma min_from_Min: "min_from m ts = Min (insert m (set ts))"
proof (induction ts arbitrary: m)
  case (Cons t ts)
  show ?case
  proof (cases "t < m")
    case True
    then have "Min (insert m (insert t (set ts))) = Min (insert t (set ts))"
      by (cases "ts = []") (auto simp: min_def)
    with True Cons.IH show ?thesis by simp
  next
    case False
    then have "Min (insert m (insert t (set ts))) = Min (insert m (set ts))"
      by (cases "ts = []") (auto simp: min_def)
    with False Cons.IH show ?thesis by simp
  qed
qed simp

text \<open>
  \<open>get_min_asset_time\<close> is the least time that a registered asset has reported, and 0
  without assets.
\<close>

lemma min_asset_time_is_least:
  assumes "\<forall>i < length (assets (master_datap w)). entry_used (assets (master_datap w) ! i) \<longrightarrow>
    ev_ctime (assets_ev (master_datap w) ! i) \<le> INT64_MAX"
  shows "get_min_asset_time w =
    (let T = {ev_ctime (assets_ev (master_datap w) ! i) | i.
                i < length (assets (master_datap w)) \<and> entry_used (assets (master_datap w) ! i)}
     in if T = {} then 0 else Min T)"
  unfolding asset_times_used [symmetric]
proof (cases "get_asset_times w = []")
  case True
  then show "get_min_asset_time w = (let T = set (get_asset_times w) in if T = {} then 0 else Min T)"
    by (simp add: get_min_asset_time_def)
next
  case False
  then have T: "set (get_asset_times w) \<noteq> {}" by simp
  have "t \<le> INT64_MAX" if "t \<in> set (get_asset_times w)" for t
    using that assms by (auto simp: asset_times_used)
  then have "Min (set (get_asset_times w)) \<le> INT64_MAX" using T Min_in [of "set (get_asset_times w)"] by simp
  then have "get_min_asset_time w = Min (set (get_asset_times w))"
    using False T by (simp add: get_min_asset_time_def min_from_Min Min_insert min_absorb2 Let_def del: Min_le_iff)
  then show "get_min_asset_time w = (let T = set (get_asset_times w) in if T = {} then 0 else Min T)"
    using T by simp
qed

end
