(* ===== verification/Hako_System.thy ===== *)
theory Hako_System
  imports Hako_Simulation Hako_Registration
begin

text \<open>
  The whole control path as one step relation: the processes of a simulation register and
  unregister assets, give commands, acknowledge events, report their times and access
  PDUs, the proxy threads of assets run, and the master configures the time and executes.
  The invariant says that the table of assets stays sound, that the simulation state is one
  of the six of the life cycle, and how the published time and the world's time relate; a
  second theorem gives the transitions of the state and of the published time.
\<close>

section \<open>Steps\<close>

text \<open>
  \<open>known\<close> are the callbacks that the applications register; they behave as the interface
  \<open>hako_callbacks\<close> says, and any of an asset's callbacks may be null. Every process has its
  own environment, all with one build. A PDU access is any operation of the PDU object, its
  result left out. \<open>party_step\<close> has the steps of all parties but one: \<open>sys_step\<close> adds the
  configuration of the time, which the master may call at any moment, and again.
\<close>

inductive party_step :: "hako_build \<Rightarrow> (nat \<Rightarrow> bool) \<Rightarrow> 'm HakoMasterController \<Rightarrow> 'm HakoMasterController \<Rightarrow> bool"
  for b known where
  sys_register_polling: "he_build env = b \<Longrightarrow> NUL \<notin> set name \<Longrightarrow>
     asset_register_polling env name (mc_data c) = (r, w) \<Longrightarrow> party_step b known c (c\<lparr>mc_data := w\<rparr>)"
| sys_register: "he_build env = b \<Longrightarrow> NUL \<notin> set name \<Longrightarrow>
     \<forall>f. Some f \<in> {cb_start cbs, cb_stop cbs, cb_reset cbs} \<longrightarrow> known f \<Longrightarrow>
     asset_register env name cbs rpc (mc_data c) = (r, rpc', w) \<Longrightarrow> party_step b known c (c\<lparr>mc_data := w\<rparr>)"
| sys_unregister: "he_build env = b \<Longrightarrow> NUL \<notin> set name \<Longrightarrow>
     asset_unregister env name rpc (mc_data c) = Inr (r, rpc', w) \<Longrightarrow> party_step b known c (c\<lparr>mc_data := w\<rparr>)"
| sys_proxy: "he_build env = b \<Longrightarrow> hako_callbacks env known \<Longrightarrow> \<forall>e f. rpc_map rpc e = Some (Some f) \<longrightarrow> known f \<Longrightarrow>
     proxy_turn env rpc (mc_data c) = Inr (ended, w) \<Longrightarrow> party_step b known c (c\<lparr>mc_data := w\<rparr>)"
| sys_command: "he_build env = b \<Longrightarrow> hako_callbacks env known \<Longrightarrow>
     sim_exec env cmd (mc_data c) = Inr (r, w) \<Longrightarrow> party_step b known c (c\<lparr>mc_data := w\<rparr>)"
| sys_feedback: "he_build env = b \<Longrightarrow>
     ack env cmd name ok (mc_data c) = Inr (r, w) \<Longrightarrow> party_step b known c (c\<lparr>mc_data := w\<rparr>)"
| sys_simtime: "he_build env = b \<Longrightarrow>
     notify_simtime env name t (mc_data c) = Inr w \<Longrightarrow> party_step b known c (c\<lparr>mc_data := w\<rparr>)"
| sys_pdu: "pdu_call f (mc_data c) = Inr ((), w) \<Longrightarrow> party_step b known c (c\<lparr>mc_data := w\<rparr>)"
| sys_execute: "he_build env = b \<Longrightarrow> execute env c = Inr (r, c') \<Longrightarrow> party_step b known c c'"

inductive sys_step :: "hako_build \<Rightarrow> (nat \<Rightarrow> bool) \<Rightarrow> 'm HakoMasterController \<Rightarrow> 'm HakoMasterController \<Rightarrow> bool"
  for b known where
  sys_party: "party_step b known c c' \<Longrightarrow> sys_step b known c c'"
| sys_config: "0 < delta \<Longrightarrow> sys_step b known c (set_config_simtime max_delay delta c)"

text \<open>The master starts with the zeroed data and no world.\<close>

definition sys_init :: "hako_build \<Rightarrow> 'm HakoMasterController \<Rightarrow> bool" where
  "sys_init b c \<longleftrightarrow> (\<exists>pid w. master_datap w = zero_master b pid \<and> c = \<lparr>theWorld = None, mc_data = w\<rparr>)"

inductive sys_reach :: "hako_build \<Rightarrow> (nat \<Rightarrow> bool) \<Rightarrow> 'm HakoMasterController \<Rightarrow> bool" for b known where
  sys_start: "sys_init b c \<Longrightarrow> sys_reach b known c"
| sys_next: "sys_reach b known c \<Longrightarrow> sys_step b known c c' \<Longrightarrow> sys_reach b known c'"

section \<open>The invariant\<close>

definition life_cycle :: "HakoSimulationStateType set" where
  "life_cycle = {HakoSim_Stopped, HakoSim_Runnable, HakoSim_Running, HakoSim_Stopping, HakoSim_Resetting, HakoSim_Error}"

definition data_inv :: "hako_build \<Rightarrow> (nat \<Rightarrow> bool) \<Rightarrow> HakoMasterDataType \<Rightarrow> bool" where
  "data_inv b known d \<longleftrightarrow> table_ok b d \<and> names_ok d \<and> callbacks_known known d \<and> sim_state d \<in> life_cycle"

text \<open>
  A new configuration starts a new world at 0 and leaves the published time, until the world
  moves or a reset completes. Without one the two are in step.
\<close>

definition sys_inv :: "hako_build \<Rightarrow> (nat \<Rightarrow> bool) \<Rightarrow> 'm HakoMasterController \<Rightarrow> bool" where
  "sys_inv b known c \<longleftrightarrow> data_inv b known (master_datap (mc_data c)) \<and>
     (case theWorld c of
        None \<Rightarrow> get_worldtime (mc_data c) = 0
      | Some tw \<Rightarrow> 0 < delta_time_usec tw \<and>
          (world_time_usec tw = get_worldtime (mc_data c) \<or> world_time_usec tw = 0))"

definition in_step :: "'m HakoMasterController \<Rightarrow> bool" where
  "in_step c \<longleftrightarrow> (\<forall>tw. theWorld c = Some tw \<longrightarrow> world_time_usec tw = get_worldtime (mc_data c))"

text \<open>The edges of the life cycle: what one step may do to the simulation state.\<close>

inductive sim_edge :: "HakoSimulationStateType \<Rightarrow> HakoSimulationStateType \<Rightarrow> bool" where
  edge_command: "cmd_next cmd st = Some st' \<Longrightarrow> sim_edge st st'"
| edge_settle: "sim_event_needs_handling st \<Longrightarrow> sim_edge st (settled st)"
| edge_timeout: "sim_event_needs_handling st \<Longrightarrow> sim_edge st HakoSim_Error"

definition edge_or_same :: "HakoMasterDataType \<Rightarrow> HakoMasterDataType \<Rightarrow> bool" where
  "edge_or_same d d' \<longleftrightarrow> sim_state d' = sim_state d \<or> sim_edge (sim_state d) (sim_state d')"

lemma edge_life_cycle:
  "sim_edge st st' \<Longrightarrow> st' \<in> life_cycle"
proof (induction rule: sim_edge.induct)
  case (edge_command cmd st st')
  then show ?case by (cases cmd; cases st) (auto simp: life_cycle_def)
next
  case (edge_settle st)
  then show ?case by (cases st) (auto simp: life_cycle_def sim_event_needs_handling_def)
qed (simp add: life_cycle_def)

text \<open>A step on the data that keeps the time.\<close>

definition data_step :: "hako_build \<Rightarrow> (nat \<Rightarrow> bool) \<Rightarrow> HakoMasterDataType \<Rightarrow> HakoMasterDataType \<Rightarrow> bool" where
  "data_step b known d d' \<longleftrightarrow> data_inv b known d' \<and> edge_or_same d d' \<and> time_usec d' = time_usec d"

lemma data_step_refl: "data_inv b known d \<Longrightarrow> data_step b known d d"
  by (simp add: data_step_def edge_or_same_def)

lemma data_step_undisturbed:
  assumes "data_inv b known d" and "undisturbed (d\<lparr>sim_state := st\<rparr>) d'"
    and "st = sim_state d \<or> sim_edge (sim_state d) st"
  shows "data_step b known d d'"
proof -
  have "table_ok b d'" "callbacks_known known d'"
    using undisturbed_table [OF assms(2)] callbacks_known_undisturbed [OF assms(2)] assms(1)
    by (simp_all add: data_inv_def callbacks_known_def)
  moreover have "names_ok d'" "sim_state d' = st" "time_usec d' = time_usec d"
    using assms(1,2) by (simp_all add: undisturbed_def names_ok_def data_inv_def)
  moreover have "st \<in> life_cycle" using assms(1,3) edge_life_cycle by (auto simp: data_inv_def)
  ultimately show ?thesis using assms(3) by (simp add: data_step_def data_inv_def edge_or_same_def)
qed

lemma undisturbed_same: "undisturbed d d' \<Longrightarrow> undisturbed (d\<lparr>sim_state := sim_state d\<rparr>) d'"
  by simp

section \<open>Registration\<close>

lemma alloc_step:
  assumes inv: "data_inv (he_build env) known (master_datap w)" and name: "NUL \<notin> set name"
    and cb: "\<And>c f. callback = Some c \<Longrightarrow> Some f \<in> {cb_start c, cb_stop c, cb_reset c} \<Longrightarrow> known f"
    and run: "alloc_asset env name type callback w = (r, w')"
  shows "data_step (he_build env) known (master_datap w) (master_datap w')"
proof (cases "can_register (he_build env) name type (master_datap w)")
  case False
  have ok: "table_ok (he_build env) (master_datap w)" using inv by (simp add: data_inv_def)
  from alloc_asset_refuses [OF ok False, of callback] run inv show ?thesis by (auto intro: data_step_refl)
next
  case True
  let ?d = "master_datap w"
  have ok: "table_ok (he_build env) ?d" using inv by (simp add: data_inv_def)
  from alloc_asset_accepts [OF ok True, of callback] obtain i where
    i: "i < length (assets ?d)" "\<not> entry_used (assets ?d ! i)" and
    eq: "alloc_asset env name type callback w =
       (int i, md_unlock (upd_md (\<lambda>d. d\<lparr>assets := (assets d)[i := new_entry name type callback i (assets d ! i)],
          assets_ev := (assets_ev d)[i := new_event env type (assets_ev d ! i)],
          asset_num := asset_num d + 1\<rparr>) (md_lock w)))" by blast
  have d': "master_datap w' = ?d\<lparr>assets := (assets ?d)[i := new_entry name type callback i (assets ?d ! i)],
          assets_ev := (assets_ev ?d)[i := new_event env type (assets_ev ?d ! i)], asset_num := asset_num ?d + 1\<rparr>"
    using run by (auto simp: eq)
  have can: "first_index (entry_matches name) (assets ?d) = None" "length name \<le> HAKO_FIXED_STRLEN_MAX"
    "type \<noteq> HakoAsset_Unknown" using True by (simp_all add: can_register_def)
  let ?e = "new_entry name type callback i (assets ?d ! i)"
  have sub: "set (assets (master_datap w')) \<subseteq> insert ?e (set (assets ?d))"
    using set_update_subset_insert by (simp add: d')
  have "table_ok (he_build env) (master_datap w')" unfolding d' by (rule table_ok_fill [OF ok i can])
  moreover have "names_ok (master_datap w')"
    using inv name sub unfolding data_inv_def names_ok_def by (auto simp: new_entry_def)
  moreover have "callbacks_known known (master_datap w')"
    unfolding callbacks_known_def
  proof (intro ballI impI allI)
    fix a f
    assume a: "a \<in> set (assets (master_datap w'))" "entry_used a"
      "Some f \<in> {cb_start (ae_callback a), cb_stop (ae_callback a), cb_reset (ae_callback a)}"
    show "known f"
    proof (cases "a = ?e")
      case True
      then have "ae_callback a = (case callback of Some c \<Rightarrow> c | None \<Rightarrow> zero_callback)" by (simp add: new_entry_def)
      then show ?thesis using a(3) cb by (cases callback) (auto simp: zero_callback_def)
    next
      case False
      then have "a \<in> set (assets ?d)" using a(1) sub by auto
      then show ?thesis using inv a(2,3) unfolding data_inv_def callbacks_known_def by blast
    qed
  qed
  ultimately show ?thesis
    using inv by (simp add: data_step_def data_inv_def edge_or_same_def d')
qed

lemma free_step:
  assumes inv: "data_inv b known (master_datap w)" and run: "free_asset name w = (r, w')"
  shows "data_step b known (master_datap w) (master_datap w')"
proof (cases r)
  case False
  then have "master_datap w' = master_datap w"
    using run by (auto simp: free_asset_eq split: option.splits)
  then show ?thesis using data_step_refl [OF inv] by simp
next
  case True
  let ?d = "master_datap w"
  obtain i where i: "first_index (entry_matches name) (assets ?d) = Some i" and
    d': "master_datap w' = ?d\<lparr>assets := (assets ?d)[i := (assets ?d ! i)\<lparr>ae_type := HakoAsset_Unknown\<rparr>],
           asset_num := asset_num ?d - 1\<rparr>"
    using run True by (auto simp: free_asset_eq split: option.splits if_splits)
  then have i': "i < length (assets ?d)" "entry_used (assets ?d ! i)"
    by (simp_all add: first_index_Some entry_matches_def)
  have old: "a \<in> set (assets ?d)" if "a \<in> set (assets (master_datap w'))" "entry_used a" for a
    using that set_update_subset_insert [of "assets ?d" i "(assets ?d ! i)\<lparr>ae_type := HakoAsset_Unknown\<rparr>"]
    by (auto simp: d' entry_used_def)
  have "table_ok b (master_datap w')"
    unfolding d' using table_ok_free [OF _ i'] inv by (simp add: data_inv_def)
  moreover have "names_ok (master_datap w')" "callbacks_known known (master_datap w')"
    using inv old unfolding data_inv_def names_ok_def callbacks_known_def by blast+
  ultimately show ?thesis using inv by (simp add: data_step_def data_inv_def edge_or_same_def d')
qed

lemma rpc_stop_data:
  "rpc_stop env r w = Inr (r', w') \<Longrightarrow> master_datap w' = master_datap w"
  by (auto simp: rpc_stop_def proxy_turn_def fault_simps split: if_splits option.splits)

lemma unregister_step:
  assumes "data_inv b known (master_datap w)" and "asset_unregister env name rpc w = Inr (r, rpc', w')"
  shows "data_step b known (master_datap w) (master_datap w')"
proof -
  obtain ret w1 where f: "free_asset name w = (ret, w1)" by (cases "free_asset name w")
  then have "master_datap w' = master_datap w1"
    using assms(2)
    by (auto simp: asset_unregister_def Let_def fault_simps split: option.splits if_splits dest!: rpc_stop_data)
  then show ?thesis using free_step [OF assms(1) f] by simp
qed

section \<open>Feedback and time reports\<close>

lemma ack_step:
  assumes "data_inv (he_build env) known (master_datap w)" and "ack env cmd name ok w = Inr (r, w')"
  shows "data_step (he_build env) known (master_datap w) (master_datap w')"
proof -
  obtain e where e: "ack env cmd name ok w = feedback env name ok (cmd_state cmd) (effect e w)"
    using ack_feedback by blast
  have "table_ok (he_build env) (master_datap (effect e w))" using assms(1) by (simp add: data_inv_def)
  from feedback_returns [OF this, of name ok "cmd_state cmd"]
  have "undisturbed (master_datap w) (master_datap w')" using assms(2) e by auto
  from data_step_undisturbed [OF assms(1) undisturbed_same [OF this]] show ?thesis by simp
qed

lemma simtime_step:
  assumes "data_inv b known (master_datap w)" and "notify_simtime env name t w = Inr w'"
  shows "data_step b known (master_datap w) (master_datap w')"
proof -
  have "undisturbed (master_datap w) (master_datap w')"
    using assms(2) undisturbed_ev by (auto simp: notify_simtime_def split: option.splits)
  from data_step_undisturbed [OF assms(1) undisturbed_same [OF this]] show ?thesis by simp
qed

section \<open>Execution\<close>

lemma handling_step:
  assumes inv: "data_inv (he_build env) known (master_datap w)"
    and run: "do_event_handling env w = Inr ((ch, prev, nxt), w')"
  shows "data_step (he_build env) known (master_datap w) (master_datap w')"
    and "ch \<Longrightarrow> nxt = settled prev \<and> prev = sim_state (master_datap w) \<and> sim_state (master_datap w') = nxt"
    and "nxt = HakoSim_Running \<Longrightarrow> sim_state (master_datap w') = HakoSim_Running"
proof -
  let ?d = "master_datap w" and ?st = "sim_state (master_datap w)"
  have ok: "table_ok (he_build env) ?d" "names_ok ?d" using inv by (simp_all add: data_inv_def)
  consider (idle) "\<not> sim_event_needs_handling ?st"
    | (settle) "sim_event_needs_handling ?st" "is_all_feedback_nolock w"
    | (wait) "sim_event_needs_handling ?st" "\<not> is_all_feedback_nolock w" "timed_out env w = {}"
    | (late) "sim_event_needs_handling ?st" "\<not> is_all_feedback_nolock w" "timed_out env w \<noteq> {}" by blast
  then have "data_step (he_build env) known ?d (master_datap w') \<and>
      (ch \<longrightarrow> nxt = settled prev \<and> prev = ?st \<and> sim_state (master_datap w') = nxt) \<and>
      (nxt = HakoSim_Running \<longrightarrow> sim_state (master_datap w') = HakoSim_Running)"
  proof cases
    case idle
    then show ?thesis using idle_handling [OF idle, of env] run data_step_refl [OF inv] by auto
  next
    case settle
    have "data_step (he_build env) known ?d (?d\<lparr>sim_state := settled ?st\<rparr>)"
      using data_step_undisturbed [OF inv undisturbed_refl] edge_settle [OF settle(1)] by blast
    then show ?thesis using settle_handling [OF settle, of env] run by auto
  next
    case wait
    then show ?thesis using wait_handling [OF ok(1) wait] run data_step_refl [OF inv] by auto
  next
    case late
    from timeout_handling [OF ok late] run have r: "ch = False" "nxt = ?st" and
      d': "table_ok (he_build env) (master_datap w')" "sim_state (master_datap w') = HakoSim_Error"
        "time_usec (master_datap w') = time_usec ?d" and
      as: "\<forall>j < length (assets ?d). assets (master_datap w') ! j =
        (if j \<in> timed_out env w then (assets ?d ! j)\<lparr>ae_type := HakoAsset_Unknown\<rparr> else assets ?d ! j)" by auto
    have len: "length (assets (master_datap w')) = length (assets ?d)" using ok(1) d'(1) by (simp add: table_ok_def)
    have old: "a \<in> set (assets ?d)" if "a \<in> set (assets (master_datap w'))" "entry_used a" for a
      using that as len by (fastforce simp: in_set_conv_nth entry_used_def split: if_splits)
    have "names_ok (master_datap w')" "callbacks_known known (master_datap w')"
      using inv old unfolding data_inv_def names_ok_def callbacks_known_def by blast+
    moreover have "nxt \<noteq> HakoSim_Running" using r late(1) by (auto simp: sim_event_needs_handling_def)
    ultimately show ?thesis
      using r d' edge_timeout [OF late(1)] by (simp add: data_step_def data_inv_def edge_or_same_def life_cycle_def)
  qed
  then show "data_step (he_build env) known ?d (master_datap w')"
    and "ch \<Longrightarrow> nxt = settled prev \<and> prev = ?st \<and> sim_state (master_datap w') = nxt"
    and "nxt = HakoSim_Running \<Longrightarrow> sim_state (master_datap w') = HakoSim_Running" by blast+
qed

text \<open>What a step may do to the published time.\<close>

definition time_step :: "'m HakoMasterController \<Rightarrow> 'm HakoMasterController \<Rightarrow> bool" where
  "time_step c c' \<longleftrightarrow>
     (let d = master_datap (mc_data c); d' = master_datap (mc_data c'); t = get_worldtime (mc_data c);
          t' = get_worldtime (mc_data c')
      in t' = t \<or>
         sim_state d' = HakoSim_Running \<and> (\<exists>tw tw'. theWorld c = Some tw \<and> theWorld c' = Some tw' \<and>
           t' = world_time_usec tw + delta_time_usec tw \<and> world_time_usec tw' = t') \<or>
         sim_state d = HakoSim_Resetting \<and> sim_state d' = HakoSim_Stopped \<and> t' = 0)"

definition sys_change :: "hako_build \<Rightarrow> (nat \<Rightarrow> bool) \<Rightarrow> 'm HakoMasterController \<Rightarrow> 'm HakoMasterController \<Rightarrow> bool" where
  "sys_change b known c c' \<longleftrightarrow> sys_inv b known c' \<and>
     edge_or_same (master_datap (mc_data c)) (master_datap (mc_data c')) \<and> time_step c c'"

lemma sys_change_data:
  "sys_inv b known c \<Longrightarrow> data_step b known (master_datap (mc_data c)) (master_datap w) \<Longrightarrow>
   sys_change b known c (c\<lparr>mc_data := w\<rparr>) \<and> (in_step c \<longrightarrow> in_step (c\<lparr>mc_data := w\<rparr>))"
  by (auto simp: sys_change_def sys_inv_def data_step_def time_step_def in_step_def get_worldtime_def split: option.splits)

lemma sys_change_refl: "sys_inv b known c \<Longrightarrow> sys_change b known c c"
  by (simp add: sys_change_def edge_or_same_def time_step_def)

lemma data_inv_cong:
  "assets d' = assets d \<Longrightarrow> length (assets_ev d') = length (assets_ev d) \<Longrightarrow> asset_num d' = asset_num d \<Longrightarrow>
   sim_state d' = sim_state d \<Longrightarrow> data_inv b known d' = data_inv b known d"
  by (simp add: data_inv_def table_ok_def names_ok_def callbacks_known_def)

lemma execute_step:
  assumes inv: "sys_inv (he_build env) known c" and run: "execute env c = Inr (r, c')"
  shows "sys_change (he_build env) known c c' \<and> (in_step c \<longrightarrow> in_step c')"
proof (cases "theWorld c")
  case None
  then show ?thesis using run sys_change_refl [OF inv] by (simp add: execute_def)
next
  case (Some tw)
  let ?d = "master_datap (mc_data c)"
  have tw: "theWorld c = Some tw" "0 < delta_time_usec tw"
    "world_time_usec tw = get_worldtime (mc_data c) \<or> world_time_usec tw = 0"
    and dinv: "data_inv (he_build env) known ?d" using inv Some by (auto simp: sys_inv_def)
  obtain ch prev nxt w1 where h: "do_event_handling env (mc_data c) = Inr ((ch, prev, nxt), w1)"
    using run tw(1) by (auto simp: execute_def fault_simps)
  note hs = handling_step [OF dinv h]
  have d1: "data_inv (he_build env) known (master_datap w1)" "edge_or_same ?d (master_datap w1)"
    "time_usec (master_datap w1) = time_usec ?d" using hs(1) by (simp_all add: data_step_def)
  have change: "sys_change (he_build env) known c \<lparr>theWorld = Some tw', mc_data = w\<rparr> \<and>
      (in_step c \<longrightarrow> in_step \<lparr>theWorld = Some tw', mc_data = w\<rparr>)"
    if "delta_time_usec tw' = delta_time_usec tw" "world_time_usec tw' = world_time_usec tw"
      "master_datap w = master_datap w1" for tw' w
    using that tw d1 by (auto simp: sys_change_def sys_inv_def time_step_def in_step_def get_worldtime_def)
  consider (reset) "ch" "prev = HakoSim_Resetting" "nxt = HakoSim_Stopped"
    | (other) "\<not> (ch \<and> prev = HakoSim_Resetting \<and> nxt = HakoSim_Stopped)" by blast
  then show ?thesis
  proof cases
    case reset
    then obtain w2 where f: "finish_reset env tw w1 = Inr (reset_world_time tw, w2)"
      "c' = \<lparr>theWorld = Some (reset_world_time tw), mc_data = w2\<rparr>"
      using run tw(1) h by (auto simp: execute_def finish_reset_def fault_simps Let_def)
    then have d2: "master_datap w2 = master_datap (reset_asset_ctime_nolock
        (upd_md (\<lambda>d. d\<lparr>time_usec := (time_usec d)\<lparr>ts_current := 0\<rparr>\<rparr>) (md_lock w1)))"
      by (auto simp: finish_reset_def destroy_pdu_data_def fault_simps Let_def)
    have "data_inv (he_build env) known (master_datap w2)"
      using d1(1) data_inv_cong [of "master_datap w2" "master_datap w1"]
      by (simp add: d2 reset_asset_ctime_nolock_def)
    then show ?thesis
      using f(2) d1(2) tw hs(2) reset
      by (simp add: sys_change_def sys_inv_def d2 reset_asset_ctime_nolock_def edge_or_same_def time_step_def
          reset_world_time_def in_step_def get_worldtime_def)
  next
    case other
    define prep where "prep = (if ch \<and> prev = HakoSim_Runnable \<and> nxt = HakoSim_Running
        then bindE (create_pdu_data env w1) (\<lambda>w. Inr (tw, w)) else Inr (tw, w1))"
    have run': "bindE prep (\<lambda>(tw, w).
           if nxt \<noteq> HakoSim_Running then Inr (False, \<lparr>theWorld = Some tw, mc_data = w\<rparr>)
           else if \<not> is_simulation_mode (pdu_datap w) then Inr (False, \<lparr>theWorld = Some tw, mc_data = w\<rparr>)
           else bindE (move_time tw w) (\<lambda>(r, tw, w). Inr (r, \<lparr>theWorld = Some tw, mc_data = w\<rparr>))) = Inr (r, c')"
      using run tw(1) h other by (auto simp: execute_def prep_def)
    obtain w2 where prep: "prep = Inr (tw, w2)" and w2: "master_datap w2 = master_datap w1"
      using run' by (auto simp: prep_def create_pdu_data_def fault_simps split: if_splits)
    have c': "c' = \<lparr>theWorld = Some tw, mc_data = w2\<rparr> \<or>
        nxt = HakoSim_Running \<and> (\<exists>tw' w3. move_time tw w2 = Inr (r, tw', w3) \<and> c' = \<lparr>theWorld = Some tw', mc_data = w3\<rparr>)"
      using run' by (auto simp: prep fault_simps split: if_splits)
    show ?thesis
    proof (cases "c' = \<lparr>theWorld = Some tw, mc_data = w2\<rparr>")
      case True
      then show ?thesis using change w2 by simp
    next
      case False
      then obtain tw' w3 where m: "nxt = HakoSim_Running" "move_time tw w2 = Inr (r, tw', w3)"
        "c' = \<lparr>theWorld = Some tw', mc_data = w3\<rparr>" using c' by blast
      note mv = move_time_result [OF m(2) tw(2)]
      show ?thesis
      proof (cases r)
        case False
        then show ?thesis using change mv(2,5) w2 m(3) by auto
      next
        case True
        then have t: "world_time_usec tw' = world_time_usec tw + delta_time_usec tw"
          "master_datap w3 = (master_datap w1)\<lparr>time_usec := (time_usec (master_datap w1))\<lparr>ts_current := world_time_usec tw'\<rparr>\<rparr>"
          using mv(1) w2 by simp_all
        have "data_inv (he_build env) known (master_datap w3)"
          using d1(1) data_inv_cong [of "master_datap w3" "master_datap w1"] by (simp add: t(2))
        then show ?thesis
          using t d1 tw mv(5) hs(3) [OF m(1)] m(3)
          by (simp add: sys_change_def sys_inv_def edge_or_same_def time_step_def in_step_def get_worldtime_def)
      qed
    qed
  qed
qed

section \<open>The system\<close>

lemma registration_data:
  "asset_register_polling env name w = (r, w') \<Longrightarrow>
     \<exists>i w1. alloc_asset env name HakoAsset_Inside None w = (i, w1) \<and> master_datap w' = master_datap w1"
  "asset_register env name cbs rpc w = (r, rpc', w') \<Longrightarrow>
     \<exists>i w1. alloc_asset env name HakoAsset_Inside (Some cbs) w = (i, w1) \<and> master_datap w' = master_datap w1"
  by (auto simp: asset_register_polling_def asset_register_def Let_def split: prod.splits if_splits)

lemma proxy_step:
  assumes inv: "data_inv (he_build env) known (master_datap w)" and cb: "hako_callbacks env known"
    and known: "\<forall>e f. rpc_map rpc e = Some (Some f) \<longrightarrow> known f" and run: "proxy_turn env rpc w = Inr (ended, w')"
  shows "data_step (he_build env) known (master_datap w) (master_datap w')"
proof (cases "get_asset_event_nolock (he_build env) (rpc_asset_id rpc) w")
  case None
  then show ?thesis using run data_step_refl [OF inv] by (auto simp: proxy_turn_def)
next
  case (Some i)
  let ?f = "case rpc_map rpc (ev_event (assets_ev (master_datap w) ! i)) of None \<Rightarrow> None | Some f \<Rightarrow> f"
  have "call_ptr env ?f w = Inr w'" using run Some by (auto simp: proxy_turn_def bindE_eq_Inr_iff)
  moreover have "\<forall>g. ?f = Some g \<longrightarrow> known g" using known by (auto split: option.splits)
  ultimately have "undisturbed (master_datap w) (master_datap w')"
    using hako_callbacks.call_ptr_keeps [OF cb] inv by (simp add: data_inv_def)
  from data_step_undisturbed [OF inv undisturbed_same [OF this]] show ?thesis by simp
qed

lemma register_known:
  "\<forall>f. Some f \<in> {cb_start cbs, cb_stop cbs, cb_reset cbs} \<longrightarrow> known f \<Longrightarrow>
     Some cbs = Some c \<Longrightarrow> Some f \<in> {cb_start c, cb_stop c, cb_reset c} \<Longrightarrow> known f"
  by (drule option.inject [THEN iffD1]) blast

lemma party_step_change:
  assumes "sys_inv b known c" and "party_step b known c c'"
  shows "sys_change b known c c' \<and> (in_step c \<longrightarrow> in_step c')"
proof -
  have dinv: "data_inv b known (master_datap (mc_data c))" using assms(1) by (simp add: sys_inv_def)
  note data = sys_change_data [OF assms(1)]
  show ?thesis
    using assms(2)
  proof (cases rule: party_step.cases)
    case (sys_register_polling env name r w)
    then obtain i w1 where "alloc_asset env name HakoAsset_Inside None (mc_data c) = (i, w1)"
      "master_datap w = master_datap w1" using registration_data(1) by blast
    then show ?thesis
      using sys_register_polling dinv data alloc_step [of env known "mc_data c" name None HakoAsset_Inside i w1] by auto
  next
    case (sys_register env name cbs rpc r rpc' w)
    then obtain i w1 where "alloc_asset env name HakoAsset_Inside (Some cbs) (mc_data c) = (i, w1)"
      "master_datap w = master_datap w1" using registration_data(2) by blast
    then show ?thesis
      using sys_register dinv data
        alloc_step [of env known "mc_data c" name "Some cbs" HakoAsset_Inside i w1, OF _ _ register_known [OF sys_register(4)]]
      by auto
  next
    case (sys_unregister env name rpc r rpc' w)
    then show ?thesis using dinv data unregister_step [of b known "mc_data c"] by auto
  next
    case (sys_proxy env rpc ended w)
    then show ?thesis using dinv data proxy_step [of env known "mc_data c"] by auto
  next
    case (sys_command env cmd r w)
    let ?st = "sim_state (master_datap (mc_data c))"
    let ?next = "case cmd_next cmd ?st of None \<Rightarrow> ?st | Some st \<Rightarrow> st"
    have "undisturbed ((master_datap (mc_data c))\<lparr>sim_state := ?next\<rparr>) (master_datap w)"
      using hako_callbacks.sim_exec_keeps [OF sys_command(3,4)] sys_command(2) dinv by (simp add: data_inv_def)
    moreover have "?next = ?st \<or> sim_edge ?st ?next" by (auto split: option.split intro: edge_command)
    ultimately show ?thesis using data_step_undisturbed [OF dinv] data sys_command(1) by blast
  next
    case (sys_feedback env cmd name ok r w)
    then show ?thesis using dinv data ack_step [of env known "mc_data c"] by auto
  next
    case (sys_simtime env name t w)
    then show ?thesis using dinv data simtime_step [of b known "mc_data c"] by auto
  next
    case (sys_pdu f w)
    then have "master_datap w = master_datap (mc_data c)" by (auto simp: pdu_call_def fault_simps)
    then show ?thesis using sys_pdu data data_step_refl [OF dinv] by simp
  next
    case (sys_execute env r)
    then show ?thesis using execute_step [of env known c] assms(1) by simp
  qed
qed

lemma config_data:
  "get_worldtime (mc_data (set_config_simtime max_delay delta c)) = get_worldtime (mc_data c)"
  "theWorld (set_config_simtime max_delay delta c) = Some (new_TheWorld max_delay delta)"
  "sim_state (master_datap (mc_data (set_config_simtime max_delay delta c))) = sim_state (master_datap (mc_data c))"
  "data_inv b known (master_datap (mc_data (set_config_simtime max_delay delta c))) =
     data_inv b known (master_datap (mc_data c))"
  using data_inv_cong [of "master_datap (mc_data (set_config_simtime max_delay delta c))" "master_datap (mc_data c)"]
  by (simp_all add: set_config_simtime_def Let_def get_worldtime_def)

lemma sys_step_change:
  assumes "sys_inv b known c" and "sys_step b known c c'"
  shows "sys_change b known c c'"
  using assms(2)
proof (cases rule: sys_step.cases)
  case sys_party
  then show ?thesis using party_step_change [OF assms(1)] by blast
next
  case (sys_config delta max_delay)
  then show ?thesis
    using assms(1)
    by (simp add: sys_change_def sys_inv_def edge_or_same_def time_step_def config_data new_TheWorld_def)
qed

lemma sys_inv_init:
  assumes "sys_init b c" and "HAKO_DATA_MAX_ASSET_NUM b < 2 ^ 31"
  shows "sys_inv b known c"
proof -
  obtain pid w where w: "master_datap w = zero_master b pid" "c = \<lparr>theWorld = None, mc_data = w\<rparr>"
    using assms(1) by (auto simp: sys_init_def)
  have "data_inv b known (zero_master b pid)"
    using table_ok_zero [OF assms(2), of pid]
    by (auto simp: data_inv_def names_ok_def callbacks_known_def zero_master_def zero_entry_def entry_used_def life_cycle_def)
  then show ?thesis by (simp add: sys_inv_def w get_worldtime_def zero_master_def)
qed

lemma sys_reach_inv:
  assumes "sys_reach b known c" and "HAKO_DATA_MAX_ASSET_NUM b < 2 ^ 31"
  shows "sys_inv b known c"
  using assms(1)
proof (induction rule: sys_reach.induct)
  case (sys_start c)
  then show ?case using sys_inv_init assms(2) by blast
next
  case (sys_next c c')
  then show ?case using sys_step_change by (auto simp: sys_change_def)
qed

section \<open>Properties\<close>

text \<open>
  C17: In every reachable state of the system, whatever the processes do and in whatever
  order, the time configured never, once or repeatedly (with a positive step): the table of
  assets is sound (as many
  used slots as \<open>asset_num\<close> says, unique names, each id the index of its slot), and the
  simulation is in a state of its life cycle. Before the first configuration the time that
  assets read is 0; afterwards it is the time of the master's clock, except that a
  configuration starts the clock at 0 and leaves the time that assets read: the clock can
  then be at 0 while they still read the old time.
\<close>

theorem system_invariant:
  assumes "sys_reach b known c" and "HAKO_DATA_MAX_ASSET_NUM b < 2 ^ 31"
  shows "table_ok b (master_datap (mc_data c)) \<and> sim_state (master_datap (mc_data c)) \<in> life_cycle \<and>
    (case theWorld c of
       None \<Rightarrow> get_worldtime (mc_data c) = 0
     | Some tw \<Rightarrow> world_time_usec tw = get_worldtime (mc_data c) \<or> world_time_usec tw = 0)"
  using sys_reach_inv [OF assms] by (auto simp: sys_inv_def data_inv_def split: option.splits)

definition demo_booted :: "mmap_state HakoMasterController" where
  "demo_booted = set_config_simtime 20 10 \<lparr>theWorld = None, mc_data = empty_data\<rparr>"

lemma demo_booted_reach: "sys_reach small_build known demo_booted"
proof -
  have "sys_init small_build \<lparr>theWorld = None, mc_data = empty_data\<rparr>"
    unfolding sys_init_def by (intro exI [of _ 1] exI [of _ empty_data]) simp
  moreover have "(0::int) < 10" by simp
  ultimately show ?thesis unfolding demo_booted_def by (blast intro: sys_start sys_next sys_config)
qed

text \<open>An asset with a null callback registers, as applications do.\<close>

abbreviation start_only :: AssetCallbackType where
  "start_only \<equiv> \<lparr>cb_start = Some 1, cb_stop = None, cb_reset = None\<rparr>"

definition demo_registered :: "mmap_state HakoMasterController" where
  "demo_registered = demo_booted\<lparr>mc_data :=
     snd (snd (asset_register (demo_henv 0) ''a'' start_only None (mc_data demo_booted)))\<rparr>"

lemma demo_registered_step: "party_step small_build (\<lambda>f. f = 1) demo_booted demo_registered"
  unfolding demo_registered_def
  by (rule sys_register [of "demo_henv 0" _ "''a''" start_only _ None _
        "fst (asset_register (demo_henv 0) ''a'' start_only None (mc_data demo_booted))"
        "fst (snd (asset_register (demo_henv 0) ''a'' start_only None (mc_data demo_booted)))"])
     (simp_all add: NUL_def)

theorem system_invariant_witness:
  "table_ok small_build (master_datap (mc_data (set_config_simtime 5 1 demo_registered)))"
proof -
  have "sys_step small_build (\<lambda>f. f = 1) demo_registered (set_config_simtime 5 1 demo_registered)"
    by (rule sys_config) simp
  then have "sys_reach small_build (\<lambda>f. f = 1) (set_config_simtime 5 1 demo_registered)"
    using sys_next [OF sys_next [OF demo_booted_reach sys_party [OF demo_registered_step]]] by blast
  then show ?thesis using system_invariant by force
qed

text \<open>
  C18: From every reachable state, one step of any process leaves the simulation state as it
  is or follows an edge of the life cycle: an accepted command, the settling of a
  transitional state, or a timeout in a transitional state. The time that assets read stays,
  also when the time is configured; or the simulation runs and the clock moves by \<open>delta\<close>,
  and they then read the time of the clock; or it goes back to zero when a reset completes.
  The clock moves from the time that assets read, so that this grows by exactly \<open>delta\<close>, or,
  after a configuration, from 0, so that they read \<open>delta\<close> whatever they read before.
\<close>

theorem system_transitions:
  assumes "sys_reach b known c" and "HAKO_DATA_MAX_ASSET_NUM b < 2 ^ 31" and "sys_step b known c c'"
  shows "(sim_state (master_datap (mc_data c')) = sim_state (master_datap (mc_data c)) \<or>
      sim_edge (sim_state (master_datap (mc_data c))) (sim_state (master_datap (mc_data c')))) \<and>
    (get_worldtime (mc_data c') = get_worldtime (mc_data c) \<or>
     sim_state (master_datap (mc_data c')) = HakoSim_Running \<and>
       (\<exists>tw tw'. theWorld c = Some tw \<and> theWorld c' = Some tw' \<and>
          world_time_usec tw \<in> {get_worldtime (mc_data c), 0} \<and>
          get_worldtime (mc_data c') = world_time_usec tw + delta_time_usec tw \<and>
          world_time_usec tw' = get_worldtime (mc_data c')) \<or>
     sim_state (master_datap (mc_data c)) = HakoSim_Resetting \<and> sim_state (master_datap (mc_data c')) = HakoSim_Stopped \<and>
       get_worldtime (mc_data c') = 0)"
proof -
  have inv: "sys_inv b known c" by (rule sys_reach_inv [OF assms(1,2)])
  have "world_time_usec tw \<in> {get_worldtime (mc_data c), 0}" if "theWorld c = Some tw" for tw
    using inv that by (simp add: sys_inv_def)
  then show ?thesis
    using sys_step_change [OF inv assms(3)] by (auto simp: sys_change_def edge_or_same_def time_step_def Let_def)
qed

theorem system_transitions_witness:
  "sim_state (master_datap (mc_data demo_registered)) \<noteq> HakoSim_Running"
proof -
  have "sim_state (master_datap (mc_data demo_booted)) = HakoSim_Stopped"
    by (simp add: demo_booted_def set_config_simtime_def zero_master_def Let_def)
  moreover have "\<not> sim_edge HakoSim_Stopped HakoSim_Running"
  proof
    assume "sim_edge HakoSim_Stopped HakoSim_Running"
    then show False
    proof (cases rule: sim_edge.cases)
      case (edge_command cmd)
      then show ?thesis by (cases cmd) simp_all
    qed (simp_all add: sim_event_needs_handling_def)
  qed
  ultimately show ?thesis
    using system_transitions [OF demo_booted_reach _ sys_party [OF demo_registered_step]] by auto
qed

end
