(* ===== verification/Hako_Pdu_Typing.thy ===== *)
theory Hako_Pdu_Typing
  imports Hako_Pdu_Theorems
begin

text \<open>
  Type soundness of \<open>HakoPduData\<close>. The shared metadata is one structure of arrays with
  dimensions, counters and flags that the language does not check; the theory says what a
  well-typed state of it is, that every public operation of \<open>data/hako_pdu_data.hpp\<close> keeps
  it, and that in such a state no operation spins on a flag or runs out of an array of the
  metadata. What can fail is the copying of bytes, when the area of this process is absent
  or shorter than the channels say.
\<close>

section \<open>Results that meet a condition\<close>

definition within :: "('a \<Rightarrow> bool) \<Rightarrow> (hako_fault \<Rightarrow> bool) \<Rightarrow> 'a result \<Rightarrow> bool" where
  "within Q F r \<longleftrightarrow> (case r of Inl f \<Rightarrow> F f | Inr x \<Rightarrow> Q x)"

lemma within_simps [simp]: "within Q F (Inr x) = Q x" "within Q F (Inl f) = F f"
  by (simp_all add: within_def)

lemma within_bind: "within Q F r \<Longrightarrow> (\<And>x. Q x \<Longrightarrow> within R F (f x)) \<Longrightarrow> within R F (bindE r f)"
  by (cases r) simp_all

lemma within_mono: "within Q F r \<Longrightarrow> (\<And>x. Q x \<Longrightarrow> R x) \<Longrightarrow> within R F r"
  by (cases r) simp_all

section \<open>Well-typed states\<close>

text \<open>
  The arrays have their dimensions, no flag is up, offsets and sizes are values of
  \<open>size_t\<close>, \<open>channel_num\<close> is the number of slots in use, and an id in the cache of the
  process is the index of a slot in use.
\<close>

definition meta_typed :: "hako_build \<Rightarrow> HakoPduMetaDataType \<Rightarrow> bool" where
  "meta_typed b m \<longleftrightarrow>
     meta_ok b m \<and> pdu_idle m \<and> \<not> atomic_is_channel_table_busy m \<and>
     (\<forall>c \<in> set (channel m). ch_offset c \<le> UINT64_MAX \<and> ch_size c \<le> UINT64_MAX) \<and>
     channel_num m = int (count_if (\<lambda>c. 0 < ch_size c) (channel m))"

definition ids_typed :: "int \<Rightarrow> ((string \<times> int) \<rightharpoonup> int) \<Rightarrow> bool" where
  "ids_typed n cache \<longleftrightarrow> (\<forall>k i. cache k = Some i \<longrightarrow> 0 \<le> i \<and> i < n)"

definition pdu_typed :: "hako_build \<Rightarrow> 'm HakoPduData \<Rightarrow> bool" where
  "pdu_typed b w \<longleftrightarrow>
     meta_typed b (pdu_meta_data w) \<and> ids_typed (channel_num (pdu_meta_data w)) (pdu_channel_cache w)"

text \<open>The area is there for this process and holds every channel.\<close>

definition area_sound :: "'m pdu_env \<Rightarrow> 'm HakoPduData \<Rightarrow> bool" where
  "area_sound env w \<longleftrightarrow>
     pdu_ptr w \<and> pdu_total_size w \<le> length (pdu_bytes env w) \<and>
     (\<forall>c \<in> set (channel (pdu_meta_data w)). ch_offset c + ch_size c \<le> length (pdu_bytes env w))"

section \<open>The calls\<close>

datatype pdu_call =
    Make_Channel int nat
  | Make_Lchannel string int nat
  | Find_Channel string int
  | Make_Area int
  | Load_Area
  | Reset_Area
  | Ask_Created
  | Write_Pdu int "byte list" nat
  | Read_Pdu int int nat
  | Read_External int nat
  | Write_Nolock int "byte list option" nat
  | Read_Nolock int bool nat
  | Ask_Size int
  | Ask_Dirty int int
  | Notify_Write int
  | Ask_Sync int

abbreviation new_state :: "('a \<times> 'm HakoPduData) result \<Rightarrow> 'm HakoPduData result" where
  "new_state r \<equiv> bindE r (\<lambda>(_, w). Inr w)"

fun pdu_do :: "'m pdu_env \<Rightarrow> pdu_call \<Rightarrow> 'm HakoPduData \<Rightarrow> 'm HakoPduData result" where
  "pdu_do env (Make_Channel c sz) w = new_state (create_channel (env_build env) c sz w)"
| "pdu_do env (Make_Lchannel name c sz) w = new_state (create_lchannel (env_build env) name c sz w)"
| "pdu_do env (Find_Channel name c) w = new_state (get_pdu_channel name c w)"
| "pdu_do env (Make_Area asset_num) w = pdu_create env asset_num w"
| "pdu_do env Load_Area w = new_state (pdu_load env w)"
| "pdu_do env Reset_Area w = pdu_reset env w"
| "pdu_do env Ask_Created w = new_state (is_pdu_created env w)"
| "pdu_do env (Write_Pdu c data len) w = new_state (write_pdu env c data len w)"
| "pdu_do env (Read_Pdu a c len) w = new_state (read_pdu env a c len w)"
| "pdu_do env (Read_External c len) w = new_state (read_pdu_for_external env c len w)"
| "pdu_do env (Write_Nolock c data len) w = new_state (write_pdu_nolock env c data len w)"
| "pdu_do env (Read_Nolock c buf_ok len) w = new_state (read_pdu_nolock env c buf_ok len w)"
| "pdu_do env (Ask_Size c) w = bindE (pdu_size_nolock (env_build env) c w) (\<lambda>_. Inr w)"
| "pdu_do env (Ask_Dirty a c) w = bindE (is_pdu_dirty a c w) (\<lambda>_. Inr w)"
| "pdu_do env (Notify_Write a) w = notify_write_pdu_done (env_build env) a w"
| "pdu_do env (Ask_Sync a) w = bindE (is_pdu_sync_mode (env_build env) a w) (\<lambda>_. Inr w)"

fun pdu_run :: "'m pdu_env \<Rightarrow> pdu_call list \<Rightarrow> 'm HakoPduData \<Rightarrow> 'm HakoPduData result" where
  "pdu_run env [] w = Inr w"
| "pdu_run env (c # cs) w = bindE (pdu_do env c w) (pdu_run env cs)"

text \<open>
  What the caller owes: ids are not negative, the id of an asset and, where the code has
  no test, of a channel is below its bound, a buffer has the length that is given, and a
  channel is not empty.
\<close>

fun call_ok :: "hako_build \<Rightarrow> pdu_call \<Rightarrow> bool" where
  "call_ok b (Make_Channel c sz) \<longleftrightarrow> 0 \<le> c \<and> 0 < sz \<and> sz \<le> UINT64_MAX"
| "call_ok b (Make_Lchannel name c sz) \<longleftrightarrow> 0 < sz \<and> sz \<le> UINT64_MAX"
| "call_ok b (Write_Pdu c data len) \<longleftrightarrow> 0 \<le> c \<and> len \<le> length data"
| "call_ok b (Read_Pdu a c len) \<longleftrightarrow> 0 \<le> a \<and> a < int (HAKO_DATA_MAX_ASSET_NUM b) \<and> 0 \<le> c"
| "call_ok b (Read_External c len) \<longleftrightarrow> 0 \<le> c"
| "call_ok b (Write_Nolock c data len) \<longleftrightarrow> 0 \<le> c \<and> (case data of None \<Rightarrow> True | Some bs \<Rightarrow> len \<le> length bs)"
| "call_ok b (Read_Nolock c buf_ok len) \<longleftrightarrow> 0 \<le> c"
| "call_ok b (Ask_Size c) \<longleftrightarrow> 0 \<le> c"
| "call_ok b (Ask_Dirty a c) \<longleftrightarrow>
     0 \<le> a \<and> a < int (HAKO_DATA_MAX_ASSET_NUM b) \<and> 0 \<le> c \<and> c < int (HAKO_PDU_CHANNEL_MAX b)"
| "call_ok b (Notify_Write a) \<longleftrightarrow> 0 \<le> a"
| "call_ok b (Ask_Sync a) \<longleftrightarrow> 0 \<le> a"
| "call_ok b _ \<longleftrightarrow> True"

text \<open>One call that keeps the types, or fails for the bytes alone.\<close>

abbreviation copy_fault :: "'m pdu_env \<Rightarrow> 'm HakoPduData \<Rightarrow> hako_fault \<Rightarrow> bool" where
  "copy_fault env w \<equiv> \<lambda>f. f \<noteq> Blocked \<and> \<not> area_sound env w"

section \<open>The channel table\<close>

lemma typed_length: "meta_typed b m \<Longrightarrow> length (channel m) = HAKO_PDU_CHANNEL_MAX b"
  by (simp add: meta_typed_def meta_ok_def)

lemma typed_num: "meta_typed b m \<Longrightarrow> 0 \<le> channel_num m \<and> channel_num m \<le> int (HAKO_PDU_CHANNEL_MAX b)"
  by (simp add: meta_typed_def meta_ok_def)

lemma typed_emit [simp]: "pdu_typed b (emit e w) = pdu_typed b w"
  by (simp add: pdu_typed_def)

lemma all_update: "\<forall>x \<in> set xs. P x \<Longrightarrow> P y \<Longrightarrow> \<forall>x \<in> set (xs[i := y]). P x"
  using set_update_subset_insert [of xs i y] by auto

lemma ids_insert: "ids_typed n cache \<Longrightarrow> n \<le> n' \<Longrightarrow> 0 \<le> i \<Longrightarrow> i < n' \<Longrightarrow> ids_typed n' (map_insert k i cache)"
  by (cases "cache k") (auto simp: ids_typed_def map_insert_def intro: less_le_trans)

lemma rebuild_from_range:
  "rebuild_from m is c = Inr c' \<Longrightarrow> c' k = Some j \<Longrightarrow> c k = Some j \<or> j \<in> int ` set is"
proof (induction "is" arbitrary: c)
  case (Cons i "is")
  then show ?case
    by (fastforce simp: bindE_eq_Inr_iff map_insert_def split: if_splits option.splits)
qed simp

lemma rebuild_typed:
  assumes "meta_typed b (pdu_meta_data w)"
  shows "\<exists>c. rebuild_pdu_channel_index w = Inr (w\<lparr>pdu_channel_cache := c\<rparr>) \<and>
    ids_typed (channel_num (pdu_meta_data w)) c"
proof -
  let ?m = "pdu_meta_data w"
  have "\<forall>i \<in> set [0..<nat (channel_num ?m)]. i < length (channel_map ?m)"
    using assms by (auto simp: meta_typed_def meta_ok_def)
  from rebuild_from_ok [OF this] obtain c where
    c: "rebuild_from ?m [0..<nat (channel_num ?m)] Map.empty = Inr c" by blast
  have "0 \<le> j \<and> j < channel_num ?m" if "c k = Some j" for k j
    using rebuild_from_range [OF c that] by auto
  then have "ids_typed (channel_num ?m) c" by (simp add: ids_typed_def)
  then show ?thesis using c by (intro exI [of _ c]) (simp add: rebuild_pdu_channel_index_def)
qed

lemma scan_range:
  "\<forall>i \<in> set is. i < length (channel_map m) \<Longrightarrow>
   within (\<lambda>r. case r of None \<Rightarrow> True | Some i \<Rightarrow> i \<in> set is) F (scan_channel_map m name c is)"
proof (induction "is")
  case (Cons i "is")
  then show ?case by (auto intro: within_mono split: option.splits)
qed simp

lemma find_typed:
  assumes "meta_ok b (pdu_meta_data w)" and "ids_typed (channel_num (pdu_meta_data w)) (pdu_channel_cache w)"
  shows "within (\<lambda>(c, w'). \<exists>cache. w' = w\<lparr>pdu_channel_cache := cache\<rparr> \<and>
    ids_typed (channel_num (pdu_meta_data w)) cache) F (get_pdu_channel name channel_id w)"
proof (cases "pdu_channel_cache w (name, channel_id)")
  case None
  have "\<forall>i \<in> set [0..<nat (channel_num (pdu_meta_data w))]. i < length (channel_map (pdu_meta_data w))"
    using assms(1) by (auto simp: meta_ok_def)
  then have "within (\<lambda>r. case r of None \<Rightarrow> True | Some i \<Rightarrow> i \<in> set [0..<nat (channel_num (pdu_meta_data w))]) F
      (scan_channel_map (pdu_meta_data w) name channel_id [0..<nat (channel_num (pdu_meta_data w))])"
    by (rule scan_range)
  moreover have "ids_typed (channel_num (pdu_meta_data w))
      (map_insert (name, channel_id) (int i) (pdu_channel_cache w))"
    if "i < nat (channel_num (pdu_meta_data w))" for i
    using that assms(2) by (intro ids_insert) auto
  ultimately show ?thesis
    using None assms(2) unfolding get_pdu_channel_def
    by (auto elim!: within_bind split: option.splits) (metis HakoPduData.surjective HakoPduData.update_convs(3))+
next
  case (Some c)
  then show ?thesis
    using assms(2) by (auto simp: get_pdu_channel_def intro!: exI [of _ "pdu_channel_cache w"])
qed


text \<open>A slot that was free gets a size: the count of slots in use goes up with the counter.\<close>

lemma use_slot:
  assumes "meta_typed b m" and "i < HAKO_PDU_CHANNEL_MAX b" and "ch_size (channel m ! i) = 0"
    and "0 < sz" and "sz \<le> UINT64_MAX"
  shows "count_if (\<lambda>c. 0 < ch_size c) ((channel m)[i := (channel m ! i)\<lparr>ch_size := sz\<rparr>]) =
      Suc (count_if (\<lambda>c. 0 < ch_size c) (channel m))"
    and "channel_num m < int (HAKO_PDU_CHANNEL_MAX b)"
    and "\<forall>c \<in> set ((channel m)[i := (channel m ! i)\<lparr>ch_size := sz\<rparr>]). ch_offset c \<le> UINT64_MAX \<and> ch_size c \<le> UINT64_MAX"
proof -
  have i: "i < length (channel m)" using assms(1,2) by (simp add: typed_length)
  show "count_if (\<lambda>c. 0 < ch_size c) ((channel m)[i := (channel m ! i)\<lparr>ch_size := sz\<rparr>]) =
      Suc (count_if (\<lambda>c. 0 < ch_size c) (channel m))"
    using count_if_update [OF i, of "\<lambda>c. 0 < ch_size c" "(channel m ! i)\<lparr>ch_size := sz\<rparr>"] assms(3,4) by simp
  show "channel_num m < int (HAKO_PDU_CHANNEL_MAX b)"
    using count_if_less_length [OF i, of "\<lambda>c. 0 < ch_size c"] assms(1,3)
    by (simp add: meta_typed_def typed_length [OF assms(1)])
  show "\<forall>c \<in> set ((channel m)[i := (channel m ! i)\<lparr>ch_size := sz\<rparr>]). ch_offset c \<le> UINT64_MAX \<and> ch_size c \<le> UINT64_MAX"
    using assms(1,5) nth_mem [OF i] by (intro all_update) (auto simp: meta_typed_def)
qed

lemma lock_typed:
  "meta_typed b (pdu_meta_data w) \<Longrightarrow>
   lock_channel_table w = Inr (upd_meta (\<lambda>m. m\<lparr>atomic_is_channel_table_busy := True\<rparr>) w)"
  by (simp add: lock_channel_table_def hako_spin_lock_bool_def meta_typed_def)

lemma unlock_typed:
  assumes "meta_typed b m"
  shows "m\<lparr>atomic_is_channel_table_busy := True, atomic_is_channel_table_busy := False\<rparr> = m"
  using assms by (simp add: meta_typed_def)

lemma unlock_emit: "unlock_channel_table (emit e w) = emit e (unlock_channel_table w)"
  by (simp add: unlock_channel_table_def upd_meta_def emit_def)

lemma create_channel_typed:
  assumes w: "pdu_typed b w" and ok: "call_ok b (Make_Channel c sz)"
  shows "within (\<lambda>(_, w'). pdu_typed b w') F (create_channel b c sz w)"
proof (cases "c \<ge> int (HAKO_PDU_CHANNEL_MAX b)")
  case True
  then show ?thesis using w by (simp add: create_channel_def)
next
  case False
  let ?m = "pdu_meta_data w"
  have m: "meta_typed b ?m" using w by (simp add: pdu_typed_def)
  have c: "nat c < HAKO_PDU_CHANNEL_MAX b" "0 \<le> c" using False ok by auto
  have free: "meta_typed b (?m\<lparr>channel := (channel ?m)[nat c := (channel ?m ! nat c)\<lparr>ch_size := sz\<rparr>],
      channel_num := channel_num ?m + 1\<rparr>)" if "ch_size (channel ?m ! nat c) = 0"
    using m use_slot [OF m c(1) that, of sz] ok by (simp add: meta_typed_def meta_ok_def pdu_idle_def)
  moreover have "?m\<lparr>atomic_is_channel_table_busy := False\<rparr> = ?m" using m by (simp add: meta_typed_def)
  then have "?m\<lparr>channel := cs, channel_num := n, atomic_is_channel_table_busy := False\<rparr> =
      ?m\<lparr>channel := cs, channel_num := n\<rparr>" "?m\<lparr>atomic_is_channel_table_busy := False\<rparr> = ?m" for cs n
    by (cases ?m, simp)+
  moreover have "ids_typed (channel_num ?m + 1) (pdu_channel_cache w)"
    using w by (fastforce simp: pdu_typed_def ids_typed_def)
  ultimately show ?thesis
    using w m False c
    by (auto simp: create_channel_def lock_typed [OF m] typed_length [OF m] Let_def unlock_channel_table_def
        pdu_typed_def)
qed

lemma create_lchannel_typed:
  assumes w: "pdu_typed b w" and ok: "call_ok b (Make_Lchannel name c sz)"
  shows "within (\<lambda>(_, w'). pdu_typed b w') F (create_lchannel b name c sz w)"
proof -
  let ?m = "pdu_meta_data w" and ?k = "nat (channel_num (pdu_meta_data w))"
  let ?w = "upd_meta (\<lambda>m. m\<lparr>atomic_is_channel_table_busy := True\<rparr>) w"
  have m: "meta_typed b ?m" using w by (simp add: pdu_typed_def)
  have found: "within (\<lambda>(_, w'). \<exists>cache. w' = ?w\<lparr>pdu_channel_cache := cache\<rparr> \<and>
      ids_typed (channel_num ?m) cache) F (is_exist_lchannel name c ?w)"
    unfolding is_exist_lchannel_def
    using w by (intro within_bind [OF find_typed [of b ?w]]) (auto simp: pdu_typed_def meta_typed_def)
  have locked: "unlock_channel_table (?w\<lparr>pdu_channel_cache := cache\<rparr>) = w\<lparr>pdu_channel_cache := cache\<rparr>" for cache
    using unlock_typed [OF m] by (simp add: unlock_channel_table_def upd_meta_def)
  have keeps: "pdu_typed b (w\<lparr>pdu_channel_cache := cache\<rparr>)" if "ids_typed (channel_num ?m) cache" for cache
    using that m by (simp add: pdu_typed_def)
  have fill: "pdu_typed b (unlock_channel_table (fill_channel name c sz ?k (?w\<lparr>pdu_channel_cache := cache\<rparr>)))"
    if "ids_typed (channel_num ?m) cache" "length name < HAKO_FIXED_STRLEN_MAX"
      "channel_num ?m < int (HAKO_PDU_CHANNEL_MAX b)" "ch_size (channel ?m ! ?k) = 0" for cache
  proof -
    have k: "?k < HAKO_PDU_CHANNEL_MAX b" using that(3) typed_num [OF m] by simp
    have "meta_ok b (pdu_meta_data (fill_channel name c sz ?k w))"
      using fill_channel_meta_ok [of b w name c sz] m that by (simp add: meta_typed_def)
    moreover have "ids_typed (channel_num ?m + 1) (map_insert (name, c) (int ?k) cache)"
      using that(1) typed_num [OF m] by (intro ids_insert) auto
    ultimately show ?thesis
      using m use_slot [OF m k that(4), of sz] ok
      by (simp add: pdu_typed_def meta_typed_def fill_channel_def unlock_channel_table_def upd_meta_def
          meta_ok_def pdu_idle_def)
  qed
  show ?thesis
  proof (cases "length name \<ge> HAKO_FIXED_STRLEN_MAX")
    case True
    then show ?thesis using w by (simp add: create_lchannel_def)
  next
    case False
    have num: "0 \<le> channel_num ?m" using typed_num [OF m] by simp
    show ?thesis
      using False num keeps fill
      unfolding create_lchannel_def lock_typed [OF m]
      by (auto intro!: within_bind [OF found] simp: Let_def locked unlock_emit typed_length [OF m])
  qed
qed

section \<open>The area\<close>

lemma total_not_over [simp]: "(UINT64_MAX < pdu_total_size w) = False"
  using pdu_total_size_le [of w] by (simp add: not_less)

lemma rebuild_keeps:
  assumes "meta_typed b (pdu_meta_data w)"
  shows "within (\<lambda>w'. pdu_typed b w' \<and> (\<exists>c. w' = w\<lparr>pdu_channel_cache := c\<rparr>)) F (rebuild_pdu_channel_index w)"
  using rebuild_typed [OF assms] assms by (auto simp: pdu_typed_def)

lemma load_typed:
  assumes "pdu_typed b w"
  shows "within (\<lambda>(_, w'). pdu_typed b w' \<and> pdu_meta_data w' = pdu_meta_data w) F (pdu_load env w)"
proof -
  have m: "meta_typed b (pdu_meta_data (w\<lparr>asset_shmp := s, pdu_ptr := p, trace := t\<rparr>))" for s p t
    using assms by (simp add: pdu_typed_def)
  show ?thesis
    using assms unfolding pdu_load_def
    by (auto simp: Let_def emit_def split: prod.split intro!: within_bind [OF rebuild_keeps [of b]])
      (auto simp: pdu_typed_def)
qed

lemma ensure_typed:
  assumes "pdu_typed b w"
  shows "within (\<lambda>w'. pdu_typed b w' \<and> pdu_meta_data w' = pdu_meta_data w \<and> (area_sound env w \<longrightarrow> w' = w)) F
    (ensure_loaded env w)"
  using assms unfolding ensure_loaded_def
  by (auto simp: area_sound_def intro!: within_bind [OF load_typed [of b]])

lemma offsets_bounded: "off \<le> UINT64_MAX \<Longrightarrow> c \<in> set (assign_offsets off cs) \<Longrightarrow> ch_offset c \<le> UINT64_MAX"
proof (induction cs arbitrary: off)
  case (Cons d cs)
  have "(off + ch_size d) mod (UINT64_MAX + 1) \<le> UINT64_MAX" by (simp add: SIZE_MAX_def)
  then have "c \<in> set (assign_offsets ((off + ch_size d) mod (UINT64_MAX + 1)) cs) \<Longrightarrow> ch_offset c \<le> UINT64_MAX"
    by (rule Cons.IH)
  then show ?case using Cons.prems by auto
qed simp

lemma offsets_typed:
  assumes "meta_typed b m"
  shows "meta_typed b (m\<lparr>mode := t, pm_asset_num := n, channel := assign_offsets 0 (channel m)\<rparr>)"
proof -
  let ?cs = "channel m"
  have "count_if (\<lambda>c. 0 < ch_size c) (assign_offsets off cs) = count_if (\<lambda>c. 0 < ch_size c) cs" for off cs
    by (induction cs arbitrary: off) auto
  moreover have "\<forall>c \<in> set (assign_offsets 0 ?cs). ch_size c \<le> UINT64_MAX"
    using assms by (fastforce simp: meta_typed_def in_set_conv_nth [of _ "assign_offsets 0 ?cs"])
  ultimately show ?thesis
    using assms offsets_bounded [of 0 _ ?cs] by (simp add: meta_typed_def meta_ok_def pdu_idle_def)
qed

lemma mode_typed: "meta_typed b m \<Longrightarrow> meta_typed b (m\<lparr>pm_asset_num := n, mode := t\<rparr>)"
  by (simp add: meta_typed_def meta_ok_def pdu_idle_def)

lemma create_typed:
  assumes "pdu_typed (env_build env) w"
  shows "within (pdu_typed (env_build env)) (copy_fault env w) (pdu_create env n w)"
proof -
  have m: "meta_typed (env_build env) (pdu_meta_data w)" using assms by (simp add: pdu_typed_def)
  show ?thesis
    using assms mode_typed [OF m, where n = n and t = HakoTimeMode_Asset]
      offsets_typed [OF m, where n = n and t = HakoTimeMode_Asset]
    unfolding pdu_create_def
    by (auto simp: Let_def area_sound_def pdu_typed_def split: prod.split
        intro!: within_bind [OF rebuild_keeps [of "env_build env"]])
qed

lemma reset_typed:
  assumes "pdu_typed (env_build env) w"
  shows "within (pdu_typed (env_build env)) (copy_fault env w) (pdu_reset env w)"
proof -
  have m: "meta_typed (env_build env) (reset_meta (pdu_meta_data w))"
    using assms reset_meta_ok(1) [of "env_build env" "pdu_meta_data w"] reset_meta_ok(2) [of "pdu_meta_data w"]
    by (simp add: pdu_typed_def meta_typed_def) (simp add: reset_meta_def)
  have n: "pdu_total_size (upd_meta reset_meta v) = pdu_total_size v" "pdu_total_size (emit e v) = pdu_total_size v"
    for e and v :: "'a HakoPduData"
    by (simp_all add: pdu_total_size_def reset_meta_def)
  show ?thesis
    using assms m unfolding pdu_reset_def
    by (auto simp: Let_def area_sound_def n pdu_typed_def
        intro!: within_bind [OF rebuild_keeps [of "env_build env"]])
qed

lemma created_typed:
  assumes "pdu_typed b w"
  shows "within (\<lambda>(_, w'). pdu_typed b w') F (is_pdu_created env w)"
  using assms unfolding is_pdu_created_def
  by (auto intro!: within_bind [where Q = "pdu_typed b"] within_bind [OF load_typed [of b]])

section \<open>Reading and writing\<close>

text \<open>A call that finds the area sound copies inside it; the types are not touched.\<close>

definition extent_in :: "'m pdu_env \<Rightarrow> 'm HakoPduData \<Rightarrow> HakoPduChannelType \<Rightarrow> bool" where
  "extent_in env v ch \<longleftrightarrow> pdu_ptr v \<and> ch_offset ch + ch_size ch \<le> length (pdu_bytes env v)"

lemma copy_in_keeps:
  assumes "area_sound env w \<longrightarrow> extent_in env v ch" and "len \<le> ch_size ch" and "len \<le> length data"
  shows "within (\<lambda>v'. pdu_meta_data v' = pdu_meta_data v \<and> pdu_channel_cache v' = pdu_channel_cache v)
    (copy_fault env w) (copy_in env (ch_offset ch) data len v)"
  using assms by (auto simp: copy_in_def extent_in_def)

lemma copy_out_keeps:
  assumes "area_sound env w \<longrightarrow> extent_in env v ch" and "len \<le> ch_size ch"
  shows "within (\<lambda>_. True) (copy_fault env w) (copy_out env (ch_offset ch) len v)"
  using assms by (auto simp: copy_out_def extent_in_def)

lemma sound_extent:
  "area_sound env w \<Longrightarrow> n < length (channel (pdu_meta_data w)) \<Longrightarrow> extent_in env w (channel (pdu_meta_data w) ! n)"
  by (simp add: area_sound_def extent_in_def)

text \<open>A flag that is down is raised, and nobody of the other side is found.\<close>

definition raise_w :: "nat \<Rightarrow> HakoPduMetaDataType \<Rightarrow> HakoPduMetaDataType" where
  "raise_w n m = m\<lparr>atomic_is_wbusy := (atomic_is_wbusy m)[n := True]\<rparr>"

definition raise_r :: "nat \<Rightarrow> nat \<Rightarrow> HakoPduMetaDataType \<Rightarrow> HakoPduMetaDataType" where
  "raise_r a n m = m\<lparr>atomic_is_rbusy := (atomic_is_rbusy m)[a := (atomic_is_rbusy m ! a)[n := True]]\<rparr>"

definition raise_x :: "nat \<Rightarrow> HakoPduMetaDataType \<Rightarrow> HakoPduMetaDataType" where
  "raise_x n m = m\<lparr>atomic_is_rbusy_for_external := (atomic_is_rbusy_for_external m)[n := True]\<rparr>"

lemma flags_up:
  assumes "meta_typed b (pdu_meta_data w)" and "n < HAKO_PDU_CHANNEL_MAX b"
  shows "set_pdu_wbusy_status (int n) True w = Inr (upd_meta (raise_w n) w)"
    and "is_pdu_rbusy (int n) (upd_meta (raise_w n) w) = Inr False"
    and "set_pdu_rbusy_status_for_external (int n) True w = Inr (upd_meta (raise_x n) w)"
    and "is_pdu_wbusy (int n) (upd_meta (raise_x n) w) = Inr False"
    and "a < HAKO_DATA_MAX_ASSET_NUM b \<Longrightarrow> set_pdu_rbusy_status (int a) (int n) True w = Inr (upd_meta (raise_r a n) w)"
    and "is_pdu_wbusy (int n) (upd_meta (raise_r a n) w) = Inr False"
proof -
  have ok: "meta_ok b (pdu_meta_data w)" "pdu_idle (pdu_meta_data w)" using assms(1) by (simp_all add: meta_typed_def)
  note lens = ok(1) [unfolded meta_ok_def]
  show "set_pdu_wbusy_status (int n) True w = Inr (upd_meta (raise_w n) w)"
    "set_pdu_rbusy_status_for_external (int n) True w = Inr (upd_meta (raise_x n) w)"
    using lens assms(2)
    by (simp_all add: set_pdu_wbusy_status_def set_pdu_rbusy_status_for_external_def raise_w_def raise_x_def upd_meta_def)
  show "is_pdu_rbusy (int n) (upd_meta (raise_w n) w) = Inr False"
    using idle_not_rbusy [OF ok assms(2)] by (simp add: is_pdu_rbusy_def raise_w_def cong: if_cong)
  show "is_pdu_wbusy (int n) (upd_meta (raise_x n) w) = Inr False" "is_pdu_wbusy (int n) (upd_meta (raise_r a n) w) = Inr False"
    using idle_not_wbusy(1) [OF ok assms(2)] by (simp_all add: is_pdu_wbusy_def raise_x_def raise_r_def)
  show "set_pdu_rbusy_status (int a) (int n) True w = Inr (upd_meta (raise_r a n) w)" if "a < HAKO_DATA_MAX_ASSET_NUM b"
    using lens assms(2) that by (simp add: set_pdu_rbusy_status_def raise_r_def upd_meta_def)
qed

lemma flag_down: "True \<notin> set xs \<Longrightarrow> xs[n := False] = xs"
  by (cases "n < length xs") (metis (full_types) list_update_id nth_mem, simp add: list_update_beyond)

lemma finish_write_typed:
  assumes m: "meta_typed b m" and n: "n < HAKO_PDU_CHANNEL_MAX b"
    and v: "pdu_meta_data v = raise_w n m" "ids_typed (channel_num m) (pdu_channel_cache v)"
  shows "within (pdu_typed b) F (finish_write (int n) v)"
proof -
  have down: "(atomic_is_wbusy m)[n := False] = atomic_is_wbusy m"
    using m by (intro flag_down) (simp add: meta_typed_def pdu_idle_def)
  have "meta_ok b m" using m by (simp add: meta_typed_def)
  then show ?thesis
    using m n v down unfolding meta_ok_def
    by (simp add: finish_write_def set_pdu_wbusy_status_def raise_w_def pdu_typed_def meta_typed_def
        meta_ok_def pdu_idle_def)
qed

lemma finish_read_typed:
  assumes m: "meta_typed b m" and n: "n < HAKO_PDU_CHANNEL_MAX b" and a: "a < HAKO_DATA_MAX_ASSET_NUM b"
    and v: "pdu_meta_data v = raise_r a n m" "ids_typed (channel_num m) (pdu_channel_cache v)"
  shows "within (pdu_typed b) F (finish_read (int a) (int n) v)"
proof -
  let ?row = "atomic_is_rbusy m ! a" and ?ver = "atomic_pdu_read_version m ! a"
  have ok: "meta_ok b m" "pdu_idle m" using m by (simp_all add: meta_typed_def)
  then have row: "?row \<in> set (atomic_is_rbusy m)" "?ver \<in> set (atomic_pdu_read_version m)"
    using a by (simp_all add: meta_ok_def)
  then have len: "length ?row = HAKO_PDU_CHANNEL_MAX b" "length ?ver = HAKO_PDU_CHANNEL_MAX b"
    "?row[n := False] = ?row"
    using ok by (auto simp: meta_ok_def pdu_idle_def intro!: flag_down)
  have "\<forall>r \<in> set ((atomic_pdu_read_version m)[a := ?ver[n := x]]). length r = HAKO_PDU_CHANNEL_MAX b" for x
    using ok(1) len by (intro all_update) (auto simp: meta_ok_def)
  then show ?thesis
    using m n a v ok(1) len unfolding meta_ok_def
    by (simp add: finish_read_def set_pdu_rbusy_status_def raise_r_def pdu_typed_def meta_typed_def
        meta_ok_def pdu_idle_def)
qed

lemma finish_external_typed:
  assumes m: "meta_typed b m" and n: "n < HAKO_PDU_CHANNEL_MAX b"
    and v: "pdu_meta_data v = raise_x n m" "ids_typed (channel_num m) (pdu_channel_cache v)"
  shows "within (pdu_typed b) F (set_pdu_rbusy_status_for_external (int n) False v)"
proof -
  have down: "(atomic_is_rbusy_for_external m)[n := False] = atomic_is_rbusy_for_external m"
    using m by (intro flag_down) (simp add: meta_typed_def pdu_idle_def)
  have "meta_ok b m" using m by (simp add: meta_typed_def)
  then show ?thesis
    using m n v down unfolding meta_ok_def
    by (simp add: set_pdu_rbusy_status_for_external_def raise_x_def pdu_typed_def meta_typed_def
        meta_ok_def pdu_idle_def)
qed

lemma loaded_access:
  assumes "pdu_typed b w" and "n < HAKO_PDU_CHANNEL_MAX b"
    and "\<And>w1. pdu_typed b w1 \<Longrightarrow> pdu_meta_data w1 = pdu_meta_data w \<Longrightarrow>
      area_sound env w \<longrightarrow> extent_in env w1 (channel (pdu_meta_data w) ! n) \<Longrightarrow> within Q (copy_fault env w) (f w1)"
  shows "within Q (copy_fault env w) (bindE (ensure_loaded env w) f)"
proof (rule within_bind [OF ensure_typed [OF assms(1), of env]])
  fix w1
  assume "pdu_typed b w1 \<and> pdu_meta_data w1 = pdu_meta_data w \<and> (area_sound env w \<longrightarrow> w1 = w)"
  moreover have "n < length (channel (pdu_meta_data w))"
    using assms(1,2) by (auto simp: pdu_typed_def dest: typed_length)
  ultimately show "within Q (copy_fault env w) (f w1)" using assms(3) [of w1] sound_extent [of env w n] by auto
qed

lemma typed_channel:
  assumes "pdu_typed b w" and "n < HAKO_PDU_CHANNEL_MAX b"
  shows "arr_get (channel (pdu_meta_data w)) (int n) = Inr (channel (pdu_meta_data w) ! n)"
    and "\<not> UINT64_MAX < ch_offset (channel (pdu_meta_data w) ! n)"
    and "\<not> UINT64_MAX < ch_size (channel (pdu_meta_data w) ! n)"
proof -
  have n: "n < length (channel (pdu_meta_data w))" using assms by (auto simp: pdu_typed_def dest: typed_length)
  then show "arr_get (channel (pdu_meta_data w)) (int n) = Inr (channel (pdu_meta_data w) ! n)" by simp
  show "\<not> UINT64_MAX < ch_offset (channel (pdu_meta_data w) ! n)" "\<not> UINT64_MAX < ch_size (channel (pdu_meta_data w) ! n)"
    using nth_mem [OF n] assms(1) by (auto simp: pdu_typed_def meta_typed_def not_less)
qed

lemma loaded_typed:
  "pdu_typed b w \<Longrightarrow> meta_typed b (pdu_meta_data w) \<and> ids_typed (channel_num (pdu_meta_data w)) (pdu_channel_cache w)"
  by (simp add: pdu_typed_def)

lemma write_typed:
  assumes w: "pdu_typed (env_build env) w" and len: "len \<le> length data"
  shows "within (\<lambda>(_, w'). pdu_typed (env_build env) w') (copy_fault env w) (write_pdu env (int n) data len w)"
proof (cases "n < HAKO_PDU_CHANNEL_MAX (env_build env) \<and> len \<le> ch_size (channel (pdu_meta_data w) ! n)")
  case True
  then have n: "n < HAKO_PDU_CHANNEL_MAX (env_build env)" by simp
  have guards: "\<not> int n \<ge> int (HAKO_PDU_CHANNEL_MAX (env_build env))" "\<not> len > ch_size (channel (pdu_meta_data w) ! n)"
    using True by simp_all
  show ?thesis
    unfolding write_pdu_def if_not_P [OF guards(1)] typed_channel(1) [OF w n] bindE_simps if_not_P [OF guards(2)]
  proof (rule loaded_access [OF w n])
    fix w1
    assume "pdu_typed (env_build env) w1" and "pdu_meta_data w1 = pdu_meta_data w"
      and "area_sound env w \<longrightarrow> extent_in env w1 (channel (pdu_meta_data w) ! n)"
    note w1 = loaded_typed [OF this(1)] this(3)
    then show "within (\<lambda>(_, w'). pdu_typed (env_build env) w') (copy_fault env w)
        (bindE (set_pdu_wbusy_status (int n) True w1) (\<lambda>w1. bindE (is_pdu_rbusy (int n) w1) (\<lambda>rbusy.
           if rbusy then Inl Blocked
           else if ch_offset (channel (pdu_meta_data w) ! n) > UINT64_MAX then Inr (False, w1)
           else bindE (copy_in env (ch_offset (channel (pdu_meta_data w) ! n)) data len w1)
                  (\<lambda>w1. bindE (finish_write (int n) w1) (\<lambda>w1. Inr (True, w1))))))"
      using guards(2) len n typed_channel(2) [OF w n]
      by (auto simp: flags_up [of "env_build env"] extent_in_def intro!: within_bind [OF copy_in_keeps]
          within_bind [OF finish_write_typed [of "env_build env" "pdu_meta_data w1"]])
  qed
qed (use w in \<open>auto simp: write_pdu_def typed_channel\<close>)

lemma read_typed:
  assumes w: "pdu_typed (env_build env) w" and a: "a < HAKO_DATA_MAX_ASSET_NUM (env_build env)"
  shows "within (\<lambda>(_, w'). pdu_typed (env_build env) w') (copy_fault env w) (read_pdu env (int a) (int n) len w)"
proof (cases "n < HAKO_PDU_CHANNEL_MAX (env_build env) \<and> len \<le> ch_size (channel (pdu_meta_data w) ! n)")
  case True
  then have n: "n < HAKO_PDU_CHANNEL_MAX (env_build env)" by simp
  have guards: "\<not> int n \<ge> int (HAKO_PDU_CHANNEL_MAX (env_build env))" "\<not> len > ch_size (channel (pdu_meta_data w) ! n)"
    using True by simp_all
  show ?thesis
    unfolding read_pdu_def if_not_P [OF guards(1)] typed_channel(1) [OF w n] bindE_simps if_not_P [OF guards(2)]
  proof (rule loaded_access [OF w n])
    fix w1
    assume "pdu_typed (env_build env) w1" and "pdu_meta_data w1 = pdu_meta_data w"
      and "area_sound env w \<longrightarrow> extent_in env w1 (channel (pdu_meta_data w) ! n)"
    note w1 = loaded_typed [OF this(1)] this(3)
    then show "within (\<lambda>(_, w'). pdu_typed (env_build env) w') (copy_fault env w)
        (bindE (set_pdu_rbusy_status (int a) (int n) True w1) (\<lambda>w1. bindE (is_pdu_wbusy (int n) w1) (\<lambda>wbusy.
           if wbusy then Inl Blocked
           else if ch_offset (channel (pdu_meta_data w) ! n) > UINT64_MAX then Inr (None, w1)
           else bindE (copy_out env (ch_offset (channel (pdu_meta_data w) ! n)) len w1)
                  (\<lambda>bs. bindE (finish_read (int a) (int n) w1) (\<lambda>w1. Inr (Some bs, w1))))))"
      using guards(2) n typed_channel(2) [OF w n] a
      by (auto simp: flags_up [of "env_build env"] extent_in_def intro!: within_bind [OF copy_out_keeps]
          within_bind [OF finish_read_typed [of "env_build env" "pdu_meta_data w1"]])
  qed
qed (use w in \<open>auto simp: read_pdu_def typed_channel\<close>)

lemma external_typed:
  assumes w: "pdu_typed (env_build env) w"
  shows "within (\<lambda>(_, w'). pdu_typed (env_build env) w') (copy_fault env w) (read_pdu_for_external env (int n) len w)"
proof (cases "n < HAKO_PDU_CHANNEL_MAX (env_build env) \<and> len \<le> ch_size (channel (pdu_meta_data w) ! n)")
  case True
  then have n: "n < HAKO_PDU_CHANNEL_MAX (env_build env)" by simp
  have guards: "\<not> int n \<ge> int (HAKO_PDU_CHANNEL_MAX (env_build env))" "\<not> len > ch_size (channel (pdu_meta_data w) ! n)"
    using True by simp_all
  show ?thesis
    unfolding read_pdu_for_external_def if_not_P [OF guards(1)] typed_channel(1) [OF w n] bindE_simps if_not_P [OF guards(2)]
  proof (rule loaded_access [OF w n])
    fix w1
    assume "pdu_typed (env_build env) w1" and "pdu_meta_data w1 = pdu_meta_data w"
      and "area_sound env w \<longrightarrow> extent_in env w1 (channel (pdu_meta_data w) ! n)"
    note w1 = loaded_typed [OF this(1)] this(3)
    then show "within (\<lambda>(_, w'). pdu_typed (env_build env) w') (copy_fault env w)
        (bindE (set_pdu_rbusy_status_for_external (int n) True w1) (\<lambda>w1. bindE (is_pdu_wbusy (int n) w1) (\<lambda>wbusy.
           if wbusy then Inl Blocked
           else if ch_offset (channel (pdu_meta_data w) ! n) > UINT64_MAX then Inr (None, w1)
           else bindE (copy_out env (ch_offset (channel (pdu_meta_data w) ! n)) len w1)
                  (\<lambda>bs. bindE (set_pdu_rbusy_status_for_external (int n) False w1) (\<lambda>w1. Inr (Some bs, w1))))))"
      using guards(2) n typed_channel(2) [OF w n]
      by (auto simp: flags_up [of "env_build env"] extent_in_def intro!: within_bind [OF copy_out_keeps]
          within_bind [OF finish_external_typed [of "env_build env" "pdu_meta_data w1"]])
  qed
qed (use w in \<open>auto simp: read_pdu_for_external_def typed_channel\<close>)

lemma write_nolock_typed:
  assumes w: "pdu_typed (env_build env) w" and len: "\<forall>bs. data = Some bs \<longrightarrow> len \<le> length bs"
  shows "within (\<lambda>(_, w'). pdu_typed (env_build env) w') (copy_fault env w) (write_pdu_nolock env (int n) data len w)"
proof (cases "n < HAKO_PDU_CHANNEL_MAX (env_build env) \<and> data \<noteq> None")
  case True
  then obtain bs where n: "n < HAKO_PDU_CHANNEL_MAX (env_build env)" and bs: "data = Some bs" by auto
  have guard: "\<not> int n \<ge> int (HAKO_PDU_CHANNEL_MAX (env_build env))" using n by simp
  show ?thesis
    unfolding write_pdu_nolock_def if_not_P [OF guard] bs option.case
    using typed_channel [OF w n] len bs
    by (intro loaded_access [OF w n])
      (auto simp: pdu_typed_def intro!: within_bind [OF copy_in_keeps])
qed (use w in \<open>auto simp: write_pdu_nolock_def split: option.splits\<close>)

lemma read_nolock_typed:
  assumes w: "pdu_typed (env_build env) w"
  shows "within (\<lambda>(_, w'). pdu_typed (env_build env) w') (copy_fault env w) (read_pdu_nolock env (int n) buf_ok len w)"
proof (cases "n < HAKO_PDU_CHANNEL_MAX (env_build env) \<and> buf_ok")
  case True
  then have n: "n < HAKO_PDU_CHANNEL_MAX (env_build env)" by simp
  have guards: "\<not> int n \<ge> int (HAKO_PDU_CHANNEL_MAX (env_build env))" "\<not> \<not> buf_ok" using True by simp_all
  show ?thesis
    unfolding read_pdu_nolock_def if_not_P [OF guards(1)] if_not_P [OF guards(2)]
    using typed_channel [OF w n]
    by (intro loaded_access [OF w n]) (auto intro!: within_bind [OF copy_out_keeps])
qed (use w in \<open>auto simp: read_pdu_nolock_def\<close>)

section \<open>Any call, any sequence of calls\<close>

lemma within_state: "within (\<lambda>(_, w). Q w) F r \<Longrightarrow> within Q F (new_state r)"
  by (cases r) (auto split: prod.splits)

lemma find_call_typed:
  assumes "pdu_typed b w"
  shows "within (\<lambda>(_, w'). pdu_typed b w') F (get_pdu_channel name c w)"
  using assms
  by (auto intro!: within_mono [OF find_typed [of b w]] simp: pdu_typed_def meta_typed_def)

lemma queries_typed:
  assumes "pdu_typed b w"
  shows "0 \<le> c \<Longrightarrow> within (\<lambda>_. True) F (pdu_size_nolock b c w)"
    and "call_ok b (Ask_Dirty a c) \<Longrightarrow> within (\<lambda>_. True) F (is_pdu_dirty a c w)"
    and "0 \<le> a \<Longrightarrow> within (\<lambda>_. True) F (is_pdu_sync_mode b a w)"
    and "0 \<le> a \<Longrightarrow> within (pdu_typed b) F (notify_write_pdu_done b a w)"
proof -
  have ok: "meta_ok b (pdu_meta_data w)" using assms by (simp add: pdu_typed_def meta_typed_def)
  note lens = ok [unfolded meta_ok_def]
  show "within (\<lambda>_. True) F (pdu_size_nolock b c w)" if "0 \<le> c"
    using that lens by (simp add: pdu_size_nolock_def)
  show "within (\<lambda>_. True) F (is_pdu_sync_mode b a w)" if "0 \<le> a"
    using that lens by (simp add: is_pdu_sync_mode_def)
  show "within (\<lambda>_. True) F (is_pdu_dirty a c w)" if "call_ok b (Ask_Dirty a c)"
  proof -
    have "nat a < length (atomic_pdu_read_version (pdu_meta_data w))" using that lens by auto
    then have "length (atomic_pdu_read_version (pdu_meta_data w) ! nat a) = HAKO_PDU_CHANNEL_MAX b"
      using lens nth_mem by blast
    then show ?thesis using that lens by (simp add: is_pdu_dirty_def)
  qed
  show "within (pdu_typed b) F (notify_write_pdu_done b a w)" if "0 \<le> a"
    using that assms lens
    by (auto simp: notify_write_pdu_done_def Let_def pdu_typed_def meta_typed_def meta_ok_def pdu_idle_def)
qed

lemma call_typed:
  assumes "pdu_typed (env_build env) w" and "call_ok (env_build env) c"
  shows "within (pdu_typed (env_build env)) (copy_fault env w) (pdu_do env c w)"
proof (cases c)
  case (Write_Pdu i data len)
  then obtain n where "i = int n" using assms(2) by (auto elim: nonneg_int_cases)
  then show ?thesis using Write_Pdu assms write_typed [of env w len data n] by (simp add: within_state)
next
  case (Read_Pdu a i len)
  then obtain k n where "a = int k" "i = int n" using assms(2) by (auto elim!: nonneg_int_cases)
  then show ?thesis using Read_Pdu assms read_typed [of env w k n len] by (simp add: within_state)
next
  case (Read_External i len)
  then obtain n where "i = int n" using assms(2) by (auto elim: nonneg_int_cases)
  then show ?thesis using Read_External assms external_typed [of env w n len] by (simp add: within_state)
next
  case (Write_Nolock i data len)
  then obtain n where "i = int n" using assms(2) by (auto elim: nonneg_int_cases)
  then show ?thesis
    using Write_Nolock assms write_nolock_typed [of env w data len n] by (simp add: within_state split: option.splits)
next
  case (Read_Nolock i buf_ok len)
  then obtain n where "i = int n" using assms(2) by (auto elim: nonneg_int_cases)
  then show ?thesis using Read_Nolock assms read_nolock_typed [of env w n buf_ok len] by (simp add: within_state)
next
  case Load_Area
  then show ?thesis
    using assms by (auto intro!: within_state within_mono [OF load_typed [of "env_build env"]])
qed (use assms in \<open>auto intro!: within_state create_channel_typed create_lchannel_typed find_call_typed created_typed
      create_typed reset_typed queries_typed within_bind [OF queries_typed(1)]
      within_bind [OF queries_typed(2)] within_bind [OF queries_typed(3)]\<close>)

text \<open>
  C3: The operations of the PDU store are type-sound. From metadata whose arrays have
  their dimensions, whose flags are down and whose counter is the number of channels in
  use, any sequence of calls with ids in range and non-empty channels, whatever the shared
  memory below does, ends in such a state. It never spins on a flag, and if it fails, then
  in a call that finds the area absent or shorter than the channels say.
\<close>

theorem pdu_calls_well_typed:
  assumes "pdu_typed (env_build env) w" and "\<forall>c \<in> set cs. call_ok (env_build env) c"
  shows "case pdu_run env cs w of
      Inr w' \<Rightarrow> pdu_typed (env_build env) w'
    | Inl f \<Rightarrow> f \<noteq> Blocked \<and>
        (\<exists>ds c es v. cs = ds @ c # es \<and> pdu_run env ds w = Inr v \<and> pdu_typed (env_build env) v \<and>
           \<not> area_sound env v)"
  using assms
proof (induction cs arbitrary: w)
  case (Cons c cs)
  have step: "within (pdu_typed (env_build env)) (copy_fault env w) (pdu_do env c w)"
    using Cons.prems by (intro call_typed) simp_all
  show ?case
  proof (cases "pdu_do env c w")
    case (Inl f)
    then show ?thesis
      using step Cons.prems(1) by (auto intro!: exI [of _ "[]"])
  next
    case (Inr w1)
    then have "pdu_typed (env_build env) w1" using step by simp
    then show ?thesis
      using Cons.IH [of w1] Cons.prems(2) Inr
      by (auto split: sum.splits) (metis append_Cons bindE_simps(2) pdu_run.simps(2))
  qed
qed simp

lemma demo_typed: "pdu_typed small_build (empty_pdu demo_shm)"
  by (simp add: pdu_typed_def empty_pdu_def meta_typed_def meta_ok_zero)
    (simp add: zero_meta_def Let_def pdu_idle_def ids_typed_def numeral_eq_Suc)

theorem pdu_calls_well_typed_witness:
  "pdu_typed (env_build demo_env) (empty_pdu demo_shm) \<and>
   (case pdu_run demo_env [Make_Lchannel ''arm'' 7 2, Make_Area 1, Write_Pdu 0 [1, 2] 2, Read_Pdu 0 0 2]
      (empty_pdu demo_shm) of
      Inr w' \<Rightarrow> pdu_typed (env_build demo_env) w'
    | Inl f \<Rightarrow> f \<noteq> Blocked \<and>
        (\<exists>ds c es v. [Make_Lchannel ''arm'' 7 2, Make_Area 1, Write_Pdu 0 [1, 2] 2, Read_Pdu 0 0 2] = ds @ c # es \<and>
           pdu_run demo_env ds (empty_pdu demo_shm) = Inr v \<and> pdu_typed (env_build demo_env) v \<and>
           \<not> area_sound demo_env v))"
  by (intro conjI pdu_calls_well_typed) (simp_all add: demo_typed SIZE_MAX_def)

text \<open>
  The condition on sizes is needed. A channel of size 0 still looks free after
  \<open>create_channel\<close> has made it, so it can be made again and is counted again; once
  \<open>channel_num\<close> exceeds the table, a lookup of an unknown name runs past its end.
\<close>

lemma empty_channels_overrun:
  "pdu_run demo_env (replicate 4 (Make_Channel 0 0) @ [Find_Channel ''arm'' 7]) (empty_pdu demo_shm) = Inl Out_Of_Bounds"
  by (simp add: numeral_eq_Suc create_channel_def lock_channel_table_def hako_spin_lock_bool_def
      unlock_channel_table_def upd_meta_def emit_def empty_pdu_def zero_meta_def Let_def get_pdu_channel_def upt_rec arr_get_def)

end
