(* ===== verification/Hako_Pdu_Sync.thy ===== *)
theory Hako_Pdu_Sync
  imports Hako_Pdu_Data
begin

text \<open>
  The synchronisation of one PDU channel between its writer and its readers, with their
  steps interleaved: the writer raises \<open>atomic_is_wbusy\<close> and waits until no reader flag is
  up (\<open>write_pdu\<close>), a reader raises its own flag, steps back if the writer's flag is up and
  tries again (\<open>read_pdu\<close>, \<open>read_pdu_for_external\<close>). One step is one load or store of a
  flag or of one byte. On sequentially consistent memory readers and writer exclude each
  other and no read is torn; with the store buffers that release stores and acquire loads
  allow, both can be inside at once.
\<close>

section \<open>The program of a channel\<close>

text \<open>
  Reader slot 0 is the external reader, slot \<open>i + 1\<close> the asset \<open>i\<close>, in the order in which
  \<open>is_pdu_rbusy\<close> loads the flags. \<open>W_Scan k\<close>: the loop of \<open>is_pdu_rbusy\<close> has found the
  first \<open>k\<close> flags down. \<open>R_Again\<close>: a reader that has lowered its flag and will retry.
\<close>

datatype writer_pc =
    W_Idle
  | W_Scan nat "byte list"
  | W_Copy nat "byte list"
  | W_Version "byte list"
  | W_Release

datatype reader_pc =
    R_Idle
  | R_Check nat
  | R_Retract nat
  | R_Again nat
  | R_Copy "byte list" nat
  | R_Store "byte list" "32 word"
  | R_Release "byte list"

record pdu_sync =
  s_wbusy :: bool
  s_rbusy :: "nat \<Rightarrow> bool"
  s_mem :: "byte list"
  s_wver :: "32 word"
  s_rver :: "nat \<Rightarrow> 32 word"
  s_wpc :: writer_pc
  s_rpc :: "nat \<Rightarrow> reader_pc"
  s_last :: "byte list"

text \<open>
  \<open>s_last\<close> is a history variable: the content of the channel after the last write that
  has counted its version.
\<close>

definition sync_init :: "byte list \<Rightarrow> pdu_sync" where
  "sync_init mem = \<lparr>s_wbusy = False, s_rbusy = (\<lambda>_. False), s_mem = mem, s_wver = 0, s_rver = (\<lambda>_. 0),
     s_wpc = W_Idle, s_rpc = (\<lambda>_. R_Idle), s_last = mem\<rparr>"

definition set_wpc :: "writer_pc \<Rightarrow> pdu_sync \<Rightarrow> pdu_sync" where
  "set_wpc pc s = s\<lparr>s_wpc := pc\<rparr>"

definition set_rpc :: "nat \<Rightarrow> reader_pc \<Rightarrow> pdu_sync \<Rightarrow> pdu_sync" where
  "set_rpc i pc s = s\<lparr>s_rpc := (s_rpc s)(i := pc)\<rparr>"

definition set_rflag :: "nat \<Rightarrow> bool \<Rightarrow> pdu_sync \<Rightarrow> pdu_sync" where
  "set_rflag i b s = s\<lparr>s_rbusy := (s_rbusy s)(i := b)\<rparr>"

inductive writer_step :: "nat \<Rightarrow> pdu_sync \<Rightarrow> pdu_sync \<Rightarrow> bool" for n where
  w_start: "s_wpc s = W_Idle \<Longrightarrow> length data \<le> length (s_mem s) \<Longrightarrow>
     writer_step n s (set_wpc (W_Scan 0 data) (s\<lparr>s_wbusy := True\<rparr>))"
| w_busy: "s_wpc s = W_Scan k data \<Longrightarrow> k < n \<Longrightarrow> s_rbusy s k \<Longrightarrow>
     writer_step n s (set_wpc (W_Scan 0 data) s)"
| w_free: "s_wpc s = W_Scan k data \<Longrightarrow> k < n \<Longrightarrow> \<not> s_rbusy s k \<Longrightarrow>
     writer_step n s (set_wpc (W_Scan (Suc k) data) s)"
| w_enter: "s_wpc s = W_Scan n data \<Longrightarrow> writer_step n s (set_wpc (W_Copy 0 data) s)"
| w_copy: "s_wpc s = W_Copy j data \<Longrightarrow> j < length data \<Longrightarrow>
     writer_step n s (set_wpc (W_Copy (Suc j) data) (s\<lparr>s_mem := (s_mem s)[j := data ! j]\<rparr>))"
| w_copied: "s_wpc s = W_Copy (length data) data \<Longrightarrow> writer_step n s (set_wpc (W_Version data) s)"
| w_version: "s_wpc s = W_Version data \<Longrightarrow>
     writer_step n s (set_wpc W_Release (s\<lparr>s_wver := s_wver s + 1, s_last := s_mem s\<rparr>))"
| w_release: "s_wpc s = W_Release \<Longrightarrow> writer_step n s (set_wpc W_Idle (s\<lparr>s_wbusy := False\<rparr>))"

inductive reader_step :: "nat \<Rightarrow> pdu_sync \<Rightarrow> pdu_sync \<Rightarrow> bool" for i where
  r_start: "s_rpc s i = R_Idle \<Longrightarrow> len \<le> length (s_mem s) \<Longrightarrow>
     reader_step i s (set_rpc i (R_Check len) (set_rflag i True s))"
| r_busy: "s_rpc s i = R_Check len \<Longrightarrow> s_wbusy s \<Longrightarrow> reader_step i s (set_rpc i (R_Retract len) s)"
| r_retract: "s_rpc s i = R_Retract len \<Longrightarrow>
     reader_step i s (set_rpc i (R_Again len) (set_rflag i False s))"
| r_again: "s_rpc s i = R_Again len \<Longrightarrow>
     reader_step i s (set_rpc i (R_Check len) (set_rflag i True s))"
| r_enter: "s_rpc s i = R_Check len \<Longrightarrow> \<not> s_wbusy s \<Longrightarrow> reader_step i s (set_rpc i (R_Copy [] len) s)"
| r_copy: "s_rpc s i = R_Copy buf len \<Longrightarrow> length buf < len \<Longrightarrow>
     reader_step i s (set_rpc i (R_Copy (buf @ [s_mem s ! length buf]) len) s)"
| r_load: "s_rpc s i = R_Copy buf (length buf) \<Longrightarrow> 0 < i \<Longrightarrow>
     reader_step i s (set_rpc i (R_Store buf (s_wver s)) s)"
| r_store: "s_rpc s i = R_Store buf v \<Longrightarrow>
     reader_step i s (set_rpc i (R_Release buf) (s\<lparr>s_rver := (s_rver s)(i := v)\<rparr>))"
| r_external: "s_rpc s 0 = R_Copy buf (length buf) \<Longrightarrow> i = 0 \<Longrightarrow>
     reader_step i s (set_rpc i (R_Release buf) s)"
| r_release: "s_rpc s i = R_Release buf \<Longrightarrow>
     reader_step i s (set_rpc i R_Idle (set_rflag i False s))"

inductive sync_reach :: "nat \<Rightarrow> byte list \<Rightarrow> pdu_sync \<Rightarrow> bool" for n mem where
  sync_start: "sync_reach n mem (sync_init mem)"
| sync_writer: "sync_reach n mem s \<Longrightarrow> writer_step n s s' \<Longrightarrow> sync_reach n mem s'"
| sync_reader: "sync_reach n mem s \<Longrightarrow> i < n \<Longrightarrow> reader_step i s s' \<Longrightarrow> sync_reach n mem s'"

section \<open>The invariant\<close>

fun writing :: "writer_pc \<Rightarrow> bool" where
  "writing (W_Copy j data) = True"
| "writing (W_Version data) = True"
| "writing _ = False"

fun reading :: "reader_pc \<Rightarrow> bool" where
  "reading (R_Copy buf len) = True"
| "reading (R_Store buf v) = True"
| "reading (R_Release buf) = True"
| "reading _ = False"

text \<open>Where the writer can be while reader \<open>i\<close> is inside: it has not yet seen flag \<open>i\<close> down.\<close>

fun before_slot :: "nat \<Rightarrow> writer_pc \<Rightarrow> bool" where
  "before_slot i W_Idle = True"
| "before_slot i (W_Scan k data) = (k \<le> i)"
| "before_slot i _ = False"

fun writer_ok :: "byte list \<Rightarrow> writer_pc \<Rightarrow> bool" where
  "writer_ok mem (W_Scan k data) = (length data \<le> length mem)"
| "writer_ok mem (W_Copy j data) = (length data \<le> length mem)"
| "writer_ok mem _ = True"

fun reader_ok :: "pdu_sync \<Rightarrow> nat \<Rightarrow> reader_pc \<Rightarrow> bool" where
  "reader_ok s i (R_Check len) = (len \<le> length (s_mem s))"
| "reader_ok s i (R_Retract len) = (len \<le> length (s_mem s))"
| "reader_ok s i (R_Again len) = (len \<le> length (s_mem s))"
| "reader_ok s i (R_Copy buf len) =
     (length buf \<le> len \<and> len \<le> length (s_mem s) \<and> buf = take (length buf) (s_mem s))"
| "reader_ok s i (R_Store buf v) =
     (length buf \<le> length (s_mem s) \<and> buf = take (length buf) (s_mem s) \<and> v = s_wver s)"
| "reader_ok s i (R_Release buf) =
     (length buf \<le> length (s_mem s) \<and> buf = take (length buf) (s_mem s) \<and> (0 < i \<longrightarrow> s_rver s i = s_wver s))"
| "reader_ok s i R_Idle = True"

definition sync_inv :: "nat \<Rightarrow> pdu_sync \<Rightarrow> bool" where
  "sync_inv n s \<longleftrightarrow>
     s_wbusy s = (s_wpc s \<noteq> W_Idle) \<and>
     (\<not> writing (s_wpc s) \<longrightarrow> s_mem s = s_last s) \<and>
     writer_ok (s_mem s) (s_wpc s) \<and>
     (\<forall>i < n. s_rbusy s i = (s_rpc s i \<noteq> R_Idle \<and> \<not> (\<exists>len. s_rpc s i = R_Again len)) \<and>
        (reading (s_rpc s i) \<longrightarrow> before_slot i (s_wpc s)) \<and> reader_ok s i (s_rpc s i))"

lemma sync_inv_init: "sync_inv n (sync_init mem)"
  by (simp add: sync_inv_def sync_init_def)

lemmas sync_set_defs = set_wpc_def set_rpc_def set_rflag_def

text \<open>A reader is not disturbed by a writer that does not write.\<close>

lemma reader_ok_cong:
  "s_mem s' = s_mem s \<Longrightarrow> s_wver s' = s_wver s \<Longrightarrow> s_rver s' i = s_rver s i \<Longrightarrow>
   reader_ok s' i pc = reader_ok s i pc"
  by (cases pc) simp_all

lemma reader_ok_outside:
  "\<not> reading pc \<Longrightarrow> length (s_mem s') = length (s_mem s) \<Longrightarrow> reader_ok s i pc \<Longrightarrow> reader_ok s' i pc"
  by (cases pc) simp_all

lemma sync_inv_readers:
  assumes "sync_inv n s" and "i < n"
  shows "reading (s_rpc s i) \<Longrightarrow> before_slot i (s_wpc s)" and "reader_ok s i (s_rpc s i)"
  using assms by (simp_all add: sync_inv_def)

lemma writing_excludes:
  "sync_inv n s \<Longrightarrow> writing (s_wpc s) \<Longrightarrow> i < n \<Longrightarrow> \<not> reading (s_rpc s i)"
  using sync_inv_readers(1) [of n s i] by (cases "s_wpc s") auto

lemma sync_inv_writer:
  assumes "sync_inv n s" and "writer_step n s s'"
  shows "sync_inv n s'"
  using assms(2)
proof (cases rule: writer_step.cases)
  case (w_start data)
  have "reader_ok s' i pc = reader_ok s i pc" for i pc
    by (rule reader_ok_cong) (simp_all add: w_start sync_set_defs)
  then show ?thesis using assms(1) w_start by (auto simp: sync_inv_def sync_set_defs)
next
  case (w_busy k data)
  have "reader_ok s' i pc = reader_ok s i pc" for i pc
    by (rule reader_ok_cong) (simp_all add: w_busy sync_set_defs)
  then show ?thesis using assms(1) w_busy by (auto simp: sync_inv_def sync_set_defs)
next
  case (w_free k data)
  have rd: "reader_ok s' i pc = reader_ok s i pc" for i pc
    by (rule reader_ok_cong) (simp_all add: w_free sync_set_defs)
  have "\<not> reading (s_rpc s k)"
    using assms(1) w_free by (cases "s_rpc s k") (auto simp: sync_inv_def)
  then have "Suc k \<le> i" if "i < n" "reading (s_rpc s i)" for i
    using that assms(1) w_free by (cases "i = k") (auto simp: sync_inv_def)
  then show ?thesis using assms(1) w_free rd by (auto simp: sync_inv_def sync_set_defs)
next
  case (w_enter data)
  have "reader_ok s' i pc = reader_ok s i pc" for i pc
    by (rule reader_ok_cong) (simp_all add: w_enter sync_set_defs)
  moreover have "\<not> reading (s_rpc s i)" if "i < n" for i
  proof
    assume "reading (s_rpc s i)"
    then have "before_slot i (W_Scan n data)" using assms(1) that w_enter(2) by (simp add: sync_inv_def)
    then show False using that by simp
  qed
  moreover have "length data \<le> length (s_mem s)"
    using assms(1) w_enter(2) unfolding sync_inv_def by (metis writer_ok.simps(1))
  ultimately show ?thesis using assms(1) w_enter by (simp add: sync_inv_def sync_set_defs)
next
  case (w_copy j data)
  have out: "\<not> reading (s_rpc s i)" if "i < n" for i
    using that writing_excludes [OF assms(1)] w_copy(2) by simp
  have "reader_ok s' i (s_rpc s i)" if "i < n" for i
    using reader_ok_outside [OF out, of i s' s] sync_inv_readers(2) [OF assms(1)] that w_copy(1)
    by (simp add: sync_set_defs)
  then show ?thesis using assms(1) w_copy out by (simp add: sync_inv_def sync_set_defs)
next
  case (w_copied data)
  have "reader_ok s' i pc = reader_ok s i pc" for i pc
    by (rule reader_ok_cong) (simp_all add: w_copied sync_set_defs)
  then show ?thesis using assms(1) w_copied by (auto simp: sync_inv_def sync_set_defs)
next
  case (w_version data)
  have out: "\<not> reading (s_rpc s i)" if "i < n" for i
    using that writing_excludes [OF assms(1)] w_version(2) by simp
  have "reader_ok s' i (s_rpc s i)" if "i < n" for i
    using reader_ok_outside [OF out, of i s' s] sync_inv_readers(2) [OF assms(1)] that w_version(1)
    by (simp add: sync_set_defs)
  then show ?thesis using assms(1) w_version out by (simp add: sync_inv_def sync_set_defs)
next
  case w_release
  have "reader_ok s' i pc = reader_ok s i pc" for i pc
    by (rule reader_ok_cong) (simp_all add: w_release sync_set_defs)
  then show ?thesis using assms(1) w_release by (auto simp: sync_inv_def sync_set_defs)
qed

text \<open>A step of reader \<open>i\<close> concerns its own part of the invariant only.\<close>

definition reader_inv :: "nat \<Rightarrow> pdu_sync \<Rightarrow> bool" where
  "reader_inv i s \<longleftrightarrow>
     s_rbusy s i = (s_rpc s i \<noteq> R_Idle \<and> \<not> (\<exists>len. s_rpc s i = R_Again len)) \<and>
     (reading (s_rpc s i) \<longrightarrow> before_slot i (s_wpc s)) \<and> reader_ok s i (s_rpc s i)"

lemma sync_inv_split:
  "sync_inv n s \<longleftrightarrow>
     s_wbusy s = (s_wpc s \<noteq> W_Idle) \<and> (\<not> writing (s_wpc s) \<longrightarrow> s_mem s = s_last s) \<and>
     writer_ok (s_mem s) (s_wpc s) \<and> (\<forall>i < n. reader_inv i s)"
  by (simp add: sync_inv_def reader_inv_def)

lemma take_Suc_nth: "length buf < length mem \<Longrightarrow> buf = take (length buf) mem \<Longrightarrow>
   buf @ [mem ! length buf] = take (Suc (length buf)) mem"
  by (simp add: take_Suc_conv_app_nth)

lemma reader_step_frame:
  "reader_step i s s' \<Longrightarrow> s_wbusy s' = s_wbusy s \<and> s_wpc s' = s_wpc s \<and> s_mem s' = s_mem s \<and>
   s_last s' = s_last s \<and> s_wver s' = s_wver s \<and>
   (\<forall>j. j \<noteq> i \<longrightarrow> s_rbusy s' j = s_rbusy s j \<and> s_rpc s' j = s_rpc s j \<and> s_rver s' j = s_rver s j)"
  by (induction rule: reader_step.induct) (simp_all add: sync_set_defs)

lemma reader_inv_own:
  assumes "reader_inv i s" and "s_wbusy s = (s_wpc s \<noteq> W_Idle)" and "reader_step i s s'"
  shows "reader_inv i s'"
  using assms(3)
proof (cases rule: reader_step.cases)
  case (r_enter len)
  then show ?thesis using assms(1,2) by (simp add: reader_inv_def sync_set_defs)
next
  case (r_copy buf len)
  then show ?thesis
    using assms(1) take_Suc_nth [of buf "s_mem s"] by (simp add: reader_inv_def sync_set_defs)
qed (use assms(1) in \<open>auto simp: reader_inv_def sync_set_defs\<close>)

lemma sync_inv_reader:
  assumes "sync_inv n s" and "reader_step i s s'"
  shows "sync_inv n s'"
proof -
  note frame = reader_step_frame [OF assms(2)]
  have "reader_inv j s'" if "j < n" for j
  proof (cases "j = i")
    case True
    then show ?thesis using that assms reader_inv_own [of i s s'] by (auto simp: sync_inv_split)
  next
    case False
    then have "reader_ok s' j pc = reader_ok s j pc" for pc
      using frame by (intro reader_ok_cong) simp_all
    then show ?thesis using that False assms(1) frame by (simp add: sync_inv_split reader_inv_def)
  qed
  then show ?thesis using assms(1) frame by (simp add: sync_inv_split)
qed

lemma sync_reach_inv: "sync_reach n mem s \<Longrightarrow> sync_inv n s"
  by (induction rule: sync_reach.induct) (auto intro: sync_inv_init sync_inv_writer sync_inv_reader)

section \<open>The same program with store buffers\<close>

text \<open>
  The flags are stored with release and loaded with acquire order. A release store may
  stay in the store buffer of its processor while later acquire loads of other variables
  read memory, as on x86. The buffers below hold the pending stores to the writer's flag
  and to each reader's flag; the other steps of a thread wait until its buffer is empty,
  so every run of this machine is one of such a processor.
\<close>

record pdu_tso =
  t_sync :: pdu_sync
  t_wbuf :: "bool list"
  t_rbuf :: "nat \<Rightarrow> bool list"

definition tso_init :: "byte list \<Rightarrow> pdu_tso" where
  "tso_init mem = \<lparr>t_sync = sync_init mem, t_wbuf = [], t_rbuf = (\<lambda>_. [])\<rparr>"

inductive tso_step :: "nat \<Rightarrow> pdu_tso \<Rightarrow> pdu_tso \<Rightarrow> bool" for n where
  tso_w_store: "s_wpc (t_sync t) = W_Idle \<Longrightarrow> length data \<le> length (s_mem (t_sync t)) \<Longrightarrow>
     tso_step n t (t\<lparr>t_sync := set_wpc (W_Scan 0 data) (t_sync t), t_wbuf := t_wbuf t @ [True]\<rparr>)"
| tso_w_load: "s_wpc (t_sync t) = W_Scan k data \<Longrightarrow> writer_step n (t_sync t) s' \<Longrightarrow>
     tso_step n t (t\<lparr>t_sync := s'\<rparr>)"
| tso_w_drain: "t_wbuf t = b # bs \<Longrightarrow>
     tso_step n t (t\<lparr>t_sync := (t_sync t)\<lparr>s_wbusy := b\<rparr>, t_wbuf := bs\<rparr>)"
| tso_w_other: "t_wbuf t = [] \<Longrightarrow> writer_step n (t_sync t) s' \<Longrightarrow> tso_step n t (t\<lparr>t_sync := s'\<rparr>)"
| tso_r_store: "i < n \<Longrightarrow> s_rpc (t_sync t) i = R_Idle \<Longrightarrow> len \<le> length (s_mem (t_sync t)) \<Longrightarrow>
     tso_step n t (t\<lparr>t_sync := set_rpc i (R_Check len) (t_sync t), t_rbuf := (t_rbuf t)(i := t_rbuf t i @ [True])\<rparr>)"
| tso_r_load: "i < n \<Longrightarrow> s_rpc (t_sync t) i = R_Check len \<Longrightarrow> reader_step i (t_sync t) s' \<Longrightarrow>
     tso_step n t (t\<lparr>t_sync := s'\<rparr>)"
| tso_r_drain: "i < n \<Longrightarrow> t_rbuf t i = b # bs \<Longrightarrow>
     tso_step n t (t\<lparr>t_sync := set_rflag i b (t_sync t), t_rbuf := (t_rbuf t)(i := bs)\<rparr>)"
| tso_r_other: "i < n \<Longrightarrow> t_rbuf t i = [] \<Longrightarrow> reader_step i (t_sync t) s' \<Longrightarrow>
     tso_step n t (t\<lparr>t_sync := s'\<rparr>)"

lemma tso_then: "tso_step n t u \<Longrightarrow> (tso_step n)\<^sup>*\<^sup>* u v \<Longrightarrow> (tso_step n)\<^sup>*\<^sup>* t v"
  by (rule converse_rtranclp_into_rtranclp)

section \<open>Properties\<close>

text \<open>
  C11: In every state that a writer and any number of readers of a channel can reach on
  sequentially consistent memory, no reader is inside while the writer writes.
\<close>

theorem pdu_mutual_exclusion:
  assumes "sync_reach n mem s" and "i < n"
  shows "\<not> (writing (s_wpc s) \<and> reading (s_rpc s i))"
  using writing_excludes [OF sync_reach_inv [OF assms(1)] _ assms(2)] by blast

definition demo_sync :: pdu_sync where
  "demo_sync = set_rpc 1 (R_Copy [] 2) (set_rflag 1 True (sync_init [0, 0]))"

lemma demo_sync_reach: "sync_reach 2 [0, 0] demo_sync"
proof -
  let ?s0 = "set_rpc 1 (R_Check 2) (set_rflag 1 True (sync_init [0, 0]))"
  have reach: "sync_reach 2 [0, 0] ?s0"
    by (rule sync_reader [OF sync_start, of 1]) (simp_all add: r_start sync_init_def)
  have "reader_step 1 ?s0 (set_rpc 1 (R_Copy [] 2) ?s0)"
    by (rule r_enter) (simp_all add: sync_init_def sync_set_defs)
  then have "sync_reach 2 [0, 0] (set_rpc 1 (R_Copy [] 2) ?s0)"
    using sync_reader [OF reach, of 1] by simp
  then show ?thesis by (simp add: demo_sync_def sync_set_defs)
qed

theorem pdu_mutual_exclusion_witness:
  "reading (s_rpc demo_sync 1) \<and> \<not> (writing (s_wpc demo_sync) \<and> reading (s_rpc demo_sync 1))"
  using pdu_mutual_exclusion [OF demo_sync_reach, of 1] by (simp add: demo_sync_def sync_set_defs)

text \<open>
  C12: A reader that has finished its copy holds the bytes of the last completed write,
  never a mixture, and the version it records is the version of exactly those bytes.
\<close>

theorem pdu_read_not_torn:
  assumes "sync_reach n mem s" and "i < n" and "s_rpc s i = R_Release buf"
  shows "buf = take (length buf) (s_last s) \<and> (0 < i \<longrightarrow> s_rver s i = s_wver s)"
proof -
  have inv: "sync_inv n s" by (rule sync_reach_inv [OF assms(1)])
  have "before_slot i (s_wpc s)" "reader_ok s i (R_Release buf)"
    using sync_inv_readers [OF inv assms(2)] assms(3) by simp_all
  moreover from this(1) have "\<not> writing (s_wpc s)" by (cases "s_wpc s") auto
  then have "s_mem s = s_last s" using inv by (simp add: sync_inv_def)
  ultimately show ?thesis by simp
qed

definition demo_done :: pdu_sync where
  "demo_done = set_rpc 1 (R_Release []) (set_rflag 1 True (sync_init [0, 0]))"

lemma demo_done_reach: "sync_reach 2 [0, 0] demo_done"
proof -
  let ?s0 = "set_rpc 1 (R_Check 0) (set_rflag 1 True (sync_init [0, 0]))"
  let ?s1 = "set_rpc 1 (R_Copy [] 0) ?s0"
  let ?s2 = "set_rpc 1 (R_Store [] 0) ?s1"
  have "sync_reach 2 [0, 0] ?s0"
    by (rule sync_reader [OF sync_start, of 1]) (simp_all add: r_start sync_init_def)
  moreover have "reader_step 1 ?s0 ?s1"
    by (rule r_enter) (simp_all add: sync_init_def sync_set_defs)
  moreover have "reader_step 1 ?s1 ?s2"
    using r_load [of ?s1 1 "[]"] by (simp add: sync_init_def sync_set_defs)
  moreover have "reader_step 1 ?s2 demo_done"
    using r_store [of ?s2 1 "[]" 0] by (simp add: demo_done_def sync_init_def sync_set_defs fun_upd_idem)
  ultimately show ?thesis using sync_reader [of 2 "[0, 0]" _ 1] by (metis one_less_numeral_iff semiring_norm(76))
qed

theorem pdu_read_not_torn_witness:
  "[] = take 0 (s_last demo_done) \<and> s_rver demo_done 1 = s_wver demo_done"
  using pdu_read_not_torn [OF demo_done_reach, of 1 "[]"] by (simp add: demo_done_def sync_set_defs)

text \<open>The states of the run that tears a read: writer and external reader on two bytes.\<close>

abbreviation tear_sync :: "bool \<Rightarrow> bool \<Rightarrow> byte list \<Rightarrow> writer_pc \<Rightarrow> reader_pc \<Rightarrow> pdu_sync" where
  "tear_sync wb rb mem wpc rpc \<equiv> \<lparr>s_wbusy = wb, s_rbusy = (\<lambda>_. False)(0 := rb), s_mem = mem, s_wver = 0,
      s_rver = (\<lambda>_. 0), s_wpc = wpc, s_rpc = (\<lambda>_. R_Idle)(0 := rpc), s_last = [0, 0]\<rparr>"

abbreviation tear_at :: "bool list \<Rightarrow> bool list \<Rightarrow> pdu_sync \<Rightarrow> pdu_tso" where
  "tear_at wbuf rbuf s \<equiv> \<lparr>t_sync = s, t_wbuf = wbuf, t_rbuf = (\<lambda>_. [])(0 := rbuf)\<rparr>"

lemma both_enter:
  "(tso_step 1)\<^sup>*\<^sup>* (tso_init [0, 0]) (tear_at [True] [True] (tear_sync False False [0, 0] (W_Copy 0 [1, 1]) (R_Copy [] 2)))"
proof -
  have init: "tso_init [0, 0] = tear_at [] [] (tear_sync False False [0, 0] W_Idle R_Idle)"
    by (simp add: tso_init_def sync_init_def fun_upd_def)
  have 1: "tso_step 1 (tear_at [] [] (tear_sync False False [0, 0] W_Idle R_Idle))
      (tear_at [True] [] (tear_sync False False [0, 0] (W_Scan 0 [1, 1]) R_Idle))"
    using tso_w_store [of "tear_at [] [] (tear_sync False False [0, 0] W_Idle R_Idle)" "[1, 1]" 1]
    by (simp add: sync_set_defs)
  have 2: "tso_step 1 (tear_at [True] [] (tear_sync False False [0, 0] (W_Scan 0 [1, 1]) R_Idle))
      (tear_at [True] [True] (tear_sync False False [0, 0] (W_Scan 0 [1, 1]) (R_Check 2)))"
    using tso_r_store [of 0 1 "tear_at [True] [] (tear_sync False False [0, 0] (W_Scan 0 [1, 1]) R_Idle)" 2]
    by (simp add: sync_set_defs)
  have 3: "tso_step 1 (tear_at [True] [True] (tear_sync False False [0, 0] (W_Scan 0 [1, 1]) (R_Check 2)))
      (tear_at [True] [True] (tear_sync False False [0, 0] (W_Scan 1 [1, 1]) (R_Check 2)))"
    using tso_w_load [OF _ w_free, of "tear_at [True] [True] (tear_sync False False [0, 0] (W_Scan 0 [1, 1]) (R_Check 2))" 0 "[1, 1]" 0 "[1, 1]" 1]
    by (simp add: sync_set_defs)
  have 4: "tso_step 1 (tear_at [True] [True] (tear_sync False False [0, 0] (W_Scan 1 [1, 1]) (R_Check 2)))
      (tear_at [True] [True] (tear_sync False False [0, 0] (W_Scan 1 [1, 1]) (R_Copy [] 2)))"
    using tso_r_load [OF _ _ r_enter, of 0 1 "tear_at [True] [True] (tear_sync False False [0, 0] (W_Scan 1 [1, 1]) (R_Check 2))" 2 2]
    by (simp add: sync_set_defs)
  have 5: "tso_step 1 (tear_at [True] [True] (tear_sync False False [0, 0] (W_Scan 1 [1, 1]) (R_Copy [] 2)))
      (tear_at [True] [True] (tear_sync False False [0, 0] (W_Copy 0 [1, 1]) (R_Copy [] 2)))"
    using tso_w_load [OF _ w_enter, of "tear_at [True] [True] (tear_sync False False [0, 0] (W_Scan 1 [1, 1]) (R_Copy [] 2))" 1 "[1, 1]" 1 "[1, 1]"]
    by (simp add: sync_set_defs)
  show ?thesis
    unfolding init
    by (rule tso_then [OF 1], rule tso_then [OF 2], rule tso_then [OF 3], rule tso_then [OF 4],
        rule r_into_rtranclp, rule 5)
qed

lemma reader_overtakes:
  "(tso_step 1)\<^sup>*\<^sup>* (tear_at [True] [True] (tear_sync False False [0, 0] (W_Copy 0 [1, 1]) (R_Copy [] 2)))
     (tear_at [] [] (tear_sync True True [1, 0] (W_Copy 1 [1, 1]) (R_Release [1, 0])))"
proof -
  have 6: "tso_step 1 (tear_at [True] [True] (tear_sync False False [0, 0] (W_Copy 0 [1, 1]) (R_Copy [] 2)))
      (tear_at [] [True] (tear_sync True False [0, 0] (W_Copy 0 [1, 1]) (R_Copy [] 2)))"
    using tso_w_drain [of "tear_at [True] [True] (tear_sync False False [0, 0] (W_Copy 0 [1, 1]) (R_Copy [] 2))" True "[]" 1]
    by simp
  have 7: "tso_step 1 (tear_at [] [True] (tear_sync True False [0, 0] (W_Copy 0 [1, 1]) (R_Copy [] 2)))
      (tear_at [] [True] (tear_sync True False [1, 0] (W_Copy 1 [1, 1]) (R_Copy [] 2)))"
    using tso_w_other [OF _ w_copy, of "tear_at [] [True] (tear_sync True False [0, 0] (W_Copy 0 [1, 1]) (R_Copy [] 2))" 0 "[1, 1]" 1]
    by (simp add: sync_set_defs)
  have 8: "tso_step 1 (tear_at [] [True] (tear_sync True False [1, 0] (W_Copy 1 [1, 1]) (R_Copy [] 2)))
      (tear_at [] [] (tear_sync True True [1, 0] (W_Copy 1 [1, 1]) (R_Copy [] 2)))"
    using tso_r_drain [of 0 1 "tear_at [] [True] (tear_sync True False [1, 0] (W_Copy 1 [1, 1]) (R_Copy [] 2))" True "[]"]
    by (simp add: sync_set_defs)
  have 9: "tso_step 1 (tear_at [] [] (tear_sync True True [1, 0] (W_Copy 1 [1, 1]) (R_Copy [] 2)))
      (tear_at [] [] (tear_sync True True [1, 0] (W_Copy 1 [1, 1]) (R_Copy [1] 2)))"
    using tso_r_other [OF _ _ r_copy, of 0 1 "tear_at [] [] (tear_sync True True [1, 0] (W_Copy 1 [1, 1]) (R_Copy [] 2))" "[]" 2]
    by (simp add: sync_set_defs)
  have 10: "tso_step 1 (tear_at [] [] (tear_sync True True [1, 0] (W_Copy 1 [1, 1]) (R_Copy [1] 2)))
      (tear_at [] [] (tear_sync True True [1, 0] (W_Copy 1 [1, 1]) (R_Copy [1, 0] 2)))"
    using tso_r_other [OF _ _ r_copy, of 0 1 "tear_at [] [] (tear_sync True True [1, 0] (W_Copy 1 [1, 1]) (R_Copy [1] 2))" "[1]" 2]
    by (simp add: sync_set_defs)
  have 11: "tso_step 1 (tear_at [] [] (tear_sync True True [1, 0] (W_Copy 1 [1, 1]) (R_Copy [1, 0] 2)))
      (tear_at [] [] (tear_sync True True [1, 0] (W_Copy 1 [1, 1]) (R_Release [1, 0])))"
    using tso_r_other [OF _ _ r_external, of 0 1 "tear_at [] [] (tear_sync True True [1, 0] (W_Copy 1 [1, 1]) (R_Copy [1, 0] 2))" "[1, 0]"]
    by (simp add: sync_set_defs numeral_2_eq_2)
  show ?thesis
    by (rule tso_then [OF 6], rule tso_then [OF 7], rule tso_then [OF 8], rule tso_then [OF 9],
        rule tso_then [OF 10], rule r_into_rtranclp, rule 11)
qed

text \<open>
  C14: With store buffers the flags do not exclude: from the idle channel of two zero
  bytes, the writer of \<open>[1, 1]\<close> and the external reader can be inside together, and the
  reader can finish with \<open>[1, 0]\<close>, which no write ever stored.
\<close>

theorem pdu_store_buffer_tears_read:
  "\<exists>t. (tso_step 1)\<^sup>*\<^sup>* (tso_init [0, 0]) t \<and> writing (s_wpc (t_sync t)) \<and>
     s_wpc (t_sync t) = W_Copy 1 [1, 1] \<and> s_rpc (t_sync t) 0 = R_Release [1, 0] \<and> s_last (t_sync t) = [0, 0]"
  using rtranclp_trans [OF both_enter reader_overtakes] by (intro exI conjI) (assumption, simp_all)

end
