(* ===== verification/Hako_Pdu_Progress.thy ===== *)
theory Hako_Pdu_Progress
  imports Hako_Pdu_Sync
begin

text \<open>
  The flags of a PDU channel do not block each other for good: from every state that the
  writer and the readers of \<open>data/hako_pdu_data.hpp\<close> can reach, they can all finish. The
  steps are those of the theory \<open>Hako_Pdu_Sync\<close>.
\<close>

definition sync_next :: "nat \<Rightarrow> pdu_sync \<Rightarrow> pdu_sync \<Rightarrow> bool" where
  "sync_next n s s' \<longleftrightarrow> writer_step n s s' \<or> (\<exists>i < n. reader_step i s s')"

text \<open>Positions that no rule leaves are not reached.\<close>

fun place_ok :: "nat \<Rightarrow> writer_pc \<Rightarrow> bool" where
  "place_ok n (W_Scan k data) = (k \<le> n)"
| "place_ok n (W_Copy j data) = (j \<le> length data)"
| "place_ok n _ = True"

lemma place_ok_reach: "sync_reach n mem s \<Longrightarrow> place_ok n (s_wpc s)"
proof (induction rule: sync_reach.induct)
  case (sync_writer s s')
  then show ?case by (auto elim!: writer_step.cases simp: sync_set_defs)
next
  case (sync_reader s i s')
  then show ?case using reader_step_frame by metis
qed (simp add: sync_init_def)

section \<open>A reader finishes\<close>

definition quiet :: "reader_pc \<Rightarrow> bool" where
  "quiet pc \<longleftrightarrow> pc = R_Idle \<or> (\<exists>len. pc = R_Again len)"

abbreviation reader_runs :: "nat \<Rightarrow> pdu_sync \<Rightarrow> pdu_sync \<Rightarrow> bool" where
  "reader_runs i \<equiv> (reader_step i)\<^sup>*\<^sup>*"

lemma reader_run_frame:
  "reader_runs i s s' \<Longrightarrow> s_wpc s' = s_wpc s \<and> (\<forall>j. j \<noteq> i \<longrightarrow> s_rpc s' j = s_rpc s j)"
proof (induction rule: rtranclp_induct)
  case (step t u)
  then show ?case using reader_step_frame by metis
qed simp

lemma reader_run_inv: "reader_runs i s s' \<Longrightarrow> sync_inv n s \<Longrightarrow> sync_inv n s'"
  by (induction rule: rtranclp_induct) (auto intro: sync_inv_reader)

lemma set_rpc_get [simp]: "s_rpc (set_rpc i pc s) j = (if j = i then pc else s_rpc s j)"
  by (simp add: set_rpc_def)

lemma reader_then: "reader_step i s t \<Longrightarrow> \<exists>u. reader_runs i t u \<and> P u \<Longrightarrow> \<exists>u. reader_runs i s u \<and> P u"
  by (blast intro: converse_rtranclp_into_rtranclp)

lemma release_ends: "s_rpc s i = R_Release buf \<Longrightarrow> \<exists>u. reader_runs i s u \<and> s_rpc u i = R_Idle"
  by (rule reader_then [OF r_release]) (auto intro!: exI)

lemma store_ends: "s_rpc s i = R_Store buf v \<Longrightarrow> \<exists>u. reader_runs i s u \<and> s_rpc u i = R_Idle"
  by (rule reader_then [OF r_store], assumption) (rule release_ends, simp)

lemma copy_ends:
  "s_rpc s i = R_Copy buf len \<Longrightarrow> length buf \<le> len \<Longrightarrow> \<exists>u. reader_runs i s u \<and> s_rpc u i = R_Idle"
proof (induction "len - length buf" arbitrary: buf s)
  case 0
  then have full: "len = length buf" by simp
  show ?case
  proof (cases "i = 0")
    case True
    then show ?thesis
      using 0 full by (intro reader_then [OF r_external [of s buf i]] release_ends) simp_all
  next
    case False
    then show ?thesis
      using 0 full by (intro reader_then [OF r_load [of s i buf]] store_ends) simp_all
  qed
next
  case (Suc d)
  then have lt: "length buf < len" and d: "d = len - length (buf @ [s_mem s ! length buf])" by simp_all
  show ?case
    by (rule reader_then [OF r_copy [OF Suc.prems(1) lt]], rule Suc.hyps(1) [OF d]) (use lt in simp_all)
qed

lemma check_quiets:
  "s_rpc s i = R_Check len \<Longrightarrow> \<exists>u. reader_runs i s u \<and> quiet (s_rpc u i)"
proof (cases "s_wbusy s")
  case True
  assume c: "s_rpc s i = R_Check len"
  show ?thesis
  proof (rule reader_then [OF r_busy [OF c True]], rule reader_then [OF r_retract])
    let ?t = "set_rpc i (R_Again len) (set_rflag i False (set_rpc i (R_Retract len) s))"
    have "quiet (s_rpc ?t i)" by (simp add: quiet_def)
    then show "\<exists>u. reader_runs i ?t u \<and> quiet (s_rpc u i)" by blast
  qed simp
next
  case False
  assume c: "s_rpc s i = R_Check len"
  have "\<exists>u. reader_runs i (set_rpc i (R_Copy [] len) s) u \<and> s_rpc u i = R_Idle"
    by (rule copy_ends [of _ i "[]" len]) simp_all
  then show ?thesis by (intro reader_then [OF r_enter [OF c False]]) (auto simp: quiet_def)
qed

lemma reader_quiets:
  assumes "sync_inv n s" and "i < n"
  shows "\<exists>u. reader_runs i s u \<and> quiet (s_rpc u i)"
proof (cases "s_rpc s i")
  case R_Idle
  then show ?thesis by (auto simp: quiet_def)
next
  case (R_Check len)
  then show ?thesis by (rule check_quiets)
next
  case (R_Retract len)
  then show ?thesis by (intro reader_then [OF r_retract [OF R_Retract]]) (auto simp: quiet_def intro!: exI)
next
  case (R_Again len)
  then show ?thesis by (auto simp: quiet_def)
next
  case (R_Copy buf len)
  then have "length buf \<le> len" using sync_inv_readers(2) [OF assms] by simp
  from copy_ends [OF R_Copy this] show ?thesis by (auto simp: quiet_def)
next
  case (R_Store buf v)
  from store_ends [OF R_Store] show ?thesis by (auto simp: quiet_def)
next
  case (R_Release buf)
  from release_ends [OF R_Release] show ?thesis by (auto simp: quiet_def)
qed

lemma quiet_reader_idles:
  assumes "quiet (s_rpc s i)" and "\<not> s_wbusy s"
  shows "\<exists>u. reader_runs i s u \<and> s_rpc u i = R_Idle"
proof (cases "s_rpc s i = R_Idle")
  case False
  then obtain len where a: "s_rpc s i = R_Again len" using assms(1) by (auto simp: quiet_def)
  let ?t = "set_rpc i (R_Check len) (set_rflag i True s)"
  have nb: "\<not> s_wbusy ?t" using assms(2) by (simp add: sync_set_defs)
  have "\<exists>u. reader_runs i (set_rpc i (R_Copy [] len) ?t) u \<and> s_rpc u i = R_Idle"
    by (rule copy_ends [of _ i "[]" len]) simp_all
  then have "\<exists>u. reader_runs i ?t u \<and> s_rpc u i = R_Idle"
    by (intro reader_then [OF r_enter [OF _ nb]]) simp_all
  then show ?thesis by (rule reader_then [OF r_again [OF a]])
qed auto

section \<open>All readers, one after the other\<close>

abbreviation sync_runs :: "nat \<Rightarrow> pdu_sync \<Rightarrow> pdu_sync \<Rightarrow> bool" where
  "sync_runs n \<equiv> (sync_next n)\<^sup>*\<^sup>*"

lemma reader_run_sync: "reader_runs i s s' \<Longrightarrow> i < n \<Longrightarrow> sync_runs n s s'"
proof (induction rule: rtranclp_induct)
  case (step t u)
  then have "sync_next n t u" by (auto simp: sync_next_def)
  then show ?case using step by (blast intro: rtranclp.rtrancl_into_rtrancl)
qed simp

lemma all_readers_quiet:
  assumes "sync_inv n s" and "m \<le> n"
  shows "\<exists>u. sync_runs n s u \<and> sync_inv n u \<and> s_wpc u = s_wpc s \<and> (\<forall>i < m. quiet (s_rpc u i))"
  using assms(2)
proof (induction m)
  case 0
  then show ?case using assms(1) by auto
next
  case (Suc m)
  then obtain u where u: "sync_runs n s u" "sync_inv n u" "s_wpc u = s_wpc s" "\<forall>i < m. quiet (s_rpc u i)" by auto
  obtain v where v: "reader_runs m u v" "quiet (s_rpc v m)" using reader_quiets [OF u(2), of m] Suc.prems by auto
  have "quiet (s_rpc v i)" if "i < Suc m" for i
    using that u(4) v(2) reader_run_frame [OF v(1)] by (cases "i = m") auto
  moreover have "sync_runs n s v" using u(1) reader_run_sync [OF v(1), of n] Suc.prems by simp
  ultimately show ?case
    using reader_run_inv [OF v(1) u(2)] reader_run_frame [OF v(1)] u(3) by auto
qed

section \<open>The writer finishes\<close>

lemma sync_then: "sync_next n s t \<Longrightarrow> \<exists>u. sync_runs n t u \<and> P u \<Longrightarrow> \<exists>u. sync_runs n s u \<and> P u"
  by (blast intro: converse_rtranclp_into_rtranclp)

lemma writer_next: "writer_step n s t \<Longrightarrow> sync_next n s t"
  by (simp add: sync_next_def)

definition writer_done :: "pdu_sync \<Rightarrow> pdu_sync \<Rightarrow> bool" where
  "writer_done s u \<longleftrightarrow> s_wpc u = W_Idle \<and> s_rpc u = s_rpc s"

lemma wpc_simps [simp]: "s_wpc (set_wpc pc s) = pc" "s_rpc (set_wpc pc s) = s_rpc s"
  by (simp_all add: set_wpc_def)

lemma w_release_ends:
  assumes "s_wpc s = W_Release"
  shows "\<exists>u. sync_runs n s u \<and> writer_done s u"
proof (rule sync_then [OF writer_next [OF w_release [OF assms]]])
  have "writer_done s (set_wpc W_Idle (s\<lparr>s_wbusy := False\<rparr>))" by (simp add: writer_done_def)
  then show "\<exists>u. sync_runs n (set_wpc W_Idle (s\<lparr>s_wbusy := False\<rparr>)) u \<and> writer_done s u" by blast
qed

lemma w_version_ends:
  assumes "s_wpc s = W_Version data"
  shows "\<exists>u. sync_runs n s u \<and> writer_done s u"
proof (rule sync_then [OF writer_next [OF w_version [OF assms]]])
  let ?t = "set_wpc W_Release (s\<lparr>s_wver := s_wver s + 1, s_last := s_mem s\<rparr>)"
  have "\<exists>u. sync_runs n ?t u \<and> writer_done ?t u" by (rule w_release_ends) simp
  then show "\<exists>u. sync_runs n ?t u \<and> writer_done s u" by (simp add: writer_done_def)
qed

lemma w_copy_ends:
  "s_wpc s = W_Copy j data \<Longrightarrow> j \<le> length data \<Longrightarrow> \<exists>u. sync_runs n s u \<and> writer_done s u"
proof (induction "length data - j" arbitrary: j s)
  case 0
  then have w: "s_wpc s = W_Copy (length data) data" by simp
  show ?case
    using w_version_ends [of "set_wpc (W_Version data) s" data n]
    by (intro sync_then [OF writer_next [OF w_copied [OF w]]]) (simp add: writer_done_def)
next
  case (Suc d)
  then have lt: "j < length data" and d: "d = length data - Suc j" by simp_all
  let ?t = "set_wpc (W_Copy (Suc j) data) (s\<lparr>s_mem := (s_mem s)[j := data ! j]\<rparr>)"
  have "\<exists>u. sync_runs n ?t u \<and> writer_done ?t u"
    by (rule Suc.hyps(1) [OF d]) (use lt in simp_all)
  then show ?case
    by (intro sync_then [OF writer_next [OF w_copy [OF Suc.prems(1) lt]]]) (simp add: writer_done_def)
qed

lemma w_scan_ends:
  "s_wpc s = W_Scan k data \<Longrightarrow> k \<le> n \<Longrightarrow> \<forall>i < n. \<not> s_rbusy s i \<Longrightarrow> \<exists>u. sync_runs n s u \<and> writer_done s u"
proof (induction "n - k" arbitrary: k s)
  case 0
  then have w: "s_wpc s = W_Scan n data" by simp
  show ?case
    using w_copy_ends [of "set_wpc (W_Copy 0 data) s" 0 data n]
    by (intro sync_then [OF writer_next [OF w_enter [OF w]]]) (simp add: writer_done_def)
next
  case (Suc d)
  then have lt: "k < n" and d: "d = n - Suc k" by simp_all
  let ?t = "set_wpc (W_Scan (Suc k) data) s"
  have "\<exists>u. sync_runs n ?t u \<and> writer_done ?t u"
    by (rule Suc.hyps(1) [OF d]) (use lt Suc.prems(3) in \<open>simp_all add: set_wpc_def\<close>)
  moreover have "\<not> s_rbusy s k" using lt Suc.prems(3) by blast
  ultimately show ?case
    by (intro sync_then [OF writer_next [OF w_free [OF Suc.prems(1) lt]]]) (simp_all add: writer_done_def)
qed

lemma writer_ends:
  assumes "sync_inv n s" and "place_ok n (s_wpc s)" and "\<forall>i < n. quiet (s_rpc s i)"
  shows "\<exists>u. sync_runs n s u \<and> writer_done s u"
proof (cases "s_wpc s")
  case W_Idle
  then show ?thesis by (auto simp: writer_done_def)
next
  case (W_Scan k data)
  have "\<forall>i < n. \<not> s_rbusy s i" using assms(1,3) by (auto simp: sync_inv_def quiet_def)
  then show ?thesis using w_scan_ends [OF W_Scan] assms(2) W_Scan by simp
next
  case (W_Copy j data)
  then show ?thesis using w_copy_ends [OF W_Copy] assms(2) by simp
next
  case (W_Version data)
  then show ?thesis by (rule w_version_ends)
next
  case W_Release
  then show ?thesis by (rule w_release_ends)
qed

lemma sync_run_inv: "sync_runs n s s' \<Longrightarrow> sync_inv n s \<Longrightarrow> sync_inv n s'"
  by (induction rule: rtranclp_induct) (auto simp: sync_next_def intro: sync_inv_writer sync_inv_reader)

section \<open>Property\<close>

text \<open>
  C13: Readers and writer never block each other for good. From every state that a writer
  and any number of readers of a channel can reach on sequentially consistent memory there
  is a schedule that completes the write in progress and every read in progress, the reads
  that have stepped back included.
\<close>

theorem pdu_accesses_can_finish:
  assumes "sync_reach n mem s"
  shows "\<exists>u. (sync_next n)\<^sup>*\<^sup>* s u \<and> s_wpc u = W_Idle \<and> (\<forall>i < n. s_rpc u i = R_Idle)"
proof -
  have inv: "sync_inv n s" by (rule sync_reach_inv [OF assms])
  obtain t where t: "sync_runs n s t" "sync_inv n t" "s_wpc t = s_wpc s" "\<forall>i < n. quiet (s_rpc t i)"
    using all_readers_quiet [OF inv order_refl] by blast
  obtain v where v: "sync_runs n t v" "writer_done t v"
    using writer_ends [OF t(2) _ t(4)] place_ok_reach [OF assms] t(3) by auto
  have v': "sync_inv n v" "s_wpc v = W_Idle" "\<forall>i < n. quiet (s_rpc v i)"
    using sync_run_inv [OF v(1) t(2)] v(2) t(4) by (simp_all add: writer_done_def)
  have idle: "\<not> s_wbusy x" if "sync_inv n x" "s_wpc x = W_Idle" for x
    using that by (simp add: sync_inv_def)
  let ?Q = "\<lambda>m x. s_wpc x = W_Idle \<and> (\<forall>i < n. quiet (s_rpc x i)) \<and> (\<forall>i < m. s_rpc x i = R_Idle)"
  have "\<exists>u. sync_runs n v u \<and> sync_inv n u \<and> ?Q m u" if "m \<le> n" for m
    using that
  proof (induction m)
    case 0
    then show ?case using v' by auto
  next
    case (Suc m)
    then obtain x where x: "sync_runs n v x" "sync_inv n x" "?Q m x" by auto
    obtain y where y: "reader_runs m x y" "s_rpc y m = R_Idle"
      using quiet_reader_idles [of x m] x(3) idle [OF x(2)] Suc.prems by auto
    note frame = reader_run_frame [OF y(1)]
    have "quiet (s_rpc y i)" if "i < n" for i
      using that x(3) y(2) frame by (cases "i = m") (auto simp: quiet_def)
    moreover have "s_rpc y i = R_Idle" if "i < Suc m" for i
      using that x(3) y(2) frame by (cases "i = m") auto
    ultimately show ?case
      using reader_run_inv [OF y(1) x(2)] x frame reader_run_sync [OF y(1), of n] Suc.prems
      by (intro exI [of _ y]) auto
  qed
  then obtain u where "sync_runs n v u" "?Q n u" by blast
  then show ?thesis using t(1) v(1) by (intro exI [of _ u]) auto
qed

text \<open>The state of a reader that is inside while the writer waits.\<close>

theorem pdu_accesses_can_finish_witness:
  "s_rpc demo_sync 1 = R_Copy [] 2 \<and> (\<exists>u. (sync_next 2)\<^sup>*\<^sup>* demo_sync u \<and> s_wpc u = W_Idle \<and> s_rpc u 1 = R_Idle)"
  using pdu_accesses_can_finish [OF demo_sync_reach] by (auto simp: demo_sync_def sync_set_defs)

end
