(* ===== verification/Hako_Flock.thy ===== *)
theory Hako_Flock
  imports Hako_Prelude
begin

text \<open>
  The lock file, \<open>utils/hako_share/impl/posix/hako_flock.cpp\<close>, and the bounded waits of
  \<open>hako_flock_wait.cpp\<close>: a file that holds the counters of the semaphores, an operating
  system lock on it that a handle takes re-entrantly, and a thread-local option that bounds
  how long a thread waits for that lock.
\<close>

section \<open>Bounded waits\<close>

datatype HakoFlockWaitErrorType = Wait_Timeout | Wait_Interrupted | Wait_SystemError

text \<open>
  The thread-local variables \<open>wait_enabled\<close> and \<open>wait_options\<close>. \<open>watched\<close> says whether
  the pointer to the interrupt flag is set; the flag itself is read at each checkpoint.
\<close>

record HakoFlockWaitOptions =
  timeout_ms :: "32 word"
  watched :: bool

record wait_state =
  wait_enabled :: bool
  wait_options :: HakoFlockWaitOptions

definition initial_wait :: wait_state where
  "initial_wait = \<lparr>wait_enabled = False, wait_options = \<lparr>timeout_ms = 0, watched = False\<rparr>\<rparr>"

text \<open>The constructor returns the members of the scope and the new thread-local state.\<close>

definition HakoFlockWaitScope :: "HakoFlockWaitOptions \<Rightarrow> wait_state \<Rightarrow> (bool \<times> HakoFlockWaitOptions) \<times> wait_state" where
  "HakoFlockWaitScope options s =
     ((wait_enabled s, wait_options s), \<lparr>wait_enabled = True, wait_options = options\<rparr>)"

definition end_wait_scope :: "bool \<times> HakoFlockWaitOptions \<Rightarrow> wait_state \<Rightarrow> wait_state" where
  "end_wait_scope scope s = \<lparr>wait_enabled = fst scope, wait_options = snd scope\<rparr>"

definition hako_flock_wait_checkpoint :: "wait_state \<Rightarrow> 64 word \<Rightarrow> 64 word \<Rightarrow> bool \<Rightarrow> HakoFlockWaitErrorType option" where
  "hako_flock_wait_checkpoint s started_at_ms now_ms interrupted =
    (if \<not> wait_enabled s then None
     else if watched (wait_options s) \<and> interrupted then Some Wait_Interrupted
     else if now_ms - started_at_ms \<ge> ucast (timeout_ms (wait_options s)) then Some Wait_Timeout
     else None)"

section \<open>The operating system lock\<close>

text \<open>
  The outcome of a call of \<open>flock\<close>, with the three \<open>errno\<close> values that the code tells
  apart, and what a thread sees at one attempt: the clock, the interrupt flag and the
  outcome.
\<close>

datatype flock_result = Flock_Ok | Flock_Busy | Flock_Intr | Flock_Failed

record flock_attempt =
  at_now :: "64 word"
  at_interrupted :: bool
  at_result :: flock_result

text \<open>
  The two loops of \<open>hako_flock_acquire\<close> from attempt \<open>k\<close> on; the outer option is whether
  the loop ends, the inner one the error it throws.
\<close>

partial_function (option) acquire_blocking ::
  "(nat \<Rightarrow> flock_attempt) \<Rightarrow> nat \<Rightarrow> HakoFlockWaitErrorType option option" where
  "acquire_blocking at k =
    (case at_result (at k) of
       Flock_Ok \<Rightarrow> Some None
     | Flock_Intr \<Rightarrow> acquire_blocking at (Suc k)
     | _ \<Rightarrow> Some (Some Wait_SystemError))"

partial_function (option) acquire_bounded ::
  "wait_state \<Rightarrow> 64 word \<Rightarrow> (nat \<Rightarrow> flock_attempt) \<Rightarrow> nat \<Rightarrow> HakoFlockWaitErrorType option option" where
  "acquire_bounded s started_at_ms at k =
    (case hako_flock_wait_checkpoint s started_at_ms (at_now (at k)) (at_interrupted (at k)) of
       Some e \<Rightarrow> Some (Some e)
     | None \<Rightarrow>
         (case at_result (at k) of
            Flock_Ok \<Rightarrow> Some None
          | Flock_Failed \<Rightarrow> Some (Some Wait_SystemError)
          | _ \<Rightarrow> acquire_bounded s started_at_ms at (Suc k)))"

text \<open>
  A handle: the count of \<open>HakoFlockObjectType\<close>, whether it created the file, and whether its
  descriptor holds the lock of the system. The file is what all handles share. \<open>fl_faults\<close>
  lists the outcomes of the coming transfers: \<open>None\<close> is a complete one, \<open>Some k\<close> one that
  ends after \<open>k\<close> bytes (0 for an error). A query of the size takes an outcome too, and any
  \<open>Some k\<close> is a failure of \<open>fstat\<close>.
\<close>

record HakoFlockObject =
  lock_count :: int
  fl_created :: bool
  os_locked :: bool
  fl_bytes :: "byte list"
  fl_faults :: "nat option list"

definition hako_flock_acquire ::
  "wait_state \<Rightarrow> 64 word \<Rightarrow> (nat \<Rightarrow> flock_attempt) \<Rightarrow> HakoFlockObject \<Rightarrow>
   (HakoFlockWaitErrorType option \<times> HakoFlockObject) option" where
  "hako_flock_acquire s started_at_ms at h =
    (if lock_count h \<le> 0
     then case (if wait_enabled s then acquire_bounded s started_at_ms at 0 else acquire_blocking at 0) of
            None \<Rightarrow> None
          | Some (Some e) \<Rightarrow> Some (Some e, h)
          | Some None \<Rightarrow> Some (None, h\<lparr>lock_count := 1, os_locked := True\<rparr>)
     else Some (None, h\<lparr>lock_count := lock_count h + 1\<rparr>))"

definition hako_flock_try_acquire :: "flock_result \<Rightarrow> HakoFlockObject \<Rightarrow> int \<times> HakoFlockObject" where
  "hako_flock_try_acquire r h =
    (if lock_count h > 0 then (0, h\<lparr>lock_count := lock_count h + 1\<rparr>)
     else case r of
            Flock_Ok \<Rightarrow> (0, h\<lparr>lock_count := 1, os_locked := True\<rparr>)
          | Flock_Busy \<Rightarrow> (1, h)
          | Flock_Intr \<Rightarrow> (1, h)
          | Flock_Failed \<Rightarrow> (-1, h))"

definition hako_flock_release :: "HakoFlockObject \<Rightarrow> HakoFlockObject" where
  "hako_flock_release h =
    (let h = (if lock_count h > 0 then h\<lparr>lock_count := lock_count h - 1\<rparr> else h)
     in if lock_count h \<le> 0 then h\<lparr>os_locked := False\<rparr> else h)"

section \<open>The file\<close>

text \<open>\<open>pwrite\<close> and \<open>pread\<close> on a regular file: a write past the end fills the gap with zeros.\<close>

definition put_at :: "nat \<Rightarrow> byte list \<Rightarrow> byte list \<Rightarrow> byte list" where
  "put_at off data file =
    (if data = [] then file
     else take off (file @ replicate (off - length file) 0) @ data @ drop (off + length data) file)"

definition next_fault :: "HakoFlockObject \<Rightarrow> nat option \<times> HakoFlockObject" where
  "next_fault h = (case fl_faults h of [] \<Rightarrow> (None, h) | f # fs \<Rightarrow> (f, h\<lparr>fl_faults := fs\<rparr>))"

definition hako_flock_write_bytes :: "nat \<Rightarrow> byte list \<Rightarrow> HakoFlockObject \<Rightarrow> bool \<times> HakoFlockObject" where
  "hako_flock_write_bytes off data h =
    (let (f, h) = next_fault h;
         n = (case f of None \<Rightarrow> length data | Some k \<Rightarrow> min k (length data))
     in (n = length data, h\<lparr>fl_bytes := put_at off (take n data) (fl_bytes h)\<rparr>))"

definition hako_flock_read_bytes :: "nat \<Rightarrow> nat \<Rightarrow> HakoFlockObject \<Rightarrow> byte list option \<times> HakoFlockObject" where
  "hako_flock_read_bytes off len h =
    (let (f, h) = next_fault h;
         data = take len (drop off (fl_bytes h));
         data = (case f of None \<Rightarrow> data | Some k \<Rightarrow> take k data)
     in (if length data = len then Some data else None, h))"

definition hako_flock_size :: "HakoFlockObject \<Rightarrow> nat \<times> HakoFlockObject" where
  "hako_flock_size h =
    (let (f, h) = next_fault h
     in (case f of None \<Rightarrow> length (fl_bytes h) | Some k \<Rightarrow> 0, h))"

text \<open>A 32-bit \<open>int\<close> in memory, least significant byte first.\<close>

fun bytes_le :: "nat \<Rightarrow> nat \<Rightarrow> byte list" where
  "bytes_le 0 v = []"
| "bytes_le (Suc n) v = of_nat (v mod 256) # bytes_le n (v div 256)"

fun le_value :: "byte list \<Rightarrow> nat" where
  "le_value [] = 0"
| "le_value (b # bs) = unat b + 256 * le_value bs"

definition int_bytes :: "32 word \<Rightarrow> byte list" where
  "int_bytes v = bytes_le 4 (unat v)"

definition int_of_bytes :: "byte list \<Rightarrow> 32 word" where
  "int_of_bytes bs = of_nat (le_value bs)"

text \<open>
  \<open>hako_flock_write\<close> and \<open>hako_flock_read\<close> report a failed transfer on \<open>stderr\<close> only: the
  caller goes on, and a value that was not read is the one the caller passed.
\<close>

definition hako_flock_write :: "nat \<Rightarrow> 32 word \<Rightarrow> HakoFlockObject \<Rightarrow> HakoFlockObject" where
  "hako_flock_write index v h = snd (hako_flock_write_bytes (index * 4) (int_bytes v) h)"

definition hako_flock_read :: "nat \<Rightarrow> 32 word \<Rightarrow> HakoFlockObject \<Rightarrow> 32 word \<times> HakoFlockObject" where
  "hako_flock_read index old h =
    (let (f, h) = next_fault h;
         data = take 4 (drop (index * 4) (fl_bytes h));
         data = (case f of None \<Rightarrow> data | Some k \<Rightarrow> take k data)
     in (int_of_bytes (data @ drop (length data) (int_bytes old)), h))"

section \<open>Opening\<close>

text \<open>
  The outcomes of the system calls: the exclusive creation, \<open>ftruncate\<close> and the second
  \<open>open\<close>; \<open>file\<close> is the content of the file, if it exists. A new descriptor starts without
  the lock.
\<close>

record flock_open_env =
  oe_malloc :: bool
  oe_create :: bool
  oe_truncate :: bool
  oe_open :: bool

definition new_handle :: "bool \<Rightarrow> byte list \<Rightarrow> HakoFlockObject" where
  "new_handle created bytes = \<lparr>lock_count = 0, fl_created = created, os_locked = False, fl_bytes = bytes, fl_faults = []\<rparr>"

definition hako_flock_create ::
  "flock_open_env \<Rightarrow> nat \<Rightarrow> byte list option \<Rightarrow> HakoFlockObject option \<times> byte list option" where
  "hako_flock_create env create_size file =
    (if \<not> oe_malloc env then (None, file)
     else case file of
            None \<Rightarrow>
              if \<not> oe_create env then (None, None)
              else if \<not> oe_truncate env then (None, Some [])
              else if \<not> oe_open env then (None, Some (replicate create_size 0))
              else (Some (new_handle True (replicate create_size 0)), Some (replicate create_size 0))
          | Some bytes \<Rightarrow> if \<not> oe_open env then (None, file) else (Some (new_handle False bytes), file))"

definition hako_flock_open :: "flock_open_env \<Rightarrow> byte list option \<Rightarrow> HakoFlockObject option" where
  "hako_flock_open env file =
    (if \<not> oe_malloc env then None
     else case file of
            None \<Rightarrow> None
          | Some bytes \<Rightarrow> if oe_open env then Some (new_handle False bytes) else None)"

text \<open>
  \<open>hako_flock_close\<close>, which \<open>hako_flock_destroy\<close> calls: closing the descriptor gives the
  lock back. The result is what the closed descriptor leaves behind; the handle is freed.
\<close>

definition hako_flock_close :: "HakoFlockObject option \<Rightarrow> HakoFlockObject option" where
  "hako_flock_close handle = (case handle of None \<Rightarrow> None | Some h \<Rightarrow> Some (h\<lparr>os_locked := False\<rparr>))"

section \<open>Lemmas\<close>

lemma length_bytes_le [simp]: "length (bytes_le n v) = n"
  by (induction n arbitrary: v) simp_all

lemma le_value_bytes_le: "le_value (bytes_le n v) = v mod 256 ^ n"
proof (induction n arbitrary: v)
  case (Suc n)
  have "unat (of_nat (v mod 256) :: byte) = v mod 256" by (simp add: unat_of_nat)
  then show ?case using Suc by (simp add: mod_mult2_eq)
qed simp

lemma bytes_le_le_value: "bytes_le (length bs) (le_value bs) = bs"
proof (induction bs)
  case (Cons b bs)
  have b: "unat b < 256" by (rule order_less_le_trans [OF unsigned_less]) simp
  then have "(unat b + 256 * le_value bs) mod 256 = unat b" "(unat b + 256 * le_value bs) div 256 = le_value bs"
    by simp_all
  then show ?case using Cons by simp
qed simp

lemma int_of_int_bytes [simp]: "int_of_bytes (int_bytes v) = v"
proof -
  have "unat v < 256 ^ 4" by (rule order_less_le_trans [OF unsigned_less]) simp
  then show ?thesis by (simp add: int_of_bytes_def int_bytes_def le_value_bytes_le)
qed

lemma length_int_bytes [simp]: "length (int_bytes v) = 4"
  by (simp add: int_bytes_def)

lemma put_at_splice: "off + length data \<le> length file \<Longrightarrow> put_at off data file = splice file off data"
  by (auto simp: put_at_def splice_def)

lemma write_bytes_ok [simp]:
  "fl_faults h = [] \<Longrightarrow> off + length data \<le> length (fl_bytes h) \<Longrightarrow>
   hako_flock_write_bytes off data h = (True, h\<lparr>fl_bytes := splice (fl_bytes h) off data\<rparr>)"
  by (simp add: hako_flock_write_bytes_def next_fault_def put_at_splice)

lemma read_bytes_ok [simp]:
  "fl_faults h = [] \<Longrightarrow> off + n \<le> length (fl_bytes h) \<Longrightarrow>
   hako_flock_read_bytes off n h = (Some (slice (fl_bytes h) off n), h)"
  by (simp add: hako_flock_read_bytes_def next_fault_def slice_def Let_def)

lemma scope_restores:
  "HakoFlockWaitScope options s = (scope, s') \<Longrightarrow> end_wait_scope scope s'' = s"
  by (auto simp: HakoFlockWaitScope_def end_wait_scope_def)

section \<open>Waiting ends\<close>

text \<open>What attempt \<open>k\<close> of the bounded loop decides, if anything.\<close>

definition decided :: "wait_state \<Rightarrow> 64 word \<Rightarrow> flock_attempt \<Rightarrow> HakoFlockWaitErrorType option option" where
  "decided s started_at_ms a =
    (case hako_flock_wait_checkpoint s started_at_ms (at_now a) (at_interrupted a) of
       Some e \<Rightarrow> Some (Some e)
     | None \<Rightarrow>
         (case at_result a of
            Flock_Ok \<Rightarrow> Some None | Flock_Failed \<Rightarrow> Some (Some Wait_SystemError) | _ \<Rightarrow> None))"

lemma acquire_bounded_decided:
  "acquire_bounded s t at k = (case decided s t (at k) of Some r \<Rightarrow> Some r | None \<Rightarrow> acquire_bounded s t at (Suc k))"
  by (subst acquire_bounded.simps)
     (simp add: decided_def split: option.split flock_result.split)

lemma acquire_bounded_first:
  assumes "decided s t (at (k + n)) \<noteq> None"
  shows "\<exists>j \<le> n. acquire_bounded s t at k = decided s t (at (k + j)) \<and> decided s t (at (k + j)) \<noteq> None \<and>
    (\<forall>i < j. decided s t (at (k + i)) = None)"
  using assms
proof (induction n arbitrary: k)
  case 0
  then show ?case using acquire_bounded_decided [of s t at k] by auto
next
  case (Suc n)
  show ?case
  proof (cases "decided s t (at k)")
    case None
    obtain j where "j \<le> n" "acquire_bounded s t at (Suc k) = decided s t (at (Suc k + j))"
      "decided s t (at (Suc k + j)) \<noteq> None" "\<forall>i < j. decided s t (at (Suc k + i)) = None"
      using Suc.IH [of "Suc k"] Suc.prems by auto
    then show ?thesis
      using None acquire_bounded_decided [of s t at k]
      by (intro exI [of _ "Suc j"]) (auto simp: less_Suc_eq_0_disj)
  next
    case (Some r)
    then show ?thesis using acquire_bounded_decided [of s t at k] by (intro exI [of _ 0]) simp
  qed
qed

lemma timeout_decides:
  assumes "wait_enabled s" and "at_now a = started + of_nat d" and "d < 2 ^ 64" and "unat (timeout_ms (wait_options s)) \<le> d"
  shows "decided s started a \<noteq> None"
proof -
  have "unat (of_nat d :: 64 word) = d" using assms(3) by (simp add: unat_of_nat)
  moreover have "unat (ucast (timeout_ms (wait_options s)) :: 64 word) = unat (timeout_ms (wait_options s))"
    by (simp add: unat_ucast_widen)
  ultimately have "ucast (timeout_ms (wait_options s)) \<le> at_now a - started"
    using assms(2,4) by (simp add: word_le_nat_alt)
  then show ?thesis using assms(1) by (simp add: decided_def hako_flock_wait_checkpoint_def)
qed

section \<open>Properties\<close>

text \<open>
  A bounded wait ends. With the wait scope active and a clock that advances by at least
  the 20 ms of the sleep between two attempts, \<open>hako_flock_acquire\<close> returns or throws after
  at most \<open>timeout div 20 + 2\<close> attempts: it takes the lock at the first attempt that gets
  it, unless an interrupt, the timeout or a failure of the system comes first; when it
  throws, the handle is as it was.
\<close>

lemma bounded_wait_ends:
  assumes "wait_enabled s" and "lock_count h \<le> 0"
    and "\<forall>k \<le> unat (timeout_ms (wait_options s)) div 20 + 1.
      at_now (at k) = started + of_nat (d k) \<and> 20 * k \<le> d k \<and> d k < 2 ^ 64"
  shows "\<exists>k r. k \<le> unat (timeout_ms (wait_options s)) div 20 + 1 \<and>
    decided s started (at k) = Some r \<and> (\<forall>i < k. decided s started (at i) = None) \<and>
    hako_flock_acquire s started at h =
      Some (r, if r = None then h\<lparr>lock_count := 1, os_locked := True\<rparr> else h)"
proof -
  let ?n = "unat (timeout_ms (wait_options s)) div 20 + 1"
  have le: "unat (timeout_ms (wait_options s)) \<le> 20 * ?n" by simp
  have dn: "at_now (at ?n) = started + of_nat (d ?n)" "20 * ?n \<le> d ?n" "d ?n < 2 ^ 64" using assms(3) by blast+
  have "decided s started (at (0 + ?n)) \<noteq> None"
    using timeout_decides [OF assms(1) dn(1,3) order_trans [OF le dn(2)]] by simp
  from acquire_bounded_first [of s started at 0 ?n, OF this] obtain k where
    k: "k \<le> ?n" "acquire_bounded s started at 0 = decided s started (at k)" "decided s started (at k) \<noteq> None"
    "\<forall>i < k. decided s started (at i) = None" by auto
  then obtain r where r: "decided s started (at k) = Some r" by blast
  then show ?thesis
    using k assms(1,2) by (intro exI [of _ k] exI [of _ r]) (auto simp: hako_flock_acquire_def split: option.split)
qed

text \<open>Calls on one handle, and the number of acquisitions that they leave open.\<close>

datatype flock_op = Op_Acquire | Op_Try | Op_Release

fun flock_depth :: "flock_op list \<Rightarrow> nat \<Rightarrow> nat" where
  "flock_depth [] d = d"
| "flock_depth (Op_Release # ops) d = flock_depth ops (d - 1)"
| "flock_depth (_ # ops) d = flock_depth ops (Suc d)"

fun flock_run :: "wait_state \<Rightarrow> 64 word \<Rightarrow> (nat \<Rightarrow> flock_attempt) \<Rightarrow> flock_op list \<Rightarrow> HakoFlockObject \<Rightarrow> HakoFlockObject option" where
  "flock_run s t at [] h = Some h"
| "flock_run s t at (Op_Acquire # ops) h =
     (case hako_flock_acquire s t at h of Some (None, h) \<Rightarrow> flock_run s t at ops h | _ \<Rightarrow> None)"
| "flock_run s t at (Op_Try # ops) h =
     (case hako_flock_try_acquire (at_result (at 0)) h of (r, h) \<Rightarrow> if r = 0 then flock_run s t at ops h else None)"
| "flock_run s t at (Op_Release # ops) h = flock_run s t at ops (hako_flock_release h)"

lemma flock_run_depth:
  assumes "\<not> wait_enabled s" and "at_result (at 0) = Flock_Ok"
    and "lock_count h = int d" and "os_locked h = (0 < d)"
  shows "flock_run s t at ops h = Some (h\<lparr>lock_count := int (flock_depth ops d), os_locked := 0 < flock_depth ops d\<rparr>)"
  using assms
proof (induction ops arbitrary: h d)
  case (Cons op ops)
  have acq: "acquire_blocking at 0 = Some None" using Cons.prems(2) by (subst acquire_blocking.simps) simp
  show ?case
  proof (cases op)
    case Op_Acquire
    have "hako_flock_acquire s t at h = Some (None, h\<lparr>lock_count := int (Suc d), os_locked := True\<rparr>)"
      using Cons.prems acq by (cases "d = 0") (simp_all add: hako_flock_acquire_def)
    then show ?thesis
      using Op_Acquire Cons.IH [of "h\<lparr>lock_count := int (Suc d), os_locked := True\<rparr>" "Suc d"] Cons.prems by simp
  next
    case Op_Try
    have "hako_flock_try_acquire (at_result (at 0)) h = (0, h\<lparr>lock_count := int (Suc d), os_locked := True\<rparr>)"
      using Cons.prems by (cases "d = 0") (simp_all add: hako_flock_try_acquire_def)
    then show ?thesis
      using Op_Try Cons.IH [of "h\<lparr>lock_count := int (Suc d), os_locked := True\<rparr>" "Suc d"] Cons.prems by simp
  next
    case Op_Release
    have "hako_flock_release h = h\<lparr>lock_count := int (d - 1), os_locked := (0 < d - 1)\<rparr>"
      using Cons.prems by (cases "d = 0"; cases "d = 1") (auto simp: hako_flock_release_def Let_def of_nat_diff)
    then show ?thesis
      using Op_Release Cons.IH [of "h\<lparr>lock_count := int (d - 1), os_locked := (0 < d - 1)\<rparr>" "d - 1"] Cons.prems by simp
  qed
qed simp

text \<open>
  A handle is a recursive lock: over any sequence of acquisitions, attempts and releases
  on a lock that no other process wants, the count is the number of acquisitions not yet
  released, surplus releases do nothing, and the lock of the system is held exactly while
  that number is positive.
\<close>

lemma flock_is_recursive_lock:
  assumes "\<not> wait_enabled s" and "at_result (at 0) = Flock_Ok" and "lock_count h = 0" and "\<not> os_locked h"
  shows "flock_run s t at ops h =
    Some (h\<lparr>lock_count := int (flock_depth ops 0), os_locked := 0 < flock_depth ops 0\<rparr>)"
  using flock_run_depth [of s at h 0] assms by simp

end
