(* ===== verification/Hako_Process_Identity.thy ===== *)
theory Hako_Process_Identity
  imports Hako_Prelude
begin

text \<open>
  The identity of a process, \<open>utils/hako_share/impl/hako_process_identity.cpp\<close> in its Linux
  branch: a pid together with the start time of the process, so that a recycled pid is told
  apart from the process it used to name. The master lock decides with it whether the owner
  of the lock still lives.
\<close>

section \<open>The operating system\<close>

text \<open>
  What the code takes from the system: the own pid, the outcome of \<open>kill(pid, 0)\<close> and the
  first line of \<open>/proc/<pid>/stat\<close>, if it can be read.
\<close>

datatype kill_result = Kill_Ok | Kill_ESRCH | Kill_EPERM | Kill_Other

record os_procs =
  os_getpid :: int
  os_kill0 :: "int \<Rightarrow> kill_result"
  os_stat_line :: "int \<Rightarrow> string option"

section \<open>Parsing\<close>

definition is_space :: "char \<Rightarrow> bool" where
  "is_space c \<longleftrightarrow> c \<in> set [CHR '' '', CHR 0x09, CHR 0x0A, CHR 0x0B, CHR 0x0C, CHR 0x0D]"

text \<open>The values that \<open>fields >> value\<close> yields, one after the other.\<close>

fun fields_of :: "string \<Rightarrow> string \<Rightarrow> string list" where
  "fields_of acc [] = (if acc = [] then [] else [rev acc])"
| "fields_of acc (c # cs) =
     (if is_space c then (if acc = [] then fields_of [] cs else rev acc # fields_of [] cs)
      else fields_of (c # acc) cs)"

text \<open>\<open>line.rfind(c)\<close>: the last index of the character.\<close>

fun rfind :: "char \<Rightarrow> string \<Rightarrow> nat option" where
  "rfind c [] = None"
| "rfind c (x # xs) =
     (case rfind c xs of Some i \<Rightarrow> Some (Suc i) | None \<Rightarrow> if x = c then Some 0 else None)"

definition is_digit :: "char \<Rightarrow> bool" where
  "is_digit c \<longleftrightarrow> (48::nat) \<le> of_char c \<and> of_char c \<le> (57::nat)"

definition digit_val :: "char \<Rightarrow> nat" where
  "digit_val c = of_char c - 48"

definition dec_val :: "string \<Rightarrow> nat" where
  "dec_val ds = foldl (\<lambda>n c. 10 * n + digit_val c) 0 ds"

text \<open>
  \<open>std::stoull\<close>: leading white space, a sign, then digits, of which there has to be one;
  what follows is ignored. A value out of range throws, and a minus sign negates modulo
  \<open>2 ^ 64\<close>.
\<close>

definition stoull :: "string \<Rightarrow> 64 word option" where
  "stoull s =
    (let s = dropWhile is_space s;
         neg = (s \<noteq> [] \<and> hd s = CHR ''-'');
         s = (if s \<noteq> [] \<and> (hd s = CHR ''-'' \<or> hd s = CHR ''+'') then tl s else s);
         ds = takeWhile is_digit s
     in if ds = [] then None
        else if dec_val ds \<ge> 2 ^ 64 then None
        else Some (if neg then - of_nat (dec_val ds) else of_nat (dec_val ds)))"

text \<open>
  \<open>process_start_token\<close>: the start token and whether the process has terminated. The
  fields from number 3 on follow the command name, which is enclosed in parentheses and may
  hold any character.
\<close>

definition process_start_token :: "os_procs \<Rightarrow> int \<Rightarrow> (64 word \<times> bool) option" where
  "process_start_token os pid =
    (if pid \<le> 0 then None
     else case os_stat_line os pid of
       None \<Rightarrow> None
     | Some line \<Rightarrow>
         (case rfind (CHR '')'') line of
            None \<Rightarrow> None
          | Some end_comm \<Rightarrow>
              if end_comm + 2 \<ge> length line then None
              else
                let fields = fields_of [] (drop (end_comm + 2) line)
                in if length fields < 20 then None
                   else if length (fields ! 0) \<noteq> 1 then None
                   else
                     let state = fields ! 0 ! 0
                     in case stoull (fields ! 19) of
                          None \<Rightarrow> None
                        | Some token \<Rightarrow> Some (token, state = CHR ''Z'' \<or> state = CHR ''X'' \<or> state = CHR ''x'')))"

section \<open>Identities\<close>

datatype HakoProcessIdentityStatus = Alive | Dead | Unknown

record HakoProcessIdentity =
  pi_pid :: int
  pi_start_token :: "64 word"

definition classify_lookup :: "bool \<Rightarrow> bool \<Rightarrow> bool \<Rightarrow> 64 word \<Rightarrow> 64 word \<Rightarrow> HakoProcessIdentityStatus" where
  "classify_lookup definitely_missing lookup_succeeded terminated expected_start_token actual_start_token =
    (if definitely_missing \<or> (lookup_succeeded \<and> terminated) then Dead
     else if \<not> lookup_succeeded \<or> expected_start_token = 0 \<or> actual_start_token = 0 then Unknown
     else if actual_start_token = expected_start_token then Alive else Dead)"

definition hako_current_process_identity :: "os_procs \<Rightarrow> HakoProcessIdentity option" where
  "hako_current_process_identity os =
    (case process_start_token os (os_getpid os) of
       None \<Rightarrow> None
     | Some (token, _) \<Rightarrow> Some \<lparr>pi_pid = os_getpid os, pi_start_token = token\<rparr>)"

definition hako_check_process_identity :: "os_procs \<Rightarrow> HakoProcessIdentity \<Rightarrow> HakoProcessIdentityStatus" where
  "hako_check_process_identity os identity =
    (if pi_pid identity \<le> 0 \<or> pi_start_token identity = 0 then Unknown
     else
       let k = os_kill0 os (pi_pid identity)
       in if k = Kill_ESRCH then classify_lookup True False False (pi_start_token identity) 0
          else if k = Kill_Other then Unknown
          else case process_start_token os (pi_pid identity) of
                 None \<Rightarrow> classify_lookup False False False (pi_start_token identity) 0
               | Some (actual, terminated) \<Rightarrow>
                   classify_lookup False True terminated (pi_start_token identity) actual)"

section \<open>The format of the process table\<close>

text \<open>
  The line that the kernel writes: the pid, the command name in parentheses, the state,
  and numbers; the start time is field 22.
\<close>

fun join_fields :: "string list \<Rightarrow> string" where
  "join_fields [] = ''''"
| "join_fields [f] = f"
| "join_fields (f # fs) = f @ '' '' @ join_fields fs"

definition stat_line :: "string \<Rightarrow> string \<Rightarrow> char \<Rightarrow> string list \<Rightarrow> nat \<Rightarrow> string list \<Rightarrow> string" where
  "stat_line pid comm state mid start rest =
     pid @ '' ('' @ comm @ '') '' @ join_fields ([state] # mid @ show_nat start # rest)"

definition plain_field :: "string \<Rightarrow> bool" where
  "plain_field f \<longleftrightarrow> f \<noteq> [] \<and> (\<forall>c \<in> set f. \<not> is_space c \<and> c \<noteq> CHR '')'')"

lemma fields_of_run:
  "(\<forall>c \<in> set f. \<not> is_space c) \<Longrightarrow> fields_of acc (f @ cs) = fields_of (rev f @ acc) cs"
  by (induction f arbitrary: acc) auto

lemma space_is_space [simp]: "is_space CHR '' ''"
  by (simp add: is_space_def)

lemma fields_of_join:
  "list_all plain_field fs \<Longrightarrow> fields_of [] (join_fields fs) = fs"
proof (induction fs rule: join_fields.induct)
  case (2 f)
  then show ?case using fields_of_run [of f "[]" "[]"] by (simp add: plain_field_def)
next
  case (3 f g fs)
  then show ?case using fields_of_run [of f "[]" "'' '' @ join_fields (g # fs)"] by (simp add: plain_field_def)
qed simp

lemma rfind_None: "rfind c xs = None \<longleftrightarrow> c \<notin> set xs"
  by (induction xs) (auto split: option.splits)

lemma rfind_last: "c \<notin> set ys \<Longrightarrow> rfind c (xs @ c # ys) = Some (length xs)"
proof (induction xs)
  case Nil
  then show ?case using rfind_None [of c ys] by simp
qed simp

lemma join_fields_chars: "set (join_fields fs) \<subseteq> insert CHR '' '' (\<Union> (set ` set fs))"
  by (induction fs rule: join_fields.induct) auto

lemma digit_char: "d < 10 \<Longrightarrow> is_digit (char_of (48 + d)) \<and> digit_val (char_of (48 + d)) = d"
  by (simp add: is_digit_def digit_val_def of_char_of)

lemma show_nat_digits: "(\<forall>c \<in> set (show_nat n). is_digit c) \<and> show_nat n \<noteq> [] \<and> dec_val (show_nat n) = n"
proof (induction n rule: show_nat.induct)
  case (1 n)
  have step: "n mod 10 < 10" "10 * (n div 10) + n mod 10 = n" by simp_all
  show ?case
  proof (cases "n < 10")
    case True
    then show ?thesis using digit_char [of n] by (subst (1 2 3) show_nat.simps) (simp add: dec_val_def)
  next
    case False
    then have sn: "show_nat n = show_nat (n div 10) @ [char_of (48 + n mod 10)]" by (subst show_nat.simps) simp
    show ?thesis using 1 [OF False] digit_char [OF step(1)] step(2) by (simp add: sn dec_val_def)
  qed
qed

lemma digit_not_other: "is_digit c \<Longrightarrow> \<not> is_space c \<and> c \<noteq> CHR '')'' \<and> c \<noteq> CHR ''-'' \<and> c \<noteq> CHR ''+''"
  by (auto simp: is_digit_def is_space_def)

lemma stoull_show_nat: "n < 2 ^ 64 \<Longrightarrow> stoull (show_nat n) = Some (of_nat n)"
proof -
  assume n: "n < 2 ^ 64"
  have ds: "\<forall>c \<in> set (show_nat n). is_digit c" "show_nat n \<noteq> []" "dec_val (show_nat n) = n"
    using show_nat_digits by blast+
  then have h: "is_digit (hd (show_nat n))" by simp
  have "takeWhile is_digit (show_nat n) = show_nat n" using ds(1) by simp
  moreover have "dropWhile is_space (show_nat n) = show_nat n"
    using digit_not_other [OF h] ds(2) by (cases "show_nat n") simp_all
  ultimately show ?thesis using ds n digit_not_other [OF h] by (simp add: stoull_def Let_def del: takeWhile_eq_all_conv)
qed

lemma plain_show_nat: "plain_field (show_nat n)"
  using show_nat_digits [of n] digit_not_other by (auto simp: plain_field_def)

lemma start_token_of_stat_line:
  assumes "0 < pid" and "os_stat_line os pid = Some (stat_line name comm state mid start rest)"
    and "plain_field [state]" and "list_all plain_field (mid @ rest)" and "length mid = 18" and "start < 2 ^ 64"
  shows "process_start_token os pid = Some (of_nat start, state \<in> {CHR ''Z'', CHR ''X'', CHR ''x''})"
proof -
  let ?fs = "[state] # mid @ show_nat start # rest"
  have plain: "list_all plain_field ?fs" using assms(3,4) plain_show_nat by simp
  then have no: "CHR '')'' \<notin> set (join_fields ?fs)"
    using join_fields_chars [of ?fs] by (auto simp: plain_field_def list_all_iff)
  let ?pre = "name @ '' ('' @ comm"
  have line: "stat_line name comm state mid start rest = ?pre @ CHR '')'' # '' '' @ join_fields ?fs"
    by (simp add: stat_line_def)
  have "CHR '')'' \<notin> set ('' '' @ join_fields ?fs)" using no by simp
  from rfind_last [OF this, of ?pre] have rf: "rfind (CHR '')'') (stat_line name comm state mid start rest) = Some (length ?pre)"
    by (simp add: line)
  have "stat_line name comm state mid start rest = (?pre @ '') '') @ join_fields ?fs" by (simp add: line)
  moreover have "length (?pre @ '') '') = length ?pre + 2" by simp
  ultimately have tail: "drop (length ?pre + 2) (stat_line name comm state mid start rest) = join_fields ?fs"
    by (metis append_eq_conv_conj)
  have "join_fields ?fs \<noteq> []" using fields_of_join [OF plain] by (metis fields_of.simps(1) list.distinct(1))
  then have "length ?pre + 2 < length (stat_line name comm state mid start rest)"
    using tail by (metis drop_all linorder_not_le)
  moreover have "?fs ! 19 = show_nat start" using assms(5) by (simp add: nth_append)
  ultimately show ?thesis
    using assms rf tail fields_of_join [OF plain] stoull_show_nat [OF assms(6)]
    by (simp add: process_start_token_def Let_def)
qed

definition demo_procs :: os_procs where
  "demo_procs = \<lparr>os_getpid = 42, os_kill0 = (\<lambda>_. Kill_Ok),
     os_stat_line = (\<lambda>_. Some (stat_line ''42'' ''a) (b'' (CHR ''R'') (replicate 18 ''0'') 777 [''5'']))\<rparr>"

lemma demo_fields: "plain_field ''R''" "plain_field ''0''" "plain_field ''5''"
  by (simp_all add: plain_field_def is_space_def)

lemma demo_identity:
  "hako_current_process_identity demo_procs = Some \<lparr>pi_pid = 42, pi_start_token = 777\<rparr>"
  "hako_check_process_identity demo_procs \<lparr>pi_pid = 42, pi_start_token = 777\<rparr> = Alive"
  using start_token_of_stat_line [of 42 demo_procs "''42''" "''a) (b''" "CHR ''R''" "replicate 18 ''0''" 777 "[''5'']"] demo_fields
  by (simp_all add: hako_current_process_identity_def hako_check_process_identity_def classify_lookup_def
      demo_procs_def list_all_iff)

section \<open>Properties\<close>

text \<open>
  The parser reads back what the kernel prints: for a line of the process table with
  any command name, parentheses and blanks in it included, the token is the start time of
  field 22 and a zombie or dead process is recognised by its state.
\<close>

lemma start_token_reads_stat_line:
  assumes "0 < pid" and "os_stat_line os pid = Some (stat_line name comm state mid start rest)"
    and "plain_field [state]" and "list_all plain_field (mid @ rest)" and "length mid = 18" and "start < 2 ^ 64"
  shows "process_start_token os pid = Some (of_nat start, state \<in> {CHR ''Z'', CHR ''X'', CHR ''x''})"
  by (rule start_token_of_stat_line [OF assms])

text \<open>
  The verdict on an identity is exact: a process is reported alive only if the pid
  exists now, is not a zombie and has the recorded start token; it is reported dead only on
  positive evidence, which is a missing process, a terminated one or another start token,
  so a recycled pid is never taken for its former owner; everything else is unknown.
\<close>

lemma identity_status_exact:
  "hako_check_process_identity os identity =
    (if 0 < pi_pid identity \<and> pi_start_token identity \<noteq> 0 \<and> os_kill0 os (pi_pid identity) \<in> {Kill_Ok, Kill_EPERM} \<and>
        process_start_token os (pi_pid identity) = Some (pi_start_token identity, False) then Alive
     else if 0 < pi_pid identity \<and> pi_start_token identity \<noteq> 0 \<and>
        (os_kill0 os (pi_pid identity) = Kill_ESRCH \<or>
         os_kill0 os (pi_pid identity) \<noteq> Kill_Other \<and>
         (\<exists>token terminated. process_start_token os (pi_pid identity) = Some (token, terminated) \<and>
            (terminated \<or> token \<noteq> 0 \<and> token \<noteq> pi_start_token identity))) then Dead
     else Unknown)"
proof (cases "process_start_token os (pi_pid identity)")
  case None
  then show ?thesis
    by (cases "os_kill0 os (pi_pid identity)")
       (simp_all add: hako_check_process_identity_def classify_lookup_def)
next
  case (Some r)
  obtain token terminated where r: "r = (token, terminated)" by (cases r)
  show ?thesis
    unfolding Some r
    by (cases "os_kill0 os (pi_pid identity)"; cases terminated)
       (simp_all add: hako_check_process_identity_def classify_lookup_def Some r, blast+)
qed

end
