(* ===== verification/Hako_Sem_Flock.thy ===== *)
theory Hako_Sem_Flock
  imports Hako_Flock Hako_Process_Identity Hako_Types
begin

text \<open>
  The semaphores in the lock file, \<open>utils/hako_share/impl/hako_sem_flock.cpp\<close>: the counters
  of the assets, and the master lock with its record of the owner, by which a lock whose
  owner has died is recognised and never taken.
\<close>

unbundle bit_operations_syntax

text \<open>The path of the file; the argument is \<open>core_mmap_path\<close> of the configuration, if one was found.\<close>

definition flock_path :: "string option \<Rightarrow> string" where
  "flock_path core_mmap_path = (case core_mmap_path of None \<Rightarrow> ''./flock'' | Some path \<Rightarrow> path @ ''/flock.bin'')"

section \<open>The record of the owner\<close>

datatype MasterLockHealth = Health_Ok | Health_Abort | Health_Unknown

datatype MasterLockUnknownCause =
    Cause_None | Cause_Identity | Cause_Format | Cause_Corrupt | Cause_Unsupported | Cause_Contention | Cause_System

datatype MasterLockState = Lock_Unlocked | Lock_Acquiring | Lock_Locked | Lock_Releasing

record MasterLockMetadataV1 =
  md_magic :: "32 word"
  md_version :: "16 word"
  md_size :: "16 word"
  md_state :: "32 word"
  md_reserved :: "32 word"
  md_owner_pid :: "64 word"
  md_owner_start_token :: "64 word"
  md_generation :: "64 word"
  md_checksum :: "64 word"

definition HAKO_CONFIG_MAX_SEM :: nat where "HAKO_CONFIG_MAX_SEM = 1024"
definition MASTER_LOCK_MAGIC :: "32 word" where "MASTER_LOCK_MAGIC = 0x484B464C"
definition MASTER_LOCK_VERSION :: "16 word" where "MASTER_LOCK_VERSION = 1"
definition MASTER_LOCK_METADATA_OFFSET :: nat where "MASTER_LOCK_METADATA_OFFSET = 4 * HAKO_CONFIG_MAX_SEM"
definition MASTER_LOCK_FLOCK_SIZE :: nat where "MASTER_LOCK_FLOCK_SIZE = MASTER_LOCK_METADATA_OFFSET + 48"

text \<open>The 48 bytes of the struct; it has no padding.\<close>

definition meta_bytes :: "MasterLockMetadataV1 \<Rightarrow> byte list" where
  "meta_bytes m =
     bytes_le 4 (unat (md_magic m)) @ bytes_le 2 (unat (md_version m)) @ bytes_le 2 (unat (md_size m)) @
     bytes_le 4 (unat (md_state m)) @ bytes_le 4 (unat (md_reserved m)) @ bytes_le 8 (unat (md_owner_pid m)) @
     bytes_le 8 (unat (md_owner_start_token m)) @ bytes_le 8 (unat (md_generation m)) @ bytes_le 8 (unat (md_checksum m))"

definition meta_of_bytes :: "byte list \<Rightarrow> MasterLockMetadataV1" where
  "meta_of_bytes bs =
     \<lparr>md_magic = of_nat (le_value (slice bs 0 4)), md_version = of_nat (le_value (slice bs 4 2)),
      md_size = of_nat (le_value (slice bs 6 2)), md_state = of_nat (le_value (slice bs 8 4)),
      md_reserved = of_nat (le_value (slice bs 12 4)), md_owner_pid = of_nat (le_value (slice bs 16 8)),
      md_owner_start_token = of_nat (le_value (slice bs 24 8)), md_generation = of_nat (le_value (slice bs 32 8)),
      md_checksum = of_nat (le_value (slice bs 40 8))\<rparr>"

fun fnv_hash :: "64 word \<Rightarrow> byte list \<Rightarrow> 64 word" where
  "fnv_hash hash [] = hash"
| "fnv_hash hash (b # bs) = fnv_hash ((hash XOR ucast b) * 1099511628211) bs"

definition metadata_checksum :: "MasterLockMetadataV1 \<Rightarrow> 64 word" where
  "metadata_checksum m = fnv_hash 1469598103934665603 (meta_bytes (m\<lparr>md_checksum := 0\<rparr>))"

fun state_code :: "MasterLockState \<Rightarrow> 32 word" where
  "state_code Lock_Unlocked = 0"
| "state_code Lock_Acquiring = 1"
| "state_code Lock_Locked = 2"
| "state_code Lock_Releasing = 3"

definition state_of_code :: "32 word \<Rightarrow> MasterLockState" where
  "state_of_code c = (if c = 0 then Lock_Unlocked else if c = 1 then Lock_Acquiring else if c = 2 then Lock_Locked else Lock_Releasing)"

definition read_metadata :: "HakoFlockObject \<Rightarrow> MasterLockMetadataV1 option \<times> HakoFlockObject" where
  "read_metadata h =
    (case hako_flock_size h of
       (sz, h) \<Rightarrow>
         if sz < MASTER_LOCK_METADATA_OFFSET + 48 then (None, h)
         else case hako_flock_read_bytes MASTER_LOCK_METADATA_OFFSET 48 h of
                (bs, h) \<Rightarrow> (map_option meta_of_bytes bs, h))"

text \<open>\<open>write_metadata\<close> also stores the checksum in the caller's record.\<close>

definition seal :: "MasterLockMetadataV1 \<Rightarrow> MasterLockMetadataV1" where
  "seal m = m\<lparr>md_checksum := metadata_checksum m\<rparr>"

definition write_metadata :: "MasterLockMetadataV1 \<Rightarrow> HakoFlockObject \<Rightarrow> bool \<times> HakoFlockObject" where
  "write_metadata m h = hako_flock_write_bytes MASTER_LOCK_METADATA_OFFSET (meta_bytes (seal m)) h"

definition new_metadata :: MasterLockMetadataV1 where
  "new_metadata = seal
     \<lparr>md_magic = MASTER_LOCK_MAGIC, md_version = MASTER_LOCK_VERSION, md_size = 48, md_state = state_code Lock_Unlocked,
      md_reserved = 0, md_owner_pid = 0, md_owner_start_token = 0, md_generation = 0, md_checksum = 0\<rparr>"

section \<open>Inspection\<close>

record MasterLockInspection =
  in_health :: MasterLockHealth
  in_state :: MasterLockState
  in_counter :: "32 word"
  in_owner_pid :: "64 word"
  in_owner_start_token :: "64 word"
  in_generation :: "64 word"
  in_unknown_cause :: MasterLockUnknownCause
  in_reason :: string

definition blank_inspection :: MasterLockInspection where
  "blank_inspection = \<lparr>in_health = Health_Unknown, in_state = Lock_Unlocked, in_counter = -1, in_owner_pid = 0,
     in_owner_start_token = 0, in_generation = 0, in_unknown_cause = Cause_None, in_reason = ''''\<rparr>"

abbreviation unknown_because :: "MasterLockUnknownCause \<Rightarrow> string \<Rightarrow> MasterLockInspection \<Rightarrow> MasterLockInspection" where
  "unknown_because cause reason r \<equiv> r\<lparr>in_unknown_cause := cause, in_reason := reason\<rparr>"

text \<open>The part of \<open>inspect_locked\<close> after both reads: the verdict on a counter and a record.\<close>

definition judge :: "os_procs \<Rightarrow> 32 word \<Rightarrow> MasterLockMetadataV1 \<Rightarrow> MasterLockInspection" where
  "judge os counter m =
    (let r = blank_inspection\<lparr>in_counter := counter\<rparr>
     in if md_magic m \<noteq> MASTER_LOCK_MAGIC
        then unknown_because Cause_Format ''master lock owner metadata magic is incompatible'' r
        else if md_version m \<noteq> MASTER_LOCK_VERSION \<or> md_size m \<noteq> 48
        then unknown_because Cause_Unsupported ''master lock owner metadata version is incompatible'' r
        else if md_checksum m \<noteq> metadata_checksum m
        then unknown_because Cause_Corrupt ''master lock owner metadata checksum is invalid'' r
        else if md_state m > state_code Lock_Releasing
        then unknown_because Cause_Corrupt ''master lock owner metadata state is invalid'' r
        else
          let r = r\<lparr>in_state := state_of_code (md_state m), in_owner_pid := md_owner_pid m,
                    in_owner_start_token := md_owner_start_token m, in_generation := md_generation m\<rparr>
          in if in_state r = Lock_Unlocked
             then if in_counter r = 1 \<and> in_owner_pid r = 0 \<and> in_owner_start_token r = 0
                  then r\<lparr>in_health := Health_Ok, in_reason := ''master lock is unlocked''\<rparr>
                  else unknown_because Cause_Corrupt ''unlocked master lock metadata is inconsistent'' r
             else case hako_check_process_identity os
                         \<lparr>pi_pid = sint (in_owner_pid r), pi_start_token = in_owner_start_token r\<rparr> of
                    Dead \<Rightarrow> r\<lparr>in_health := Health_Abort, in_reason := ''master lock owner process is no longer alive''\<rparr>
                  | Unknown \<Rightarrow> unknown_because Cause_Identity ''master lock owner identity cannot be verified'' r
                  | Alive \<Rightarrow>
                      if in_state r = Lock_Locked \<and> in_counter r = 0
                      then r\<lparr>in_health := Health_Ok, in_reason := ''master lock is held by a live process''\<rparr>
                      else unknown_because Cause_Corrupt ''master lock transition was left incomplete'' r)"

definition inspect_locked :: "os_procs \<Rightarrow> HakoFlockObject \<Rightarrow> MasterLockInspection \<times> HakoFlockObject" where
  "inspect_locked os h =
    (case hako_flock_read_bytes 0 4 h of
       (None, h) \<Rightarrow> (unknown_because Cause_Corrupt ''master lock counter cannot be read'' blank_inspection, h)
     | (Some bs, h) \<Rightarrow>
         (case read_metadata h of
            (None, h) \<Rightarrow>
              (unknown_because Cause_Format ''master lock owner metadata is missing (legacy flock.bin)''
                 (blank_inspection\<lparr>in_counter := int_of_bytes bs\<rparr>), h)
          | (Some m, h) \<Rightarrow> (judge os (int_of_bytes bs) m, h)))"

section \<open>Errors\<close>

datatype lock_error =
    Flock_Wait_Error HakoFlockWaitErrorType
  | MasterLockStateError MasterLockHealth MasterLockUnknownCause string

definition actionable_reason :: "MasterLockInspection \<Rightarrow> string" where
  "actionable_reason r =
    (if in_health r = Health_Abort \<or> in_unknown_cause r \<in> {Cause_Format, Cause_Corrupt, Cause_Unsupported}
     then in_reason r @ ''; stop every Hakoniwa process, install one Core version, '' @
            ''then run 'hako-cmd recover' before restarting''
     else if in_unknown_cause r = Cause_Identity
     then in_reason r @ ''; fix process-inspection permissions or retry with a bounded '' @
            ''wait; do not recover while owner liveness is unknown''
     else in_reason r)"

fun master_lock_health_name :: "MasterLockHealth \<Rightarrow> string" where
  "master_lock_health_name Health_Ok = ''OK''"
| "master_lock_health_name Health_Abort = ''ABORT''"
| "master_lock_health_name Health_Unknown = ''UNKNOWN''"

fun master_lock_state_name :: "MasterLockState \<Rightarrow> string" where
  "master_lock_state_name Lock_Unlocked = ''UNLOCKED''"
| "master_lock_state_name Lock_Acquiring = ''ACQUIRING''"
| "master_lock_state_name Lock_Locked = ''LOCKED''"
| "master_lock_state_name Lock_Releasing = ''RELEASING''"

fun master_lock_unknown_cause_name :: "MasterLockUnknownCause \<Rightarrow> string" where
  "master_lock_unknown_cause_name Cause_None = ''NONE''"
| "master_lock_unknown_cause_name Cause_Identity = ''IDENTITY''"
| "master_lock_unknown_cause_name Cause_Format = ''FORMAT''"
| "master_lock_unknown_cause_name Cause_Corrupt = ''CORRUPT''"
| "master_lock_unknown_cause_name Cause_Unsupported = ''UNSUPPORTED''"
| "master_lock_unknown_cause_name Cause_Contention = ''CONTENTION''"
| "master_lock_unknown_cause_name Cause_System = ''SYSTEM''"

lemma lock_names_tell_apart:
  "inj master_lock_health_name" "inj master_lock_state_name" "inj master_lock_unknown_cause_name"
proof -
  show "inj master_lock_health_name"
  proof (rule injI)
    fix a b assume "master_lock_health_name a = master_lock_health_name b"
    then show "a = b" by (cases a; cases b) simp_all
  qed
  show "inj master_lock_state_name"
  proof (rule injI)
    fix a b assume "master_lock_state_name a = master_lock_state_name b"
    then show "a = b" by (cases a; cases b) simp_all
  qed
  show "inj master_lock_unknown_cause_name"
  proof (rule injI)
    fix a b assume "master_lock_unknown_cause_name a = master_lock_unknown_cause_name b"
    then show "a = b" by (cases a; cases b) simp_all
  qed
qed

definition throw_lock_health :: "MasterLockInspection \<Rightarrow> lock_error" where
  "throw_lock_health r = MasterLockStateError (in_health r) (in_unknown_cause r) (actionable_reason r)"

text \<open>
  Results of the operations: the outer option is whether the waits inside end; a turn of a
  waiting loop is done, throws, or has released the file and is to be repeated.
\<close>

type_synonym 'a flock_run = "('a \<times> HakoFlockObject) option"

datatype turn = Turn_Done | Turn_Again | Turn_Throw lock_error

text \<open>
  What a thread sees during one turn: the wait scope, the attempts on the file lock with the
  clock at their start, the clock and the interrupt flag at the two checkpoints of the turn,
  and the process table.
\<close>

record sem_env =
  se_wait :: wait_state
  se_attempts :: "nat \<Rightarrow> flock_attempt"
  se_attempt_start :: "64 word"
  se_before :: "64 word \<times> bool"
  se_after :: "64 word \<times> bool"
  se_procs :: os_procs

definition with_flock :: "sem_env \<Rightarrow> HakoFlockObject \<Rightarrow> (HakoFlockWaitErrorType \<Rightarrow> 'a) \<Rightarrow>
    (HakoFlockObject \<Rightarrow> 'a \<times> HakoFlockObject) \<Rightarrow> 'a flock_run" where
  "with_flock env h fail body =
    (case hako_flock_acquire (se_wait env) (se_attempt_start env) (se_attempts env) h of
       None \<Rightarrow> None
     | Some (Some e, h) \<Rightarrow> Some (fail e, h)
     | Some (None, h) \<Rightarrow> Some (body h))"

section \<open>Set-up of the file\<close>

text \<open>The loops that write the counters; they stop at the first write that fails.\<close>

fun write_counters :: "(nat \<Rightarrow> 32 word) \<Rightarrow> nat list \<Rightarrow> HakoFlockObject \<Rightarrow> bool \<times> HakoFlockObject" where
  "write_counters v [] h = (True, h)"
| "write_counters v (i # is) h =
    (case hako_flock_write_bytes (i * 4) (int_bytes (v i)) h of
       (ok, h) \<Rightarrow> if ok then write_counters v is h else (False, h))"

definition initialize_new_flock :: "sem_env \<Rightarrow> HakoFlockObject \<Rightarrow> lock_error option flock_run" where
  "initialize_new_flock env h =
     with_flock env h (\<lambda>e. Some (Flock_Wait_Error e)) (\<lambda>h.
       case write_counters (\<lambda>i. if i = 0 then 1 else 0) [0..<HAKO_CONFIG_MAX_SEM] h of
         (ok, h) \<Rightarrow>
           if \<not> ok
           then (Some (MasterLockStateError Health_Unknown Cause_System ''failed to initialize semaphore counters''),
                 hako_flock_release h)
           else case write_metadata new_metadata h of
                  (ok, h) \<Rightarrow>
                    if \<not> ok
                    then (Some (MasterLockStateError Health_Unknown Cause_System
                            ''failed to initialize master lock owner metadata''), hako_flock_release h)
                    else (None, hako_flock_release h))"

text \<open>
  \<open>wait_for_existing_flock_initialization\<close>: at turn \<open>k\<close> the code sees whether the deadline
  is ahead and the outcome of \<open>flock\<close>; \<open>others k\<close> is what other processes do to the file
  during the sleep.
\<close>

definition initialized_metadata :: "MasterLockMetadataV1 option \<Rightarrow> bool" where
  "initialized_metadata m =
    (case m of None \<Rightarrow> False
     | Some m \<Rightarrow> md_magic m = MASTER_LOCK_MAGIC \<and> md_version m = MASTER_LOCK_VERSION \<and> md_size m = 48 \<and>
         md_checksum m = metadata_checksum m)"

partial_function (option) wait_init_loop ::
  "(nat \<Rightarrow> bool \<times> flock_result) \<Rightarrow> (nat \<Rightarrow> HakoFlockObject \<Rightarrow> HakoFlockObject) \<Rightarrow> nat \<Rightarrow> HakoFlockObject \<Rightarrow> HakoFlockObject option" where
  "wait_init_loop at others k h =
    (if \<not> fst (at k) then Some h
     else case hako_flock_try_acquire (snd (at k)) h of
       (r, h) \<Rightarrow>
         if r < 0 then Some h
         else if r = 0
         then case read_metadata h of
                (m, h) \<Rightarrow>
                  if initialized_metadata m then Some (hako_flock_release h)
                  else wait_init_loop at others (Suc k) (others k (hako_flock_release h))
         else wait_init_loop at others (Suc k) (others k h))"

definition wait_for_existing_flock_initialization ::
  "(nat \<Rightarrow> bool \<times> flock_result) \<Rightarrow> (nat \<Rightarrow> HakoFlockObject \<Rightarrow> HakoFlockObject) \<Rightarrow> HakoFlockObject \<Rightarrow> HakoFlockObject option" where
  "wait_for_existing_flock_initialization at others h =
    (case hako_flock_size h of
       (initial_size, h) \<Rightarrow>
         if initial_size = MASTER_LOCK_METADATA_OFFSET then Some h else wait_init_loop at others 0 h)"

definition reset_asset_semaphores_for_clean_master_start :: "sem_env \<Rightarrow> HakoFlockObject \<Rightarrow> lock_error option flock_run" where
  "reset_asset_semaphores_for_clean_master_start env h =
     with_flock env h (\<lambda>e. Some (Flock_Wait_Error e)) (\<lambda>h.
       case inspect_locked (se_procs env) h of
         (r, h) \<Rightarrow>
           if in_health r = Health_Ok \<and> in_state r = Lock_Unlocked \<and> in_counter r = 1
           then case write_counters (\<lambda>_. 0) [1..<HAKO_CONFIG_MAX_SEM] h of
                  (ok, h) \<Rightarrow>
                    if \<not> ok
                    then (Some (throw_lock_health (unknown_because Cause_System
                            ''failed to reset asset semaphore counters'' blank_inspection)), hako_flock_release h)
                    else (None, hako_flock_release h)
           else (None, hako_flock_release h))"

text \<open>\<open>create\<close>: the result is the semaphore id or an error; \<open>file\<close> is the file on disk.\<close>

definition sem_flock_create ::
  "sem_env \<Rightarrow> flock_open_env \<Rightarrow> (nat \<Rightarrow> bool \<times> flock_result) \<Rightarrow> (nat \<Rightarrow> HakoFlockObject \<Rightarrow> HakoFlockObject) \<Rightarrow>
   int \<Rightarrow> byte list option \<Rightarrow> ((lock_error + int) \<times> HakoFlockObject option) option" where
  "sem_flock_create env open_env at others key file =
    (case hako_flock_create open_env MASTER_LOCK_FLOCK_SIZE file of
       (None, _) \<Rightarrow> Some (Inr (-1), None)
     | (Some h, _) \<Rightarrow>
         if fl_created h
         then case initialize_new_flock env h of
                None \<Rightarrow> None
              | Some (Some e, h) \<Rightarrow> Some (Inl e, Some h)
              | Some (None, h) \<Rightarrow> Some (Inr key, Some h)
         else case wait_for_existing_flock_initialization at others h of
                None \<Rightarrow> None
              | Some h \<Rightarrow>
                  if key = HAKO_SHARED_MEMORY_ID_0
                  then case reset_asset_semaphores_for_clean_master_start env h of
                         None \<Rightarrow> None
                       | Some (Some e, h) \<Rightarrow> Some (Inl e, Some h)
                       | Some (None, h) \<Rightarrow> Some (Inr key, Some h)
                  else Some (Inr key, Some h))"

definition ensure_flock_loaded :: "flock_open_env \<Rightarrow> byte list option \<Rightarrow> HakoFlockObject option \<Rightarrow> HakoFlockObject option" where
  "ensure_flock_loaded open_env file flock_handle =
    (case flock_handle of Some h \<Rightarrow> Some h | None \<Rightarrow> hako_flock_open open_env file)"

text \<open>\<open>destroy\<close>: what the closed handle leaves behind and the new value of \<open>flock_handle\<close>.\<close>

definition sem_flock_destroy :: "HakoFlockObject option \<Rightarrow> HakoFlockObject option \<times> HakoFlockObject option" where
  "sem_flock_destroy flock_handle = (hako_flock_close flock_handle, None)"

section \<open>Waiting loops\<close>

text \<open>
  The loop that \<open>semaphore_down\<close> and \<open>master_lock\<close> share: checkpoint, one turn under the
  file lock, then a sleep with a second checkpoint; \<open>others k\<close> is what other processes do to
  the file before turn \<open>k\<close>.
\<close>

partial_function (option) wait_loop ::
  "(nat \<Rightarrow> sem_env) \<Rightarrow> 64 word \<Rightarrow> (nat \<Rightarrow> HakoFlockObject \<Rightarrow> HakoFlockObject) \<Rightarrow>
   (sem_env \<Rightarrow> HakoFlockObject \<Rightarrow> turn flock_run) \<Rightarrow> nat \<Rightarrow> HakoFlockObject \<Rightarrow> lock_error option flock_run" where
  "wait_loop env started others body k h =
    (case hako_flock_wait_checkpoint (se_wait (env k)) started (fst (se_before (env k))) (snd (se_before (env k))) of
       Some e \<Rightarrow> Some (Some (Flock_Wait_Error e), h)
     | None \<Rightarrow>
         (case body (env k) (others k h) of
            None \<Rightarrow> None
          | Some (Turn_Done, h) \<Rightarrow> Some (None, h)
          | Some (Turn_Throw e, h) \<Rightarrow> Some (Some e, h)
          | Some (Turn_Again, h) \<Rightarrow>
              (case hako_flock_wait_checkpoint (se_wait (env k)) started (fst (se_after (env k))) (snd (se_after (env k))) of
                 Some e \<Rightarrow> Some (Some (Flock_Wait_Error e), h)
               | None \<Rightarrow> wait_loop env started others body (Suc k) h)))"

section \<open>The counters of the assets\<close>

text \<open>
  A turn of the loop in \<open>semaphore_down\<close>. Between turns \<open>value\<close> keeps a number that was not
  positive; a turn starts with 0, which a read that fails leaves not positive all the same.
\<close>

definition semaphore_down_turn :: "nat \<Rightarrow> sem_env \<Rightarrow> HakoFlockObject \<Rightarrow> turn flock_run" where
  "semaphore_down_turn index env h =
     with_flock env h (\<lambda>e. Turn_Throw (Flock_Wait_Error e)) (\<lambda>h.
       case hako_flock_read index 0 h of
         (v, h) \<Rightarrow>
           if 0 < sint v then (Turn_Done, hako_flock_release (hako_flock_write index (v - 1) h))
           else (Turn_Again, hako_flock_release h))"

definition semaphore_down where
  "semaphore_down index env started others h = wait_loop env started others (semaphore_down_turn index) 0 h"

definition semaphore_up :: "nat \<Rightarrow> sem_env \<Rightarrow> HakoFlockObject \<Rightarrow> lock_error option flock_run" where
  "semaphore_up index env h =
     with_flock env h (\<lambda>e. Some (Flock_Wait_Error e)) (\<lambda>h.
       case hako_flock_read index 0 h of
         (v, h) \<Rightarrow> (None, hako_flock_release (hako_flock_write index (v + 1) h)))"

definition flock_asset_down where
  "flock_asset_down asset_id env started others h = semaphore_down (1 + asset_id) env started others h"

definition flock_asset_up where
  "flock_asset_up asset_id env h = semaphore_up (1 + asset_id) env h"

section \<open>The master lock\<close>

abbreviation fail_stop :: "MasterLockInspection \<Rightarrow> HakoFlockObject \<Rightarrow> turn \<times> HakoFlockObject" where
  "fail_stop r h \<equiv> (Turn_Throw (throw_lock_health r), hako_flock_release h)"

text \<open>The three writes of an acquisition, once the lock was found free.\<close>

definition take_master_lock ::
  "HakoProcessIdentity \<Rightarrow> MasterLockInspection \<Rightarrow> HakoFlockObject \<Rightarrow> turn \<times> HakoFlockObject" where
  "take_master_lock owner r h =
    (case read_metadata h of
       (None, h) \<Rightarrow>
         fail_stop (r\<lparr>in_health := Health_Unknown, in_unknown_cause := Cause_Corrupt,
           in_reason := ''master lock metadata disappeared during acquisition''\<rparr>) h
     | (Some m, h) \<Rightarrow>
         let m = m\<lparr>md_state := state_code Lock_Acquiring, md_owner_pid := of_int (pi_pid owner),
                   md_owner_start_token := pi_start_token owner, md_generation := md_generation m + 1\<rparr>;
             r' = r\<lparr>in_health := Health_Abort, in_owner_pid := of_int (pi_pid owner), in_generation := md_generation m\<rparr>
         in case write_metadata m h of
              (ok, h) \<Rightarrow>
                if \<not> ok
                then fail_stop (r\<lparr>in_health := Health_Unknown, in_unknown_cause := Cause_System,
                       in_reason := ''failed to record master lock acquisition''\<rparr>) h
                else case hako_flock_write_bytes 0 (int_bytes 0) h of
                  (ok, h) \<Rightarrow>
                    if \<not> ok then fail_stop (r'\<lparr>in_reason := ''master lock counter acquisition failed''\<rparr>) h
                    else case write_metadata (m\<lparr>md_state := state_code Lock_Locked\<rparr>) h of
                      (ok, h) \<Rightarrow>
                        if \<not> ok
                        then fail_stop (r'\<lparr>in_reason := ''master lock acquisition metadata was not committed''\<rparr>) h
                        else (Turn_Done, hako_flock_release h))"

definition master_lock_turn :: "HakoProcessIdentity \<Rightarrow> sem_env \<Rightarrow> HakoFlockObject \<Rightarrow> turn flock_run" where
  "master_lock_turn owner env h =
     with_flock env h (\<lambda>e. Turn_Throw (Flock_Wait_Error e)) (\<lambda>h.
       case inspect_locked (se_procs env) h of
         (r, h) \<Rightarrow>
           if in_health r \<noteq> Health_Ok
           then if in_health r = Health_Unknown \<and> in_unknown_cause r = Cause_Identity \<and> wait_enabled (se_wait env)
                then (Turn_Again, hako_flock_release h)
                else fail_stop r h
           else if in_state r = Lock_Unlocked \<and> in_counter r = 1 then take_master_lock owner r h
           else (Turn_Again, hako_flock_release h))"

definition no_identity :: lock_error where
  "no_identity = throw_lock_health (unknown_because Cause_Identity ''current process identity cannot be determined'' blank_inspection)"

definition flock_master_lock where
  "flock_master_lock env started others h =
    (case hako_current_process_identity (se_procs (env 0)) of
       None \<Rightarrow> Some (Some no_identity, h)
     | Some owner \<Rightarrow> wait_loop env started others (master_lock_turn owner) 0 h)"

text \<open>The three writes of a release.\<close>

definition give_master_lock :: "MasterLockInspection \<Rightarrow> HakoFlockObject \<Rightarrow> turn \<times> HakoFlockObject" where
  "give_master_lock r h =
    (case read_metadata h of
       (None, h) \<Rightarrow>
         fail_stop (r\<lparr>in_health := Health_Unknown, in_unknown_cause := Cause_Corrupt,
           in_reason := ''master lock metadata disappeared during release''\<rparr>) h
     | (Some m, h) \<Rightarrow>
         let m = m\<lparr>md_state := state_code Lock_Releasing\<rparr>; r' = r\<lparr>in_health := Health_Abort\<rparr>
         in case write_metadata m h of
              (ok, h) \<Rightarrow>
                if \<not> ok then fail_stop (r'\<lparr>in_reason := ''failed to record master lock release''\<rparr>) h
                else case hako_flock_write_bytes 0 (int_bytes 1) h of
                  (ok, h) \<Rightarrow>
                    if \<not> ok then fail_stop (r'\<lparr>in_reason := ''master lock counter release failed''\<rparr>) h
                    else case write_metadata (m\<lparr>md_state := state_code Lock_Unlocked, md_owner_pid := 0,
                                md_owner_start_token := 0\<rparr>) h of
                      (ok, h) \<Rightarrow>
                        if \<not> ok then fail_stop (r'\<lparr>in_reason := ''master lock release metadata was not committed''\<rparr>) h
                        else (Turn_Done, hako_flock_release h))"

definition flock_master_unlock :: "sem_env \<Rightarrow> HakoFlockObject \<Rightarrow> turn flock_run" where
  "flock_master_unlock env h =
    (case hako_current_process_identity (se_procs env) of
       None \<Rightarrow> Some (Turn_Throw no_identity, h)
     | Some owner \<Rightarrow>
         with_flock env h (\<lambda>e. Turn_Throw (Flock_Wait_Error e)) (\<lambda>h.
           case inspect_locked (se_procs env) h of
             (r, h) \<Rightarrow>
               if in_health r \<noteq> Health_Ok \<or> in_state r \<noteq> Lock_Locked \<or>
                  in_owner_pid r \<noteq> of_int (pi_pid owner) \<or> in_owner_start_token r \<noteq> pi_start_token owner
               then fail_stop (if in_health r = Health_Ok
                    then r\<lparr>in_health := Health_Unknown, in_unknown_cause := Cause_Identity,
                           in_reason := ''master unlock attempted by a non-owner process''\<rparr> else r) h
               else give_master_lock r h))"

section \<open>Inspection from outside\<close>

text \<open>
  \<open>inspect_master_lock\<close>, once the path is known: the own handle is opened and closed here.
  \<open>try\<close> is the outcome of the one attempt without waiting; an exception of the wait becomes
  a contention.
\<close>

definition inspect_master_lock ::
  "sem_env \<Rightarrow> flock_open_env \<Rightarrow> byte list option \<Rightarrow> flock_result \<Rightarrow> 32 word \<Rightarrow> bool \<Rightarrow> MasterLockInspection option" where
  "inspect_master_lock env open_env file try timeout force_wait =
    (case hako_flock_open open_env file of
       None \<Rightarrow> Some (unknown_because Cause_System ''flock.bin cannot be opened'' blank_inspection)
     | Some h \<Rightarrow>
         if force_wait
         then case hako_flock_acquire (snd (HakoFlockWaitScope \<lparr>timeout_ms = timeout, watched = False\<rparr> (se_wait env)))
                     (se_attempt_start env) (se_attempts env) h of
                None \<Rightarrow> None
              | Some (Some e, h) \<Rightarrow>
                  Some (unknown_because Cause_Contention
                    (case e of Wait_Timeout \<Rightarrow> ''file-lock wait timed out'' | Wait_Interrupted \<Rightarrow> ''file-lock wait interrupted''
                     | Wait_SystemError \<Rightarrow> ''file-lock acquisition failed'') blank_inspection)
              | Some (None, h) \<Rightarrow> Some (fst (inspect_locked (se_procs env) h))
         else case hako_flock_try_acquire try h of
                (r, h) \<Rightarrow>
                  if r \<noteq> 0
                  then Some (if r > 0 then unknown_because Cause_Contention ''OS file lock is busy'' blank_inspection
                             else unknown_because Cause_System ''OS file lock inspection failed'' blank_inspection)
                  else Some (fst (inspect_locked (se_procs env) h)))"

end
