(* ===== verification/Hako_Lock_File.thy ===== *)
theory Hako_Lock_File
  imports Hako_Sem_Flock
begin

text \<open>
  The layout of the lock file and what its record can be relied on for: the record survives
  its encoding, the writes of counter and record do not disturb each other, and the
  checksum detects every change of a single byte. On this rest the theorems about one call
  of the master lock and, in the next theory, about many processes.
\<close>

section \<open>The record as bytes\<close>

lemma le_value_less: "le_value bs < 256 ^ length bs"
proof (induction bs)
  case (Cons b bs)
  have "unat b < 256" by (rule order_less_le_trans [OF unsigned_less]) simp
  then show ?case using Cons by simp
qed simp

lemma word_of_bytes_le:
  fixes w :: "'a::len word"
  assumes "LENGTH('a) = 8 * n"
  shows "of_nat (le_value (bytes_le n (unat w))) = w"
proof -
  have "(256::nat) ^ n = 2 ^ LENGTH('a)" by (simp add: assms power_mult)
  then have "unat w < 256 ^ n" using unsigned_less [of w, where 'a = nat] by simp
  then show ?thesis by (simp add: le_value_bytes_le)
qed

lemma bytes_le_word:
  assumes "LENGTH('a::len) = 8 * n" and "length bs = n"
  shows "bytes_le n (unat (of_nat (le_value bs) :: 'a word)) = bs"
proof -
  have "(256::nat) ^ n = 2 ^ LENGTH('a)" by (simp add: assms(1) power_mult)
  then have "le_value bs < 2 ^ LENGTH('a)" using le_value_less [of bs] assms(2) by simp
  then have "unat (of_nat (le_value bs) :: 'a word) = le_value bs" by (simp add: unat_of_nat)
  then show ?thesis using bytes_le_le_value [of bs] assms(2) by simp
qed

lemma length_meta_bytes [simp]: "length (meta_bytes m) = 48"
  by (simp add: meta_bytes_def)

lemma slice_append:
  "off + n \<le> length xs \<Longrightarrow> slice (xs @ ys) off n = slice xs off n"
  "length xs \<le> off \<Longrightarrow> slice (xs @ ys) off n = slice ys (off - length xs) n"
  by (simp_all add: slice_def)

lemma slice_all: "length xs = n \<Longrightarrow> slice xs 0 n = xs"
  by (simp add: slice_def)

lemma meta_of_meta_bytes [simp]: "meta_of_bytes (meta_bytes m) = m"
  by (simp add: meta_of_bytes_def meta_bytes_def slice_append slice_all word_of_bytes_le)

lemma slice_chain: "slice bs off n @ slice bs (off + n) k = slice bs off (n + k)"
  unfolding slice_def take_add drop_drop by (simp add: add.commute)

lemma slice_chain_num:
  "off + n = off' \<Longrightarrow> slice bs off n @ slice bs off' k = slice bs off (n + k)"
  "off + n = off' \<Longrightarrow> slice bs off n @ slice bs off' k @ ys = slice bs off (n + k) @ ys"
  using slice_chain [of bs off n k] by auto

lemma meta_bytes_of_bytes:
  assumes "length bs = 48"
  shows "meta_bytes (meta_of_bytes bs) = bs"
proof -
  have "meta_bytes (meta_of_bytes bs) =
      slice bs 0 4 @ slice bs 4 2 @ slice bs 6 2 @ slice bs 8 4 @ slice bs 12 4 @ slice bs 16 8 @ slice bs 24 8 @
      slice bs 32 8 @ slice bs 40 8"
    using assms by (simp add: meta_bytes_def meta_of_bytes_def bytes_le_word)
  also have "\<dots> = slice bs 0 48" by (simp add: slice_chain_num)
  finally show ?thesis using assms by (simp add: slice_all)
qed

lemma meta_bytes_inject: "meta_bytes m = meta_bytes m' \<Longrightarrow> m = m'"
  by (metis meta_of_meta_bytes)

lemma blank_checksum_bytes:
  assumes "length bs = 48"
  shows "meta_bytes ((meta_of_bytes bs)\<lparr>md_checksum := 0\<rparr>) = take 40 bs @ replicate 8 0"
proof -
  have "bytes_le n 0 = replicate n 0" for n by (induction n) simp_all
  then have "meta_bytes ((meta_of_bytes bs)\<lparr>md_checksum := 0\<rparr>) =
      slice bs 0 4 @ slice bs 4 2 @ slice bs 6 2 @ slice bs 8 4 @ slice bs 12 4 @ slice bs 16 8 @ slice bs 24 8 @
      slice bs 32 8 @ replicate 8 0"
    using assms by (simp add: meta_bytes_def meta_of_bytes_def bytes_le_word)
  also have "\<dots> = slice bs 0 40 @ replicate 8 0"
    by (simp add: slice_chain_num)
  finally show ?thesis by (simp add: slice_def)
qed

section \<open>The checksum\<close>

text \<open>The multiplier is odd, so one round of the hash can be undone.\<close>

lemma fnv_prime_inverse: "(1099511628211 :: 64 word) * 14886173955864302971 = 1"
  by simp

lemma fnv_round_inject:
  fixes h h' :: "64 word"
  assumes "(h XOR c) * 1099511628211 = (h' XOR c') * 1099511628211"
  shows "h XOR c = h' XOR c'"
proof -
  have "(h XOR c) * 1099511628211 * 14886173955864302971 = (h' XOR c') * 1099511628211 * 14886173955864302971"
    using assms by simp
  then show ?thesis by (simp only: mult.assoc fnv_prime_inverse mult_1_right)
qed

lemma xor_cancel: "(h::64 word) XOR c = h' XOR c \<Longrightarrow> h = h'"
proof -
  assume "h XOR c = h' XOR c"
  then have "(h XOR c) XOR c = (h' XOR c) XOR c" by simp
  then show ?thesis by (simp add: xor.assoc)
qed

lemma fnv_hash_inject: "fnv_hash h bs = fnv_hash h' bs \<Longrightarrow> h = h'"
proof (induction bs arbitrary: h h')
  case (Cons b bs)
  then have "(h XOR ucast b) * 1099511628211 = (h' XOR ucast b) * 1099511628211" by simp
  then show ?case by (rule fnv_round_inject [THEN xor_cancel])
qed simp

lemma fnv_hash_one_byte:
  "i < length bs \<Longrightarrow> b \<noteq> bs ! i \<Longrightarrow> fnv_hash h (bs[i := b]) \<noteq> fnv_hash h bs"
proof (induction bs arbitrary: i h)
  case (Cons x bs)
  show ?case
  proof (cases i)
    case 0
    show ?thesis
    proof
      assume "fnv_hash h ((x # bs)[i := b]) = fnv_hash h (x # bs)"
      then have "fnv_hash ((h XOR ucast b) * 1099511628211) bs = fnv_hash ((h XOR ucast x) * 1099511628211) bs"
        using 0 by simp
      then have "h XOR ucast b = h XOR ucast x" by (rule fnv_hash_inject [THEN fnv_round_inject])
      then have "ucast b XOR h = ucast x XOR h" by (simp only: xor.commute)
      then have "(ucast b :: 64 word) = ucast x" by (rule xor_cancel)
      then have "unat (ucast b :: 64 word) = unat (ucast x :: 64 word)" by simp
      then have "unat b = unat x" by (simp add: unat_ucast_widen)
      then have "b = x" by (rule unsigned_word_eqI)
      then show False using Cons.prems 0 by simp
    qed
  next
    case (Suc j)
    then show ?thesis using Cons by simp
  qed
qed simp

lemma metadata_checksum_bytes:
  "length bs = 48 \<Longrightarrow>
   metadata_checksum (meta_of_bytes bs) = fnv_hash 1469598103934665603 (take 40 bs @ replicate 8 0)"
  by (simp add: metadata_checksum_def blank_checksum_bytes)

definition valid_record :: "byte list \<Rightarrow> bool" where
  "valid_record bs \<longleftrightarrow> length bs = 48 \<and> md_checksum (meta_of_bytes bs) = metadata_checksum (meta_of_bytes bs)"

lemma seal_simps [simp]:
  "md_magic (seal m) = md_magic m" "md_version (seal m) = md_version m" "md_size (seal m) = md_size m"
  "md_state (seal m) = md_state m" "md_owner_pid (seal m) = md_owner_pid m"
  "md_owner_start_token (seal m) = md_owner_start_token m" "md_generation (seal m) = md_generation m"
  "md_checksum (seal m) = metadata_checksum (seal m)" "seal (seal m) = seal m"
  "metadata_checksum (seal m) = metadata_checksum m" "seal (m\<lparr>md_checksum := c\<rparr>) = seal m"
  by (simp_all add: seal_def metadata_checksum_def)

lemma seal_updates [simp]:
  "seal ((seal m)\<lparr>md_state := st\<rparr>) = seal (m\<lparr>md_state := st\<rparr>)"
  "seal ((seal m)\<lparr>md_state := st, md_owner_pid := p, md_owner_start_token := t\<rparr>) =
     seal (m\<lparr>md_state := st, md_owner_pid := p, md_owner_start_token := t\<rparr>)"
  "seal ((seal m)\<lparr>md_state := st, md_owner_pid := p, md_owner_start_token := t, md_generation := g\<rparr>) =
     seal (m\<lparr>md_state := st, md_owner_pid := p, md_owner_start_token := t, md_generation := g\<rparr>)"
  by (simp_all add: seal_def metadata_checksum_def)

lemma valid_record_seal [simp]: "valid_record (meta_bytes (seal m))"
  by (simp add: valid_record_def)

section \<open>The file\<close>

text \<open>The counter and the record of a file of full size, and their writes.\<close>

definition get_counter :: "byte list \<Rightarrow> nat \<Rightarrow> 32 word" where
  "get_counter file i = int_of_bytes (slice file (i * 4) 4)"

definition get_meta :: "byte list \<Rightarrow> MasterLockMetadataV1" where
  "get_meta file = meta_of_bytes (slice file MASTER_LOCK_METADATA_OFFSET 48)"

definition set_counter :: "nat \<Rightarrow> 32 word \<Rightarrow> byte list \<Rightarrow> byte list" where
  "set_counter i v file = splice file (i * 4) (int_bytes v)"

definition set_meta :: "MasterLockMetadataV1 \<Rightarrow> byte list \<Rightarrow> byte list" where
  "set_meta m file = splice file MASTER_LOCK_METADATA_OFFSET (meta_bytes (seal m))"

definition full_size :: "byte list \<Rightarrow> bool" where
  "full_size file \<longleftrightarrow> length file = MASTER_LOCK_FLOCK_SIZE"

lemmas layout_defs = MASTER_LOCK_FLOCK_SIZE_def MASTER_LOCK_METADATA_OFFSET_def HAKO_CONFIG_MAX_SEM_def

lemma full_size_writes [simp]:
  "full_size file \<Longrightarrow> i < HAKO_CONFIG_MAX_SEM \<Longrightarrow> full_size (set_counter i v file)"
  "full_size file \<Longrightarrow> full_size (set_meta m file)"
  by (simp_all add: full_size_def set_counter_def set_meta_def layout_defs)

lemma get_set_meta [simp]: "full_size file \<Longrightarrow> get_meta (set_meta m file) = seal m"
  by (simp add: get_meta_def set_meta_def slice_splice_same full_size_def layout_defs)

lemma get_set_counter [simp]:
  "full_size file \<Longrightarrow> i < HAKO_CONFIG_MAX_SEM \<Longrightarrow> j < HAKO_CONFIG_MAX_SEM \<Longrightarrow>
   get_counter (set_counter i v file) j = (if i = j then v else get_counter file j)"
proof (cases "i = j")
  case False
  assume "full_size file" and "i < HAKO_CONFIG_MAX_SEM" and "j < HAKO_CONFIG_MAX_SEM"
  moreover have "j * 4 + 4 \<le> i * 4 \<or> i * 4 + length (int_bytes v) \<le> j * 4" using False by auto
  ultimately have "slice (splice file (i * 4) (int_bytes v)) (j * 4) 4 = slice file (j * 4) 4"
    by (intro slice_splice_other) (simp_all add: full_size_def layout_defs)
  with False show ?thesis by (simp add: get_counter_def set_counter_def)
qed (simp add: get_counter_def set_counter_def slice_splice_same full_size_def layout_defs)

lemma get_meta_set_counter [simp]:
  "full_size file \<Longrightarrow> i < HAKO_CONFIG_MAX_SEM \<Longrightarrow> get_meta (set_counter i v file) = get_meta file"
  by (simp add: get_meta_def set_counter_def slice_splice_other full_size_def layout_defs)

lemma get_counter_set_meta [simp]:
  "full_size file \<Longrightarrow> i < HAKO_CONFIG_MAX_SEM \<Longrightarrow> get_counter (set_meta m file) i = get_counter file i"
  by (simp add: get_counter_def set_meta_def slice_splice_other full_size_def layout_defs)

text \<open>The operations on a handle without failing transfers.\<close>

lemma read_metadata_ok [simp]:
  "fl_faults h = [] \<Longrightarrow> full_size (fl_bytes h) \<Longrightarrow> read_metadata h = (Some (get_meta (fl_bytes h)), h)"
  by (simp add: read_metadata_def hako_flock_size_def next_fault_def get_meta_def full_size_def layout_defs)

lemma write_metadata_ok [simp]:
  "fl_faults h = [] \<Longrightarrow> full_size (fl_bytes h) \<Longrightarrow> write_metadata m h = (True, h\<lparr>fl_bytes := set_meta m (fl_bytes h)\<rparr>)"
  by (simp add: write_metadata_def set_meta_def full_size_def layout_defs)

lemma write_counter_ok [simp]:
  "fl_faults h = [] \<Longrightarrow> full_size (fl_bytes h) \<Longrightarrow> i < HAKO_CONFIG_MAX_SEM \<Longrightarrow>
   hako_flock_write_bytes (i * 4) (int_bytes v) h = (True, h\<lparr>fl_bytes := set_counter i v (fl_bytes h)\<rparr>)"
  by (simp add: set_counter_def full_size_def layout_defs)

lemma write_master_counter_ok [simp]:
  "fl_faults h = [] \<Longrightarrow> full_size (fl_bytes h) \<Longrightarrow>
   hako_flock_write_bytes 0 (int_bytes v) h = (True, h\<lparr>fl_bytes := set_counter 0 v (fl_bytes h)\<rparr>)"
  using write_counter_ok [of h 0 v] by (simp add: HAKO_CONFIG_MAX_SEM_def)

lemma inspect_locked_ok [simp]:
  "fl_faults h = [] \<Longrightarrow> full_size (fl_bytes h) \<Longrightarrow>
   inspect_locked os h = (judge os (get_counter (fl_bytes h) 0) (get_meta (fl_bytes h)), h)"
  by (simp add: inspect_locked_def get_counter_def full_size_def layout_defs)

section \<open>A verdict is based on an intact record\<close>

lemma judge_corrupt:
  "md_checksum m \<noteq> metadata_checksum m \<Longrightarrow> in_health (judge os c m) = Health_Unknown"
  by (simp add: judge_def blank_inspection_def Let_def)

text \<open>
  C34: The checksum detects every change of a single byte of the owner's record: if the
  record of a lock file is intact, then after any one of its bytes has been changed the
  inspection no longer calls the lock healthy nor its owner dead; the verdict is unknown,
  on which the lock fails stop.
\<close>

theorem one_byte_corruption_detected:
  assumes "full_size file" and "md_checksum (get_meta file) = metadata_checksum (get_meta file)"
    and "i < 48" and "b \<noteq> file ! (MASTER_LOCK_METADATA_OFFSET + i)"
  shows "in_health (judge os c (get_meta (file[MASTER_LOCK_METADATA_OFFSET + i := b]))) = Health_Unknown"
proof (rule judge_corrupt)
  let ?o = MASTER_LOCK_METADATA_OFFSET
  let ?bs = "slice file ?o 48"
  have len: "length ?bs = 48" "?o + i < length file" using assms(1,3) by (simp_all add: full_size_def layout_defs)
  have upd: "slice (file[?o + i := b]) ?o 48 = ?bs[i := b]"
    using len assms(3) by (simp add: slice_def drop_update_swap take_update_swap)
  have neq: "b \<noteq> ?bs ! i" using assms(1,3,4) by (simp add: slice_nth full_size_def layout_defs)
  have meta: "get_meta (file[?o + i := b]) = meta_of_bytes (?bs[i := b])" "get_meta file = meta_of_bytes ?bs"
    by (simp_all add: get_meta_def upd)
  have sums: "metadata_checksum (get_meta (file[?o + i := b])) = fnv_hash 1469598103934665603 (take 40 (?bs[i := b]) @ replicate 8 0)"
    "metadata_checksum (get_meta file) = fnv_hash 1469598103934665603 (take 40 ?bs @ replicate 8 0)"
    using metadata_checksum_bytes [of "?bs[i := b]"] metadata_checksum_bytes [OF len(1)] len(1) by (simp_all add: meta)
  show "md_checksum (get_meta (file[?o + i := b])) \<noteq> metadata_checksum (get_meta (file[?o + i := b]))"
  proof (cases "i < 40")
    case True
    then have "take 40 (?bs[i := b]) @ replicate 8 0 = (take 40 ?bs @ replicate 8 0)[i := b]"
      using len(1) by (simp add: take_update_swap list_update_append)
    moreover have "(take 40 ?bs @ replicate 8 0) ! i = ?bs ! i" using True len(1) by (simp add: nth_append)
    ultimately have "metadata_checksum (get_meta (file[?o + i := b])) \<noteq> metadata_checksum (get_meta file)"
      unfolding sums using fnv_hash_one_byte [of i "take 40 ?bs @ replicate 8 0" b] neq True len(1) by simp
    moreover have "slice (?bs[i := b]) 40 8 = slice ?bs 40 8" using True by (simp add: slice_def drop_update_cancel)
    then have "md_checksum (get_meta (file[?o + i := b])) = md_checksum (get_meta file)"
      by (simp add: meta meta_of_bytes_def)
    ultimately show ?thesis using assms(2) by simp
  next
    case False
    then have "take 40 (?bs[i := b]) = take 40 ?bs" by (simp add: take_update_cancel)
    then have same: "metadata_checksum (get_meta (file[?o + i := b])) = metadata_checksum (get_meta file)" using sums by simp
    have "slice (?bs[i := b]) 40 8 \<noteq> slice ?bs 40 8"
    proof
      assume "slice (?bs[i := b]) 40 8 = slice ?bs 40 8"
      then have "slice (?bs[i := b]) 40 8 ! (i - 40) = slice ?bs 40 8 ! (i - 40)" by simp
      then show False using False assms(3) len(1) neq by (simp add: slice_nth)
    qed
    then have "md_checksum (get_meta (file[?o + i := b])) \<noteq> md_checksum (get_meta file)"
      using bytes_le_word [of 8 "slice (?bs[i := b]) 40 8", where 'a = 64] bytes_le_word [of 8 "slice ?bs 40 8", where 'a = 64] len(1)
      by (auto simp: meta meta_of_bytes_def)
    then show ?thesis using same assms(2) by simp
  qed
qed

text \<open>The file that \<open>initialize_new_flock\<close> leaves.\<close>

definition fresh_file :: "byte list" where
  "fresh_file = set_meta new_metadata (set_counter 0 1 (replicate MASTER_LOCK_FLOCK_SIZE 0))"

lemma fresh_full [simp]: "full_size fresh_file"
proof -
  have "full_size (replicate MASTER_LOCK_FLOCK_SIZE 0)" by (simp add: full_size_def)
  then show ?thesis by (simp add: fresh_file_def HAKO_CONFIG_MAX_SEM_def)
qed

lemma fresh_meta [simp]: "get_meta fresh_file = new_metadata" "get_counter fresh_file 0 = 1"
proof -
  have full: "full_size (replicate MASTER_LOCK_FLOCK_SIZE 0)" by (simp add: full_size_def)
  show "get_meta fresh_file = new_metadata"
    using full by (simp add: fresh_file_def HAKO_CONFIG_MAX_SEM_def new_metadata_def)
  show "get_counter fresh_file 0 = 1"
    using full by (simp add: fresh_file_def HAKO_CONFIG_MAX_SEM_def)
qed

theorem one_byte_corruption_detected_witness:
  "in_health (judge demo_procs 1 (get_meta (fresh_file[MASTER_LOCK_METADATA_OFFSET + 8 :=
     fresh_file ! (MASTER_LOCK_METADATA_OFFSET + 8) + 1]))) = Health_Unknown"
  using one_byte_corruption_detected [of fresh_file 8 "fresh_file ! (MASTER_LOCK_METADATA_OFFSET + 8) + 1"]
  by (simp add: new_metadata_def)

end
