(* ===== verification/Hako_Lock_Calls.thy ===== *)
theory Hako_Lock_Calls
  imports Hako_Lock_File
begin

text \<open>
  Calls of the master lock: no path leaves the file lock of the system held, whatever
  transfers fail; a lock and its release leave the file as it was but for the generation;
  and a set-up file is free.
\<close>

section \<open>The file lock is always given back\<close>

definition same_lock :: "HakoFlockObject \<Rightarrow> HakoFlockObject \<Rightarrow> bool" where
  "same_lock h h' \<longleftrightarrow> lock_count h' = lock_count h \<and> os_locked h' = os_locked h"

definition unlocked :: "HakoFlockObject \<Rightarrow> bool" where
  "unlocked h \<longleftrightarrow> lock_count h = 0 \<and> \<not> os_locked h"

definition held_once :: "HakoFlockObject \<Rightarrow> bool" where
  "held_once h \<longleftrightarrow> lock_count h = 1"

lemma release_once [simp]: "held_once h \<Longrightarrow> unlocked (hako_flock_release h)"
  by (simp add: held_once_def unlocked_def hako_flock_release_def)

lemma next_fault_count [simp]: "lock_count (snd (next_fault h)) = lock_count h"
  by (simp add: next_fault_def split: list.split)

lemma transfers_keep_count [simp]:
  "held_once (snd (hako_flock_write_bytes off data h)) = held_once h"
  "held_once (snd (hako_flock_read_bytes off n h)) = held_once h"
  "held_once (snd (read_metadata h)) = held_once h"
  "held_once (snd (write_metadata m h)) = held_once h"
  by (simp_all add: held_once_def hako_flock_write_bytes_def hako_flock_read_bytes_def read_metadata_def
      write_metadata_def hako_flock_size_def Let_def split_beta)

lemma inspect_keeps_count [simp]: "held_once (snd (inspect_locked os h)) = held_once h"
  by (simp add: inspect_locked_def case_prod_beta split: option.split)

lemma take_releases: "held_once h \<Longrightarrow> unlocked (snd (take_master_lock owner r h))"
  by (simp add: take_master_lock_def Let_def case_prod_beta split: option.split)

lemma give_releases: "held_once h \<Longrightarrow> unlocked (snd (give_master_lock r h))"
  by (simp add: give_master_lock_def Let_def case_prod_beta split: option.split)

text \<open>A body under the file lock that gives it back, run on an unlocked handle.\<close>

lemma with_flock_releases:
  assumes "unlocked h" and "with_flock env h fail body = Some (r, h')"
    and "\<And>h. held_once h \<Longrightarrow> unlocked (snd (body h))"
  shows "unlocked h'"
proof -
  obtain e h1 where a: "hako_flock_acquire (se_wait env) (se_attempt_start env) (se_attempts env) h = Some (e, h1)"
    using assms(2) by (auto simp: with_flock_def split: option.splits)
  have "if e = None then held_once h1 else h1 = h"
    using a assms(1) by (auto simp: hako_flock_acquire_def unlocked_def held_once_def split: option.splits if_splits)
  then show ?thesis
    using assms(1,2) a assms(3) [of h1] by (auto simp: with_flock_def split: option.splits if_splits)
qed

lemma master_lock_turn_releases:
  assumes "unlocked h" and "master_lock_turn owner env h = Some (t, h')"
  shows "unlocked h'"
  using assms(2) unfolding master_lock_turn_def
  by (rule with_flock_releases [OF assms(1)]) (simp_all add: case_prod_beta take_releases)

lemma unlock_releases:
  assumes "unlocked h" and "flock_master_unlock env h = Some (t, h')"
  shows "unlocked h'"
proof (cases "hako_current_process_identity (se_procs env)")
  case None
  then show ?thesis using assms by (simp add: flock_master_unlock_def)
next
  case (Some owner)
  from assms(2) show ?thesis
    unfolding flock_master_unlock_def Some option.case
    by (rule with_flock_releases [OF assms(1)]) (simp_all add: case_prod_beta give_releases)
qed

lemma wait_loop_releases:
  assumes "wait_loop env started others body k h = Some r"
    and "\<forall>env h t h'. unlocked h \<longrightarrow> body env h = Some (t, h') \<longrightarrow> unlocked h'"
    and "\<forall>k h. unlocked h \<longrightarrow> unlocked (others k h)" and "unlocked h"
  shows "unlocked (snd r)"
proof -
  have "(\<forall>env h t h'. unlocked h \<longrightarrow> body env h = Some (t, h') \<longrightarrow> unlocked h') \<longrightarrow>
      (\<forall>k h. unlocked h \<longrightarrow> unlocked (others k h)) \<longrightarrow> unlocked h \<longrightarrow> unlocked (snd r)"
    using assms(1)
  proof (rule wait_loop.raw_induct [rotated], goal_cases)
    case (1 loop env started others body k h r)
    show ?case
    proof (intro impI)
      assume a: "\<forall>env h t h'. unlocked h \<longrightarrow> body env h = Some (t, h') \<longrightarrow> unlocked h'"
        "\<forall>k h. unlocked h \<longrightarrow> unlocked (others k h)" "unlocked h"
      have u: "unlocked h1" if "body (env k) (others k h) = Some (t, h1)" for t h1 using a that by blast
      show "unlocked (snd r)"
      proof (cases "hako_flock_wait_checkpoint (se_wait (env k)) started (fst (se_before (env k))) (snd (se_before (env k)))")
        case None
        with 1(2) obtain t h1 where b: "body (env k) (others k h) = Some (t, h1)"
          by (cases "body (env k) (others k h)") auto
        have again: "unlocked (snd r)" if "loop env started others body (Suc k) h1 = Some r"
          using 1(1) [OF that] a(1,2) u [OF b] by blast
        show ?thesis
          using 1(2) None b u [OF b] again by (cases t) (auto split: option.splits)
      qed (use 1(2) a(3) in auto)
    qed
  qed
  then show ?thesis using assms by blast
qed

section \<open>A call that finds the lock free\<close>

definition flock_free :: "sem_env \<Rightarrow> bool" where
  "flock_free env \<longleftrightarrow> \<not> wait_enabled (se_wait env) \<and> at_result (se_attempts env 0) = Flock_Ok"

definition healthy :: "MasterLockMetadataV1 \<Rightarrow> bool" where
  "healthy m \<longleftrightarrow> md_magic m = MASTER_LOCK_MAGIC \<and> md_version m = MASTER_LOCK_VERSION \<and> md_size m = 48 \<and>
     md_checksum m = metadata_checksum m"

definition free_lock :: "byte list \<Rightarrow> bool" where
  "free_lock file \<longleftrightarrow> full_size file \<and> get_counter file 0 = 1 \<and> healthy (get_meta file) \<and>
     md_state (get_meta file) = state_code Lock_Unlocked \<and> md_owner_pid (get_meta file) = 0 \<and>
     md_owner_start_token (get_meta file) = 0"

lemma healthy_seal [simp]:
  "healthy (seal (m\<lparr>md_state := st\<rparr>)) \<longleftrightarrow> healthy (seal m)"
  "healthy (seal (m\<lparr>md_state := st, md_owner_pid := p, md_owner_start_token := t\<rparr>)) \<longleftrightarrow> healthy (seal m)"
  "healthy (seal (m\<lparr>md_state := st, md_owner_pid := p, md_owner_start_token := t, md_generation := g\<rparr>)) \<longleftrightarrow> healthy (seal m)"
  by (simp_all add: healthy_def)

lemma healthy_is_sealed: "healthy m \<Longrightarrow> seal m = m"
  by (simp add: healthy_def seal_def)

lemma free_acquire [simp]:
  "flock_free env \<Longrightarrow> unlocked h \<Longrightarrow>
   with_flock env h fail body = Some (body (h\<lparr>lock_count := 1, os_locked := True\<rparr>))"
proof -
  assume env: "flock_free env" and h: "unlocked h"
  have "acquire_blocking (se_attempts env) 0 = Some None"
    using env by (subst acquire_blocking.simps) (simp add: flock_free_def)
  then show ?thesis using env h by (simp add: with_flock_def hako_flock_acquire_def flock_free_def unlocked_def)
qed

lemma judge_free:
  assumes "healthy m" and "md_state m = state_code Lock_Unlocked" and "md_owner_pid m = 0" and "md_owner_start_token m = 0"
  shows "judge os 1 m = blank_inspection\<lparr>in_counter := 1, in_generation := md_generation m,
    in_health := Health_Ok, in_reason := ''master lock is unlocked''\<rparr>"
  using assms by (simp add: judge_def healthy_def Let_def blank_inspection_def state_of_code_def)

lemma judge_held:
  assumes "healthy m" and "md_state m = state_code st" and "st \<noteq> Lock_Unlocked"
  shows "in_state (judge os c m) = st" and "in_owner_pid (judge os c m) = md_owner_pid m"
    and "in_owner_start_token (judge os c m) = md_owner_start_token m"
    and "in_health (judge os c m) = (case hako_check_process_identity os
        \<lparr>pi_pid = sint (md_owner_pid m), pi_start_token = md_owner_start_token m\<rparr> of
          Dead \<Rightarrow> Health_Abort | Unknown \<Rightarrow> Health_Unknown
        | Alive \<Rightarrow> if st = Lock_Locked \<and> c = 0 then Health_Ok else Health_Unknown)"
proof -
  have code: "state_of_code (state_code st) = st" "\<not> state_code st > state_code Lock_Releasing"
    by (cases st; simp add: state_of_code_def)+
  note j = judge_def [of os c m] Let_def
  show "in_state (judge os c m) = st" "in_owner_pid (judge os c m) = md_owner_pid m"
    "in_owner_start_token (judge os c m) = md_owner_start_token m"
    using assms code by (simp_all add: j healthy_def split: HakoProcessIdentityStatus.split)
  show "in_health (judge os c m) = (case hako_check_process_identity os
        \<lparr>pi_pid = sint (md_owner_pid m), pi_start_token = md_owner_start_token m\<rparr> of
          Dead \<Rightarrow> Health_Abort | Unknown \<Rightarrow> Health_Unknown
        | Alive \<Rightarrow> if st = Lock_Locked \<and> c = 0 then Health_Ok else Health_Unknown)"
    using assms code by (simp add: j healthy_def blank_inspection_def split: HakoProcessIdentityStatus.split)
qed

text \<open>The file after the writes of an acquisition and of a release.\<close>

definition acquired_meta :: "HakoProcessIdentity \<Rightarrow> MasterLockState \<Rightarrow> MasterLockMetadataV1 \<Rightarrow> MasterLockMetadataV1" where
  "acquired_meta owner st m = m\<lparr>md_state := state_code st, md_owner_pid := of_int (pi_pid owner),
     md_owner_start_token := pi_start_token owner, md_generation := md_generation m + 1\<rparr>"

definition acquired_file :: "HakoProcessIdentity \<Rightarrow> byte list \<Rightarrow> byte list" where
  "acquired_file owner file =
    (let m = get_meta file
     in set_meta (acquired_meta owner Lock_Locked m) (set_counter 0 0 (set_meta (acquired_meta owner Lock_Acquiring m) file)))"

definition released_file :: "byte list \<Rightarrow> byte list" where
  "released_file file =
    (let m = get_meta file
     in set_meta (m\<lparr>md_state := state_code Lock_Unlocked, md_owner_pid := 0, md_owner_start_token := 0\<rparr>)
          (set_counter 0 1 (set_meta (m\<lparr>md_state := state_code Lock_Releasing\<rparr>) file)))"

lemma max_sem_pos [simp]: "0 < HAKO_CONFIG_MAX_SEM"
  by (simp add: HAKO_CONFIG_MAX_SEM_def)

lemma acquired_commit: "(acquired_meta owner a m)\<lparr>md_state := state_code b\<rparr> = acquired_meta owner b m"
  by (cases m) (simp add: acquired_meta_def)

lemma take_master_lock_ok:
  assumes "fl_faults h = []" and "full_size (fl_bytes h)"
  shows "take_master_lock owner r h =
    (Turn_Done, hako_flock_release (h\<lparr>fl_bytes := acquired_file owner (fl_bytes h)\<rparr>))"
  using assms
  by (simp add: take_master_lock_def acquired_file_def acquired_commit Let_def del: state_code.simps flip: acquired_meta_def)

lemma give_master_lock_ok:
  assumes "fl_faults h = []" and "full_size (fl_bytes h)"
  shows "give_master_lock r h = (Turn_Done, hako_flock_release (h\<lparr>fl_bytes := released_file (fl_bytes h)\<rparr>))"
  using assms by (simp add: give_master_lock_def released_file_def Let_def)

lemma acquired_file_gets:
  assumes "full_size file"
  shows "full_size (acquired_file owner file)" and "get_counter (acquired_file owner file) 0 = 0"
    and "get_meta (acquired_file owner file) = seal (acquired_meta owner Lock_Locked (get_meta file))"
    and "0 < i \<Longrightarrow> i < HAKO_CONFIG_MAX_SEM \<Longrightarrow> get_counter (acquired_file owner file) i = get_counter file i"
  using assms by (simp_all add: acquired_file_def Let_def)

lemma released_file_gets:
  assumes "full_size file"
  shows "full_size (released_file file)" and "get_counter (released_file file) 0 = 1"
    and "get_meta (released_file file) =
      seal ((get_meta file)\<lparr>md_state := state_code Lock_Unlocked, md_owner_pid := 0, md_owner_start_token := 0\<rparr>)"
    and "0 < i \<Longrightarrow> i < HAKO_CONFIG_MAX_SEM \<Longrightarrow> get_counter (released_file file) i = get_counter file i"
  using assms by (simp_all add: released_file_def Let_def del: state_code.simps)

lemma acquired_healthy: "healthy m \<Longrightarrow> healthy (seal (acquired_meta owner st m))"
  by (simp add: healthy_def acquired_meta_def)

lemma sint_of_pid:
  assumes "0 < pid" and "pid < 2 ^ 63"
  shows "sint (of_int pid :: 64 word) = pid"
  using assms by (simp add: sint_sbintrunc' signed_take_bit_int_eq_self)

section \<open>Properties\<close>

text \<open>
  C31: Every path of the master lock gives the lock of the file back: on success, when it
  waits, when the inspection fails stop and when any read, write or query of the size fails, the
  handle that was not locked before is not locked afterwards, for \<open>master_lock\<close> and for
  \<open>master_unlock\<close>; so an error of one process never blocks the others at the file lock.
\<close>

theorem file_lock_always_released:
  assumes "unlocked h" and "\<forall>k h. unlocked h \<longrightarrow> unlocked (others k h)"
    and "flock_master_lock env started others h = Some (e, h1)" and "flock_master_unlock env' h1 = Some (t, h2)"
  shows "unlocked h1 \<and> unlocked h2"
proof -
  have "unlocked h1"
  proof (cases "hako_current_process_identity (se_procs (env 0))")
    case None
    then show ?thesis using assms(1,3) by (simp add: flock_master_lock_def)
  next
    case (Some owner)
    then have "wait_loop env started others (master_lock_turn owner) 0 h = Some (e, h1)"
      using assms(3) by (simp add: flock_master_lock_def)
    from wait_loop_releases [OF this _ assms(2,1)] master_lock_turn_releases show ?thesis by auto
  qed
  then show ?thesis using unlock_releases [OF _ assms(4)] by blast
qed

definition demo_sem_env :: sem_env where
  "demo_sem_env = \<lparr>se_wait = initial_wait, se_attempts = (\<lambda>_. \<lparr>at_now = 0, at_interrupted = False, at_result = Flock_Ok\<rparr>),
     se_attempt_start = 0, se_before = (0, False), se_after = (0, False), se_procs = demo_procs\<rparr>"

definition demo_lock :: HakoFlockObject where
  "demo_lock = new_handle False fresh_file"

lemma demo_lock_facts:
  "flock_free demo_sem_env" "se_procs demo_sem_env = demo_procs" "unlocked demo_lock" "fl_faults demo_lock = []"
  "free_lock (fl_bytes demo_lock)"
  by (simp_all add: flock_free_def demo_sem_env_def initial_wait_def demo_lock_def new_handle_def unlocked_def
      free_lock_def new_metadata_def healthy_def)

text \<open>A process table in which the own process cannot be found: both calls throw.\<close>

theorem file_lock_always_released_witness:
  "\<exists>h1 h2. flock_master_lock (\<lambda>_. demo_sem_env\<lparr>se_procs := demo_procs\<lparr>os_stat_line := \<lambda>_. None\<rparr>\<rparr>) 0 (\<lambda>_ h. h) demo_lock =
      Some (Some no_identity, h1) \<and> unlocked h1 \<and> unlocked h2"
proof -
  let ?env = "demo_sem_env\<lparr>se_procs := demo_procs\<lparr>os_stat_line := \<lambda>_. None\<rparr>\<rparr>"
  have none: "hako_current_process_identity (se_procs ?env) = None"
    by (simp add: hako_current_process_identity_def process_start_token_def)
  then have "flock_master_lock (\<lambda>_. ?env) 0 (\<lambda>_ h. h) demo_lock = Some (Some no_identity, demo_lock)"
    "flock_master_unlock ?env demo_lock = Some (Turn_Throw no_identity, demo_lock)"
    by (simp_all add: flock_master_lock_def flock_master_unlock_def)
  then show ?thesis
    using file_lock_always_released [of demo_lock "\<lambda>_ h. h" "\<lambda>_. ?env" 0 _ demo_lock ?env] demo_lock_facts(3) by blast
qed

text \<open>
  C30: A lock of a free, healthy file by a live process succeeds, records the caller as its
  owner, and is then seen as held by a live process; its release succeeds and leaves the
  file as it was before but for the generation, which has grown by one. The counters of the
  assets keep their values throughout.
\<close>

theorem master_lock_unlock_roundtrip:
  assumes env: "flock_free env" and owner: "hako_current_process_identity (se_procs env) = Some owner"
    "hako_check_process_identity (se_procs env) owner = Alive" "0 < pi_pid owner" "pi_pid owner < 2 ^ 63"
    and h: "unlocked h" "fl_faults h = []" "free_lock (fl_bytes h)"
  shows "\<exists>h1 h2. flock_master_lock (\<lambda>_. env) started (\<lambda>_ h. h) h = Some (None, h1) \<and>
    in_health (judge (se_procs env) (get_counter (fl_bytes h1) 0) (get_meta (fl_bytes h1))) = Health_Ok \<and>
    md_owner_pid (get_meta (fl_bytes h1)) = of_int (pi_pid owner) \<and>
    md_owner_start_token (get_meta (fl_bytes h1)) = pi_start_token owner \<and>
    flock_master_unlock env h1 = Some (Turn_Done, h2) \<and> free_lock (fl_bytes h2) \<and>
    get_meta (fl_bytes h2) = seal ((get_meta (fl_bytes h))\<lparr>md_generation := md_generation (get_meta (fl_bytes h)) + 1\<rparr>) \<and>
    (\<forall>i < HAKO_CONFIG_MAX_SEM. get_counter (fl_bytes h2) i = get_counter (fl_bytes h) i)"
proof -
  let ?f = "fl_bytes h" and ?m = "get_meta (fl_bytes h)"
  have f: "full_size ?f" "get_counter ?f 0 = 1" "healthy ?m" "md_state ?m = state_code Lock_Unlocked"
    "md_owner_pid ?m = 0" "md_owner_start_token ?m = 0" using h(3) by (simp_all add: free_lock_def)
  let ?h1 = "hako_flock_release (h\<lparr>lock_count := 1, os_locked := True, fl_bytes := acquired_file owner ?f\<rparr>)"
  have chk: "hako_flock_wait_checkpoint (se_wait env) started now i = None" for now i
    using env by (simp add: flock_free_def hako_flock_wait_checkpoint_def)
  have "master_lock_turn owner env h = Some (Turn_Done, ?h1)"
    using env h(1,2) f judge_free [OF f(3-6)] take_master_lock_ok [of "h\<lparr>lock_count := 1, os_locked := True\<rparr>" owner]
    by (simp add: master_lock_turn_def blank_inspection_def del: state_code.simps)
  then have lock: "flock_master_lock (\<lambda>_. env) started (\<lambda>_ h. h) h = Some (None, ?h1)"
    using owner(1) chk by (subst flock_master_lock_def, subst wait_loop.simps) simp
  let ?f1 = "acquired_file owner ?f"
  note g1 = acquired_file_gets [OF f(1), where owner = owner]
  have h1: "unlocked ?h1" "fl_faults ?h1 = []" "fl_bytes ?h1 = ?f1"
    using h(1,2) by (simp_all add: hako_flock_release_def unlocked_def)
  have m1: "healthy (get_meta ?f1)" "md_state (get_meta ?f1) = state_code Lock_Locked"
    "md_owner_pid (get_meta ?f1) = of_int (pi_pid owner)" "md_owner_start_token (get_meta ?f1) = pi_start_token owner"
    unfolding g1(3) using acquired_healthy [OF f(3)] by (simp_all add: acquired_meta_def)
  have id: "\<lparr>pi_pid = sint (md_owner_pid (get_meta ?f1)), pi_start_token = md_owner_start_token (get_meta ?f1)\<rparr> = owner"
    using sint_of_pid [OF owner(3,4)] by (simp add: m1(3,4))
  note j1 = judge_held [OF m1(1,2), of "se_procs env" 0, simplified id]
  have ok1: "in_health (judge (se_procs env) 0 (get_meta ?f1)) = Health_Ok" using j1(4) owner(2) by simp
  let ?h2 = "hako_flock_release (?h1\<lparr>lock_count := 1, os_locked := True, fl_bytes := released_file ?f1\<rparr>)"
  have unlock: "flock_master_unlock env ?h1 = Some (Turn_Done, ?h2)"
    using env owner(1) h1 g1(1,2) ok1 j1(1-3) m1(3,4)
      give_master_lock_ok [of "?h1\<lparr>lock_count := 1, os_locked := True\<rparr>"]
    by (simp add: flock_master_unlock_def)
  note g2 = released_file_gets [OF g1(1)]
  have b2: "fl_bytes ?h2 = released_file ?f1" by (simp add: hako_flock_release_def Let_def)
  have m2: "get_meta (released_file ?f1) = seal (?m\<lparr>md_generation := md_generation ?m + 1\<rparr>)"
    unfolding g2(3) g1(3) using f(4-6) by (cases ?m) (simp add: acquired_meta_def seal_def metadata_checksum_def)
  have "free_lock (released_file ?f1)"
    using g2(1,2) f(3-6) by (simp add: free_lock_def m2 healthy_def)
  moreover have "get_counter (released_file ?f1) i = get_counter ?f i" if "i < HAKO_CONFIG_MAX_SEM" for i
    using that g2(2,4) g1(4) f(2) by (cases "i = 0") simp_all
  ultimately show ?thesis
    using lock unlock h1(3) b2 m1(3,4) m2 ok1 g1(2) by (intro exI [of _ ?h1] exI [of _ ?h2]) simp
qed

theorem master_lock_unlock_roundtrip_witness:
  "\<exists>h1 h2. flock_master_lock (\<lambda>_. demo_sem_env) 0 (\<lambda>_ h. h) demo_lock = Some (None, h1) \<and>
    flock_master_unlock demo_sem_env h1 = Some (Turn_Done, h2) \<and> free_lock (fl_bytes h2)"
  using master_lock_unlock_roundtrip [of demo_sem_env "\<lparr>pi_pid = 42, pi_start_token = 777\<rparr>" demo_lock 0]
    demo_lock_facts demo_identity by auto

end
