(* ===== verification/Hako_Lock_Protocol.thy ===== *)
theory Hako_Lock_Protocol
  imports Hako_Lock_Calls
begin

text \<open>
  The master lock between processes that may die at any point. Each write of
  \<open>master_lock\<close> and \<open>master_unlock\<close> is a step, the file lock of the system is released when
  its holder dies, and the record of the owner tells the survivors. The theorems: at most
  one process is inside; a process that dies as the owner is reported as such and nobody
  enters any more; and while nobody dies the lock is healthy whenever the file is free.
\<close>

section \<open>The processes and the file\<close>

datatype lock_pc =
    P_Out | P_Ready | P_Acquiring | P_Counter0 | P_Locked | P_Inside
  | P_Leaving | P_Releasing | P_Counter1 | P_Unlocked | P_Failed | P_Dead

record 'p lock_sys =
  l_file :: "byte list"
  l_os :: "'p option"
  l_pc :: "'p \<Rightarrow> lock_pc"

definition dead :: "'p lock_sys \<Rightarrow> 'p set" where
  "dead s = {p. l_pc s p = P_Dead}"

text \<open>What \<open>inspect_locked\<close> returns in the present state of file and process table.\<close>

definition verdict :: "('p set \<Rightarrow> os_procs) \<Rightarrow> 'p lock_sys \<Rightarrow> MasterLockInspection" where
  "verdict table s = judge (table (dead s)) (get_counter (l_file s) 0) (get_meta (l_file s))"

definition goto :: "'p \<Rightarrow> lock_pc \<Rightarrow> 'p lock_sys \<Rightarrow> 'p lock_sys" where
  "goto p pc s = s\<lparr>l_pc := (l_pc s)(p := pc)\<rparr>"

text \<open>The death of a process; the system takes its file lock away.\<close>

definition crash :: "'p \<Rightarrow> 'p lock_sys \<Rightarrow> 'p lock_sys" where
  "crash p s = goto p P_Dead (s\<lparr>l_os := (if l_os s = Some p then None else l_os s)\<rparr>)"

text \<open>
  The first three rules are the outcomes of a turn of \<open>master_lock\<close> that does not write;
  the next ones are the three writes, the release of the file lock, and the same for
  \<open>master_unlock\<close>. The writes succeed here; that a failing write stops its caller with the file
  lock released is shown of the calls in \<open>Hako_Lock_Calls\<close>.
\<close>

inductive lock_step :: "('p \<Rightarrow> HakoProcessIdentity) \<Rightarrow> ('p set \<Rightarrow> os_procs) \<Rightarrow> 'p lock_sys \<Rightarrow> 'p lock_sys \<Rightarrow> bool"
  for ident table where
  l_free: "l_pc s p = P_Out \<Longrightarrow> l_os s = None \<Longrightarrow> in_health (verdict table s) = Health_Ok \<Longrightarrow>
     in_state (verdict table s) = Lock_Unlocked \<Longrightarrow> in_counter (verdict table s) = 1 \<Longrightarrow>
     lock_step ident table s (goto p P_Ready (s\<lparr>l_os := Some p\<rparr>))"
| l_busy: "l_pc s p = P_Out \<Longrightarrow> l_os s = None \<Longrightarrow> in_health (verdict table s) = Health_Ok \<Longrightarrow>
     \<not> (in_state (verdict table s) = Lock_Unlocked \<and> in_counter (verdict table s) = 1) \<Longrightarrow>
     lock_step ident table s s"
| l_fail: "l_pc s p = P_Out \<Longrightarrow> l_os s = None \<Longrightarrow> in_health (verdict table s) \<noteq> Health_Ok \<Longrightarrow>
     lock_step ident table s (goto p P_Failed s)"
| l_acquiring: "l_pc s p = P_Ready \<Longrightarrow>
     lock_step ident table s (goto p P_Acquiring
       (s\<lparr>l_file := set_meta (acquired_meta (ident p) Lock_Acquiring (get_meta (l_file s))) (l_file s)\<rparr>))"
| l_counter0: "l_pc s p = P_Acquiring \<Longrightarrow>
     lock_step ident table s (goto p P_Counter0 (s\<lparr>l_file := set_counter 0 0 (l_file s)\<rparr>))"
| l_locked: "l_pc s p = P_Counter0 \<Longrightarrow>
     lock_step ident table s (goto p P_Locked
       (s\<lparr>l_file := set_meta ((get_meta (l_file s))\<lparr>md_state := state_code Lock_Locked\<rparr>) (l_file s)\<rparr>))"
| l_entered: "l_pc s p = P_Locked \<Longrightarrow> lock_step ident table s (goto p P_Inside (s\<lparr>l_os := None\<rparr>))"
| l_leave: "l_pc s p = P_Inside \<Longrightarrow> l_os s = None \<Longrightarrow> in_health (verdict table s) = Health_Ok \<Longrightarrow>
     in_state (verdict table s) = Lock_Locked \<Longrightarrow> in_owner_pid (verdict table s) = of_int (pi_pid (ident p)) \<Longrightarrow>
     in_owner_start_token (verdict table s) = pi_start_token (ident p) \<Longrightarrow>
     lock_step ident table s (goto p P_Leaving (s\<lparr>l_os := Some p\<rparr>))"
| l_leave_fail: "l_pc s p = P_Inside \<Longrightarrow> l_os s = None \<Longrightarrow>
     \<not> (in_health (verdict table s) = Health_Ok \<and> in_state (verdict table s) = Lock_Locked \<and>
        in_owner_pid (verdict table s) = of_int (pi_pid (ident p)) \<and>
        in_owner_start_token (verdict table s) = pi_start_token (ident p)) \<Longrightarrow>
     lock_step ident table s (goto p P_Failed s)"
| l_releasing: "l_pc s p = P_Leaving \<Longrightarrow>
     lock_step ident table s (goto p P_Releasing
       (s\<lparr>l_file := set_meta ((get_meta (l_file s))\<lparr>md_state := state_code Lock_Releasing\<rparr>) (l_file s)\<rparr>))"
| l_counter1: "l_pc s p = P_Releasing \<Longrightarrow>
     lock_step ident table s (goto p P_Counter1 (s\<lparr>l_file := set_counter 0 1 (l_file s)\<rparr>))"
| l_unlocked: "l_pc s p = P_Counter1 \<Longrightarrow>
     lock_step ident table s (goto p P_Unlocked
       (s\<lparr>l_file := set_meta ((get_meta (l_file s))\<lparr>md_state := state_code Lock_Unlocked, md_owner_pid := 0,
          md_owner_start_token := 0\<rparr>) (l_file s)\<rparr>))"
| l_left: "l_pc s p = P_Unlocked \<Longrightarrow> lock_step ident table s (goto p P_Out (s\<lparr>l_os := None\<rparr>))"
| l_crash: "l_pc s p \<noteq> P_Dead \<Longrightarrow> lock_step ident table s (crash p s)"

inductive lock_reach :: "('p \<Rightarrow> HakoProcessIdentity) \<Rightarrow> ('p set \<Rightarrow> os_procs) \<Rightarrow> 'p lock_sys \<Rightarrow> 'p lock_sys \<Rightarrow> bool"
  for ident table s0 where
  lock_start: "lock_reach ident table s0 s0"
| lock_next: "lock_reach ident table s0 s \<Longrightarrow> lock_step ident table s s' \<Longrightarrow> lock_reach ident table s0 s'"

definition lock_init :: "'p lock_sys \<Rightarrow> bool" where
  "lock_init s \<longleftrightarrow> free_lock (l_file s) \<and> l_os s = None \<and> l_pc s = (\<lambda>_. P_Out)"

text \<open>The writes of the steps are the writes of the calls.\<close>

lemma set_meta_sealed [simp]:
  "set_meta ((seal m)\<lparr>md_state := st\<rparr>) f = set_meta (m\<lparr>md_state := st\<rparr>) f"
  "set_meta ((seal m)\<lparr>md_state := st, md_owner_pid := p, md_owner_start_token := t\<rparr>) f =
     set_meta (m\<lparr>md_state := st, md_owner_pid := p, md_owner_start_token := t\<rparr>) f"
  by (simp_all add: set_meta_def)

lemma acquired_file_steps:
  assumes "full_size file"
  shows "acquired_file owner file =
    (let f1 = set_meta (acquired_meta owner Lock_Acquiring (get_meta file)) file; f2 = set_counter 0 0 f1
     in set_meta ((get_meta f2)\<lparr>md_state := state_code Lock_Locked\<rparr>) f2)"
  using assms by (simp add: acquired_file_def Let_def acquired_commit del: state_code.simps)

lemma released_file_steps:
  assumes "full_size file"
  shows "released_file file =
    (let f1 = set_meta ((get_meta file)\<lparr>md_state := state_code Lock_Releasing\<rparr>) file; f2 = set_counter 0 1 f1
     in set_meta ((get_meta f2)\<lparr>md_state := state_code Lock_Unlocked, md_owner_pid := 0, md_owner_start_token := 0\<rparr>) f2)"
  using assms by (simp add: released_file_def Let_def del: state_code.simps)

section \<open>What the lock relies on\<close>

text \<open>
  The process table: identities are told apart by their stored form, and the check of an
  identity says whether the process is dead.
\<close>

locale process_table =
  fixes ident :: "'p \<Rightarrow> HakoProcessIdentity" and table :: "'p set \<Rightarrow> os_procs"
  assumes inj_ident: "ident p = ident q \<Longrightarrow> p = q" and pid_range: "0 < pi_pid (ident p)" "pi_pid (ident p) < 2 ^ 63"
    and check_identity: "hako_check_process_identity (table D) (ident p) = (if p \<in> D then Dead else Alive)"

text \<open>The owner that the file names, with the progress of its writes.\<close>

datatype stage = Stage_A | Stage_B | Stage_C | Stage_D | Stage_E

fun stage_state :: "stage \<Rightarrow> MasterLockState" where
  "stage_state Stage_A = Lock_Acquiring"
| "stage_state Stage_B = Lock_Acquiring"
| "stage_state Stage_C = Lock_Locked"
| "stage_state Stage_D = Lock_Releasing"
| "stage_state Stage_E = Lock_Releasing"

fun stage_counter :: "stage \<Rightarrow> 32 word" where
  "stage_counter Stage_A = 1"
| "stage_counter Stage_B = 0"
| "stage_counter Stage_C = 0"
| "stage_counter Stage_D = 0"
| "stage_counter Stage_E = 1"

fun pc_stage :: "lock_pc \<Rightarrow> stage option" where
  "pc_stage P_Acquiring = Some Stage_A"
| "pc_stage P_Counter0 = Some Stage_B"
| "pc_stage P_Locked = Some Stage_C"
| "pc_stage P_Inside = Some Stage_C"
| "pc_stage P_Leaving = Some Stage_C"
| "pc_stage P_Releasing = Some Stage_D"
| "pc_stage P_Counter1 = Some Stage_E"
| "pc_stage _ = None"

definition holds_os :: "lock_pc \<Rightarrow> bool" where
  "holds_os pc \<longleftrightarrow> pc \<in> {P_Ready, P_Acquiring, P_Counter0, P_Locked, P_Leaving, P_Releasing, P_Counter1, P_Unlocked}"

definition names_owner :: "HakoProcessIdentity \<Rightarrow> stage \<Rightarrow> byte list \<Rightarrow> bool" where
  "names_owner owner st file \<longleftrightarrow> full_size file \<and> healthy (get_meta file) \<and>
     md_state (get_meta file) = state_code (stage_state st) \<and> get_counter file 0 = stage_counter st \<and>
     md_owner_pid (get_meta file) = of_int (pi_pid owner) \<and> md_owner_start_token (get_meta file) = pi_start_token owner"

definition file_says :: "('p \<Rightarrow> HakoProcessIdentity) \<Rightarrow> ('p \<times> stage) option \<Rightarrow> byte list \<Rightarrow> bool" where
  "file_says ident ow file = (case ow of None \<Rightarrow> free_lock file | Some (p, st) \<Rightarrow> names_owner (ident p) st file)"

definition procs_ok :: "('p \<times> stage) option \<Rightarrow> 'p option \<Rightarrow> ('p \<Rightarrow> lock_pc) \<Rightarrow> bool" where
  "procs_ok ow os pc \<longleftrightarrow>
     (\<forall>p. pc p = P_Ready \<longrightarrow> ow = None) \<and> (\<forall>p st. pc_stage (pc p) = Some st \<longrightarrow> ow = Some (p, st)) \<and>
     (\<forall>p st. ow = Some (p, st) \<longrightarrow> pc p = P_Dead \<or> pc_stage (pc p) = Some st) \<and>
     (\<forall>p. holds_os (pc p) \<longrightarrow> os = Some p)"

definition lock_inv :: "('p \<Rightarrow> HakoProcessIdentity) \<Rightarrow> 'p lock_sys \<Rightarrow> bool" where
  "lock_inv ident s \<longleftrightarrow> (\<exists>ow. file_says ident ow (l_file s) \<and> procs_ok ow (l_os s) (l_pc s))"

text \<open>The writes move the file from stage to stage.\<close>

lemma file_writes:
  "free_lock f \<Longrightarrow> names_owner owner Stage_A (set_meta (acquired_meta owner Lock_Acquiring (get_meta f)) f)"
  "names_owner owner Stage_A f \<Longrightarrow> names_owner owner Stage_B (set_counter 0 0 f)"
  "names_owner owner Stage_B f \<Longrightarrow> names_owner owner Stage_C (set_meta ((get_meta f)\<lparr>md_state := state_code Lock_Locked\<rparr>) f)"
  "names_owner owner Stage_C f \<Longrightarrow> names_owner owner Stage_D (set_meta ((get_meta f)\<lparr>md_state := state_code Lock_Releasing\<rparr>) f)"
  "names_owner owner Stage_D f \<Longrightarrow> names_owner owner Stage_E (set_counter 0 1 f)"
  "names_owner owner Stage_E f \<Longrightarrow> free_lock (set_meta ((get_meta f)\<lparr>md_state := state_code Lock_Unlocked, md_owner_pid := 0,
     md_owner_start_token := 0\<rparr>) f)"
  by (simp_all add: names_owner_def free_lock_def healthy_def acquired_meta_def)

text \<open>The changes of program counters, for a process that has its part of the invariant.\<close>

lemma procs_okD:
  assumes "procs_ok ow os pc"
  shows "pc p = P_Ready \<Longrightarrow> ow = None" and "pc_stage (pc p) = Some st \<Longrightarrow> ow = Some (p, st)"
    and "ow = Some (p, st) \<Longrightarrow> pc p = P_Dead \<or> pc_stage (pc p) = Some st" and "holds_os (pc p) \<Longrightarrow> os = Some p"
  using assms unfolding procs_ok_def by blast+

lemma procs_okI:
  assumes "\<And>p. pc p = P_Ready \<Longrightarrow> ow = None" and "\<And>p st. pc_stage (pc p) = Some st \<Longrightarrow> ow = Some (p, st)"
    and "\<And>p st. ow = Some (p, st) \<Longrightarrow> pc p = P_Dead \<or> pc_stage (pc p) = Some st"
    and "\<And>p. holds_os (pc p) \<Longrightarrow> os = Some p"
  shows "procs_ok ow os pc"
  unfolding procs_ok_def using assms by blast

lemma ready_holds [simp]: "holds_os P_Ready" "holds_os P_Unlocked"
  by (simp_all add: holds_os_def)

text \<open>The holder of the file lock moves to a stage of its own.\<close>

lemma procs_ok_advance:
  assumes ok: "procs_ok ow os pc" and ow: "ow = Some (p, st) \<or> ow = None"
    and os: "os = Some p" and pc': "pc_stage pc' = Some st'"
  shows "procs_ok (Some (p, st')) os (pc(p := pc'))"
proof (rule procs_okI)
  fix q
  show "Some (p, st') = None" if "(pc(p := pc')) q = P_Ready"
    using that procs_okD(4) [OF ok, of q] os pc' by (cases "q = p") auto
  show "Some (p, st') = Some (q, st2)" if "pc_stage ((pc(p := pc')) q) = Some st2" for st2
    using that procs_okD(2) [OF ok, of q] ow pc' by (cases "q = p") auto
  show "(pc(p := pc')) q = P_Dead \<or> pc_stage ((pc(p := pc')) q) = Some st2" if "Some (p, st') = Some (q, st2)" for st2
    using that pc' by auto
  show "os = Some q" if "holds_os ((pc(p := pc')) q)"
    using that procs_okD(4) [OF ok, of q] os by (cases "q = p") auto
qed

text \<open>A process without a stage moves to a place without a stage.\<close>

lemma procs_ok_outside:
  assumes ok: "procs_ok ow os pc" and own: "\<And>st. ow = Some (p, st) \<Longrightarrow> pc' = P_Dead \<or> pc p = P_Dead"
    and none: "pc_stage pc' = None" and ready: "pc' = P_Ready \<Longrightarrow> ow = None"
    and others: "\<And>q. q \<noteq> p \<Longrightarrow> holds_os (pc q) \<Longrightarrow> os' = Some q" and self: "holds_os pc' \<Longrightarrow> os' = Some p"
    and live: "pc p \<noteq> P_Dead"
  shows "procs_ok ow os' (pc(p := pc'))"
proof (rule procs_okI)
  fix q
  show "ow = None" if "(pc(p := pc')) q = P_Ready"
    using that procs_okD(1) [OF ok, of q] ready by (cases "q = p") auto
  show "ow = Some (q, st)" if "pc_stage ((pc(p := pc')) q) = Some st" for st
    using that procs_okD(2) [OF ok, of q] none by (cases "q = p") auto
  show "(pc(p := pc')) q = P_Dead \<or> pc_stage ((pc(p := pc')) q) = Some st" if "ow = Some (q, st)" for st
    using that procs_okD(3) [OF ok that] own live by (cases "q = p") auto
  show "os' = Some q" if "holds_os ((pc(p := pc')) q)"
    using that others self by (cases "q = p") auto
qed

lemma not_owner:
  assumes "procs_ok ow os pc" and "pc_stage (pc p) = None" and "pc p \<noteq> P_Dead"
  shows "ow \<noteq> Some (p, st)"
  using procs_okD(3) [OF assms(1), of p st] assms(2,3) by auto

lemma goto_simps [simp]:
  "l_file (goto p pc s) = l_file s" "l_os (goto p pc s) = l_os s" "l_pc (goto p pc s) = (l_pc s)(p := pc)"
  by (simp_all add: goto_def)

lemma verdict_free:
  assumes "free_lock (l_file s)"
  shows "in_health (verdict table s) = Health_Ok" and "in_state (verdict table s) = Lock_Unlocked"
    and "in_counter (verdict table s) = 1"
  using assms judge_free [of "get_meta (l_file s)"]
  by (simp_all add: verdict_def free_lock_def blank_inspection_def)

text \<open>A dead owner: the file names \<open>q\<close>, which is dead.\<close>

definition orphaned :: "('p \<Rightarrow> HakoProcessIdentity) \<Rightarrow> 'p \<Rightarrow> stage \<Rightarrow> 'p lock_sys \<Rightarrow> bool" where
  "orphaned ident q st s \<longleftrightarrow> names_owner (ident q) st (l_file s) \<and> l_pc s q = P_Dead \<and>
     procs_ok (Some (q, st)) (l_os s) (l_pc s)"

context process_table
begin

lemma verdict_owner:
  assumes "names_owner (ident q) st (l_file s)"
  shows "in_state (verdict table s) = stage_state st" and "in_owner_pid (verdict table s) = of_int (pi_pid (ident q))"
    and "in_owner_start_token (verdict table s) = pi_start_token (ident q)"
    and "in_health (verdict table s) =
      (if q \<in> dead s then Health_Abort else if st = Stage_C then Health_Ok else Health_Unknown)"
proof -
  let ?m = "get_meta (l_file s)"
  have m: "healthy ?m" "md_state ?m = state_code (stage_state st)" "get_counter (l_file s) 0 = stage_counter st"
    "md_owner_pid ?m = of_int (pi_pid (ident q))" "md_owner_start_token ?m = pi_start_token (ident q)"
    using assms by (simp_all add: names_owner_def)
  have st: "stage_state st \<noteq> Lock_Unlocked" by (cases st) simp_all
  have id: "\<lparr>pi_pid = sint (md_owner_pid ?m), pi_start_token = md_owner_start_token ?m\<rparr> = ident q"
    using sint_of_pid [OF pid_range [of q]] by (simp add: m(4,5))
  note j = judge_held [OF m(1,2) st, of "table (dead s)" "stage_counter st", unfolded id check_identity]
  show "in_state (verdict table s) = stage_state st" "in_owner_pid (verdict table s) = of_int (pi_pid (ident q))"
    "in_owner_start_token (verdict table s) = pi_start_token (ident q)"
    using j(1-3) m(3-5) by (simp_all add: verdict_def)
  have "stage_state st = Lock_Locked \<and> stage_counter st = 0 \<longleftrightarrow> st = Stage_C" by (cases st) simp_all
  then show "in_health (verdict table s) =
      (if q \<in> dead s then Health_Abort else if st = Stage_C then Health_Ok else Health_Unknown)"
    using j(4) m(3) by (simp add: verdict_def)
qed

lemma says_free:
  assumes "file_says ident ow (l_file s)" and "in_state (verdict table s) = Lock_Unlocked"
  shows "ow = None"
proof (cases ow)
  case (Some a)
  then obtain q st where "names_owner (ident q) st (l_file s)" using assms(1) by (cases a) (simp add: file_says_def)
  then show ?thesis using verdict_owner(1) assms(2) by (cases st) fastforce+
qed simp

lemma holder_step:
  assumes says: "file_says ident ow (l_file s)" and ok: "procs_ok ow (l_os s) (l_pc s)"
    and pc: "holds_os (l_pc s p)" "pc_stage (l_pc s p) = Some st" and pc': "pc_stage pc' = Some st'"
    and upd: "names_owner (ident p) st (l_file s) \<Longrightarrow> names_owner (ident p) st' f"
  shows "lock_inv ident (goto p pc' (s\<lparr>l_file := f\<rparr>))"
proof -
  have ow: "ow = Some (p, st)" "l_os s = Some p"
    using procs_okD(2) [OF ok pc(2)] procs_okD(4) [OF ok pc(1)] by simp_all
  then have "file_says ident (Some (p, st')) f" using says upd by (simp add: file_says_def)
  moreover have "procs_ok (Some (p, st')) (l_os s) ((l_pc s)(p := pc'))"
    using procs_ok_advance [OF ok _ ow(2) pc'] ow(1) by blast
  ultimately show ?thesis by (auto simp: lock_inv_def)
qed

lemma lock_inv_step:
  assumes "lock_inv ident s" and "lock_step ident table s s'"
  shows "lock_inv ident s'"
proof -
  obtain ow where says: "file_says ident ow (l_file s)" and ok: "procs_ok ow (l_os s) (l_pc s)"
    using assms(1) by (auto simp: lock_inv_def)
  have nobody: "\<not> holds_os (l_pc s q)" if "l_os s = None" for q using procs_okD(4) [OF ok, of q] that by auto
  have alone: "q = p" if "holds_os (l_pc s p)" "holds_os (l_pc s q)" for p q
    using procs_okD(4) [OF ok] that by (metis option.inject)
  from assms(2) show ?thesis
  proof (cases rule: lock_step.cases)
    case (l_free p)
    have "procs_ok ow (Some p) ((l_pc s)(p := P_Ready))"
      using says_free [OF says l_free(5)] nobody [OF l_free(3)] l_free(2)
      by (intro procs_ok_outside [OF ok]) (simp_all add: holds_os_def)
    then show ?thesis using says l_free(1) by (auto simp: lock_inv_def)
  next
    case (l_fail p)
    have "procs_ok ow (l_os s) ((l_pc s)(p := P_Failed))"
      using not_owner [OF ok, of p] nobody [OF l_fail(3)] l_fail(2)
      by (intro procs_ok_outside [OF ok]) (auto simp: holds_os_def)
    then show ?thesis using says l_fail(1) by (auto simp: lock_inv_def)
  next
    case (l_acquiring p)
    have ow: "ow = None" "l_os s = Some p"
      using procs_okD(1,4) [OF ok, of p] l_acquiring(2) by simp_all
    have "names_owner (ident p) Stage_A (set_meta (acquired_meta (ident p) Lock_Acquiring (get_meta (l_file s))) (l_file s))"
      using file_writes(1) says ow(1) by (simp add: file_says_def)
    then have "file_says ident (Some (p, Stage_A))
        (set_meta (acquired_meta (ident p) Lock_Acquiring (get_meta (l_file s))) (l_file s))" by (simp add: file_says_def)
    moreover have "procs_ok (Some (p, Stage_A)) (l_os s) ((l_pc s)(p := P_Acquiring))"
      using procs_ok_advance [OF ok _ ow(2), of Stage_A P_Acquiring Stage_A] ow(1) by simp
    ultimately show ?thesis using l_acquiring(1) by (auto simp: lock_inv_def)
  next
    case (l_counter0 p)
    then show ?thesis
      using holder_step [OF says ok, of p Stage_A P_Counter0 Stage_B] file_writes(2) by (simp add: holds_os_def)
  next
    case (l_locked p)
    then show ?thesis
      using holder_step [OF says ok, of p Stage_B P_Locked Stage_C] file_writes(3) by (simp add: holds_os_def)
  next
    case (l_entered p)
    have h: "holds_os (l_pc s p)" "ow = Some (p, Stage_C)"
      using l_entered(2) procs_okD(2) [OF ok, of p Stage_C] by (simp_all add: holds_os_def)
    have "procs_ok ow None ((l_pc s)(p := P_Inside))"
    proof (rule procs_okI)
      fix q
      show "ow = None" if "((l_pc s)(p := P_Inside)) q = P_Ready"
        using that procs_okD(1) [OF ok, of q] by (cases "q = p") auto
      show "ow = Some (q, st)" if "pc_stage (((l_pc s)(p := P_Inside)) q) = Some st" for st
        using that procs_okD(2) [OF ok, of q] h(2) by (cases "q = p") auto
      show "((l_pc s)(p := P_Inside)) q = P_Dead \<or> pc_stage (((l_pc s)(p := P_Inside)) q) = Some st"
        if "ow = Some (q, st)" for st using that h(2) by auto
      show "None = Some q" if "holds_os (((l_pc s)(p := P_Inside)) q)"
        using that alone [OF h(1), of q] by (cases "q = p") (auto simp: holds_os_def)
    qed
    then show ?thesis using says l_entered(1) by (auto simp: lock_inv_def)
  next
    case (l_leave p)
    have ow: "ow = Some (p, Stage_C)" using procs_okD(2) [OF ok, of p Stage_C] l_leave(2) by simp
    have "procs_ok ow (Some p) (l_pc s)"
      using ok nobody [OF l_leave(3)] by (simp add: procs_ok_def)
    from procs_ok_advance [OF this _ refl, of Stage_C P_Leaving Stage_C]
    have "procs_ok ow (Some p) ((l_pc s)(p := P_Leaving))" using ow by simp
    then show ?thesis using says l_leave(1) by (auto simp: lock_inv_def)
  next
    case (l_leave_fail p)
    have "ow = Some (p, Stage_C)" using procs_okD(2) [OF ok, of p Stage_C] l_leave_fail(2) by simp
    then have "names_owner (ident p) Stage_C (l_file s)" using says by (simp add: file_says_def)
    note v = verdict_owner [OF this]
    have "p \<notin> dead s" using l_leave_fail(2) by (simp add: dead_def)
    then show ?thesis using v l_leave_fail(4) by simp
  next
    case (l_releasing p)
    then show ?thesis
      using holder_step [OF says ok, of p Stage_C P_Releasing Stage_D] file_writes(4) by (simp add: holds_os_def)
  next
    case (l_counter1 p)
    then show ?thesis
      using holder_step [OF says ok, of p Stage_D P_Counter1 Stage_E] file_writes(5) by (simp add: holds_os_def)
  next
    case (l_unlocked p)
    have h: "holds_os (l_pc s p)" "ow = Some (p, Stage_E)"
      using l_unlocked(2) procs_okD(2) [OF ok, of p Stage_E] by (simp_all add: holds_os_def)
    let ?f = "set_meta ((get_meta (l_file s))\<lparr>md_state := state_code Lock_Unlocked, md_owner_pid := 0,
        md_owner_start_token := 0\<rparr>) (l_file s)"
    have "file_says ident None ?f" using says h(2) file_writes(6) by (simp add: file_says_def)
    moreover have "procs_ok None (l_os s) ((l_pc s)(p := P_Unlocked))"
    proof (rule procs_okI)
      fix q
      show "None = Some (q, st)" if "pc_stage (((l_pc s)(p := P_Unlocked)) q) = Some st" for st
        using that procs_okD(2) [OF ok, of q] h(2) by (cases "q = p") auto
      show "l_os s = Some q" if "holds_os (((l_pc s)(p := P_Unlocked)) q)"
        using that procs_okD(4) [OF ok, of q] procs_okD(4) [OF ok h(1)] by (cases "q = p") auto
    qed simp_all
    ultimately show ?thesis using l_unlocked(1) by (auto simp: lock_inv_def)
  next
    case (l_left p)
    have h: "holds_os (l_pc s p)" using l_left(2) by (simp add: holds_os_def)
    have "procs_ok ow None ((l_pc s)(p := P_Out))"
      using not_owner [OF ok, of p] alone [OF h] l_left(2)
      by (intro procs_ok_outside [OF ok]) (auto simp: holds_os_def)
    then show ?thesis using says l_left(1) by (auto simp: lock_inv_def)
  next
    case (l_crash p)
    have "procs_ok ow (if l_os s = Some p then None else l_os s) ((l_pc s)(p := P_Dead))"
      using procs_okD(4) [OF ok] l_crash(2)
      by (intro procs_ok_outside [OF ok]) (auto simp: holds_os_def)
    then show ?thesis using says l_crash(1) by (auto simp: lock_inv_def crash_def)
  qed (use assms(1) in simp)
qed

lemma lock_reach_inv: "lock_reach ident table s0 s \<Longrightarrow> lock_inv ident s0 \<Longrightarrow> lock_inv ident s"
  by (induction rule: lock_reach.induct) (auto intro: lock_inv_step)

lemma lock_inv_init: "lock_init s \<Longrightarrow> lock_inv ident s"
  by (auto simp: lock_init_def lock_inv_def file_says_def procs_ok_def holds_os_def intro!: exI [of _ None])

lemma one_owner:
  assumes "lock_inv ident s" and "pc_stage (l_pc s p) \<noteq> None" and "pc_stage (l_pc s q) \<noteq> None"
  shows "p = q"
proof -
  obtain ow where ok: "procs_ok ow (l_os s) (l_pc s)" using assms(1) by (auto simp: lock_inv_def)
  obtain st st' where "pc_stage (l_pc s p) = Some st" "pc_stage (l_pc s q) = Some st'" using assms(2,3) by auto
  then have "ow = Some (p, st)" "ow = Some (q, st')" using procs_okD(2) [OF ok] by blast+
  then show ?thesis by simp
qed

text \<open>The file determines the owner.\<close>

lemma names_owner_unique:
  assumes "names_owner (ident p) st f" and "names_owner (ident q) st' f"
  shows "p = q \<and> st = st'"
proof -
  have "(of_int (pi_pid (ident p)) :: 64 word) = of_int (pi_pid (ident q))" "pi_start_token (ident p) = pi_start_token (ident q)"
    using assms by (simp_all add: names_owner_def)
  then have "pi_pid (ident p) = pi_pid (ident q)" using sint_of_pid pid_range by metis
  then have "ident p = ident q" using \<open>pi_start_token (ident p) = pi_start_token (ident q)\<close> by simp
  then have "p = q" by (rule inj_ident)
  moreover have "st = st'" using assms by (cases st; cases st') (simp_all add: names_owner_def)
  ultimately show ?thesis by simp
qed

lemma orphaned_step:
  assumes "orphaned ident q st s" and "lock_step ident table s s'"
  shows "orphaned ident q st s' \<and> l_file s' = l_file s"
proof -
  have nm: "names_owner (ident q) st (l_file s)" and q: "l_pc s q = P_Dead" "q \<in> dead s"
    and ok: "procs_ok (Some (q, st)) (l_os s) (l_pc s)" using assms(1) by (simp_all add: orphaned_def dead_def)
  have no: "pc_stage (l_pc s p) = None" "l_pc s p \<noteq> P_Ready" for p
  proof -
    show "pc_stage (l_pc s p) = None" using procs_okD(2) [OF ok, of p] q(1) by (cases "pc_stage (l_pc s p)") auto
    show "l_pc s p \<noteq> P_Ready" using procs_okD(1) [OF ok, of p] by auto
  qed
  have places: "l_pc s p \<noteq> P_Acquiring" "l_pc s p \<noteq> P_Counter0" "l_pc s p \<noteq> P_Locked" "l_pc s p \<noteq> P_Inside"
    "l_pc s p \<noteq> P_Leaving" "l_pc s p \<noteq> P_Releasing" "l_pc s p \<noteq> P_Counter1" "l_pc s p \<noteq> P_Ready" for p
    using no [of p] by auto
  have abort: "in_health (verdict table s) = Health_Abort" using verdict_owner(4) [OF nm] q(2) by simp
  from assms(2) have same: "l_file s' = l_file s \<and> l_pc s' q = P_Dead"
    using places q(1) abort by (cases rule: lock_step.cases) (auto simp: crash_def)
  have "lock_inv ident s" using nm ok by (auto simp: lock_inv_def file_says_def intro!: exI [of _ "Some (q, st)"])
  then obtain ow where ow: "file_says ident ow (l_file s')" "procs_ok ow (l_os s') (l_pc s')"
    using lock_inv_step [OF _ assms(2)] by (auto simp: lock_inv_def)
  have "ow = Some (q, st)"
  proof (cases ow)
    case None
    then have "free_lock (l_file s)" using ow(1) same by (simp add: file_says_def)
    then show ?thesis using nm by (cases st) (simp_all add: free_lock_def names_owner_def)
  next
    case (Some a)
    then show ?thesis using ow(1) same nm names_owner_unique by (cases a) (auto simp: file_says_def)
  qed
  then show ?thesis using ow(2) same nm by (simp add: orphaned_def)
qed

lemma orphaned_forever:
  "lock_reach ident table s s' \<Longrightarrow> orphaned ident q st s \<Longrightarrow> orphaned ident q st s' \<and> l_file s' = l_file s"
  by (induction rule: lock_reach.induct) (auto dest: orphaned_step)

lemma crash_orphans:
  assumes "lock_inv ident s" and "pc_stage (l_pc s q) = Some st"
  shows "orphaned ident q st (crash q s)"
proof -
  obtain ow where ow: "file_says ident ow (l_file s)" "procs_ok ow (l_os s) (l_pc s)"
    using assms(1) by (auto simp: lock_inv_def)
  have o: "ow = Some (q, st)" using procs_okD(2) [OF ow(2) assms(2)] .
  have live: "l_pc s q \<noteq> P_Dead" using assms(2) by auto
  have "procs_ok ow (if l_os s = Some q then None else l_os s) ((l_pc s)(q := P_Dead))"
    using procs_okD(4) [OF ow(2)] live
    by (intro procs_ok_outside [OF ow(2)]) (auto simp: holds_os_def)
  then show ?thesis using o ow(1) by (simp add: orphaned_def crash_def file_says_def)
qed

lemma orphaned_verdict:
  assumes "orphaned ident q st s"
  shows "in_health (verdict table s) = Health_Abort" and "pc_stage (l_pc s p) = None"
proof -
  show "in_health (verdict table s) = Health_Abort"
    using assms verdict_owner(4) [of q st s] by (simp add: orphaned_def dead_def)
  have ok: "procs_ok (Some (q, st)) (l_os s) (l_pc s)" "l_pc s q = P_Dead" using assms by (simp_all add: orphaned_def)
  show "pc_stage (l_pc s p) = None"
    using procs_okD(2) [OF ok(1), of p] ok(2) by (cases "pc_stage (l_pc s p)") auto
qed

text \<open>Without deaths, a free file lock means a healthy master lock.\<close>

lemma healthy_when_free:
  assumes "lock_inv ident s" and "dead s = {}" and "l_os s = None"
  shows "in_health (verdict table s) = Health_Ok" and
    "(\<forall>p. l_pc s p \<noteq> P_Inside) \<Longrightarrow> in_state (verdict table s) = Lock_Unlocked \<and> in_counter (verdict table s) = 1"
proof -
  obtain ow where ow: "file_says ident ow (l_file s)" "procs_ok ow (l_os s) (l_pc s)"
    using assms(1) by (auto simp: lock_inv_def)
  have free: "\<not> holds_os (l_pc s p)" for p using procs_okD(4) [OF ow(2), of p] assms(3) by auto
  have inside: "st = Stage_C \<and> l_pc s p = P_Inside" if "ow = Some (p, st)" for p st
  proof -
    have "l_pc s p \<noteq> P_Dead" using assms(2) by (auto simp: dead_def)
    then have "pc_stage (l_pc s p) = Some st" using procs_okD(3) [OF ow(2) that] by simp
    then show ?thesis using free [of p] by (cases "l_pc s p") (simp_all add: holds_os_def)
  qed
  show "in_health (verdict table s) = Health_Ok"
  proof (cases ow)
    case None
    then show ?thesis using ow(1) verdict_free(1) by (simp add: file_says_def)
  next
    case (Some a)
    obtain p st where a: "a = (p, st)" by (cases a)
    then have "names_owner (ident p) Stage_C (l_file s)" using inside [of p st] Some ow(1) by (simp add: file_says_def)
    then show ?thesis using verdict_owner(4) assms(2) by simp
  qed
  show "in_state (verdict table s) = Lock_Unlocked \<and> in_counter (verdict table s) = 1" if "\<forall>p. l_pc s p \<noteq> P_Inside"
  proof (cases ow)
    case None
    then have "free_lock (l_file s)" using ow(1) by (simp add: file_says_def)
    then show ?thesis using verdict_free(2,3) [of s table] by blast
  next
    case (Some a)
    then show ?thesis using inside that by (cases a) blast
  qed
qed

end

section \<open>A process table\<close>

text \<open>
  The interface on the model of the process identity: processes numbered by words of 16
  bits, with the lines of the kernel's process table.
\<close>

definition tab_ident :: "16 word \<Rightarrow> HakoProcessIdentity" where
  "tab_ident p = \<lparr>pi_pid = uint p + 1, pi_start_token = 1000\<rparr>"

definition tab_procs :: "16 word set \<Rightarrow> os_procs" where
  "tab_procs D = \<lparr>os_getpid = 1, os_kill0 = (\<lambda>pid. if of_int (pid - 1) \<in> D then Kill_ESRCH else Kill_Ok),
     os_stat_line = (\<lambda>pid. Some (stat_line ''1'' ''hako'' (CHR ''R'') (replicate 18 ''0'') 1000 []))\<rparr>"

interpretation tab: process_table tab_ident tab_procs
proof (unfold_locales, goal_cases)
  case (1 p q)
  then have "uint p = uint q" by (simp add: tab_ident_def)
  then show ?case by (rule unsigned_word_eqI)
next
  case (2 p)
  have "0 \<le> uint p" by simp
  then show ?case by (simp add: tab_ident_def)
next
  case (3 p)
  have "uint p < 2 ^ 16" using unsigned_less [of p, where 'a = int] by simp
  then show ?case by (simp add: tab_ident_def)
next
  case (4 D p)
  have "0 \<le> uint p" by simp
  then have "process_start_token (tab_procs D) (uint p + 1) = Some (1000, False)"
    using start_token_of_stat_line [of "uint p + 1" "tab_procs D" "''1''" "''hako''" "CHR ''R''" "replicate 18 ''0''" 1000 "[]"]
      demo_fields by (simp add: tab_procs_def list_all_iff)
  moreover have "os_kill0 (tab_procs D) (uint p + 1) = (if p \<in> D then Kill_ESRCH else Kill_Ok)"
    by (simp add: tab_procs_def)
  moreover have "\<not> uint p + 1 \<le> 0" using \<open>0 \<le> uint p\<close> by linarith
  ultimately show ?case
    by (simp add: hako_check_process_identity_def tab_ident_def classify_lookup_def)
qed

definition tab_start :: "16 word lock_sys" where
  "tab_start = \<lparr>l_file = fresh_file, l_os = None, l_pc = (\<lambda>_. P_Out)\<rparr>"

lemma tab_start_init: "lock_init tab_start"
  using demo_lock_facts(5) by (simp add: lock_init_def tab_start_def demo_lock_def new_handle_def)

text \<open>Process 0 enters.\<close>

definition tab_ready :: "16 word lock_sys" where
  "tab_ready = goto 0 P_Ready (tab_start\<lparr>l_os := Some 0\<rparr>)"

definition tab_acquiring :: "16 word lock_sys" where
  "tab_acquiring = goto 0 P_Acquiring (tab_ready\<lparr>l_file :=
     set_meta (acquired_meta (tab_ident 0) Lock_Acquiring (get_meta (l_file tab_ready))) (l_file tab_ready)\<rparr>)"

definition tab_inside :: "16 word lock_sys" where
  "tab_inside = goto 0 P_Inside ((goto 0 P_Locked ((goto 0 P_Counter0 (tab_acquiring\<lparr>l_file :=
     set_counter 0 0 (l_file tab_acquiring)\<rparr>))\<lparr>l_file := set_meta ((get_meta (set_counter 0 0 (l_file tab_acquiring)))
       \<lparr>md_state := state_code Lock_Locked\<rparr>) (set_counter 0 0 (l_file tab_acquiring))\<rparr>))\<lparr>l_os := None\<rparr>)"

lemma tab_reach_acquiring: "lock_reach tab_ident tab_procs tab_start tab_acquiring"
proof -
  have v: "in_health (verdict tab_procs tab_start) = Health_Ok" "in_state (verdict tab_procs tab_start) = Lock_Unlocked"
    "in_counter (verdict tab_procs tab_start) = 1"
    using verdict_free [of tab_start] tab_start_init by (simp_all add: lock_init_def)
  have "lock_step tab_ident tab_procs tab_start tab_ready"
    unfolding tab_ready_def using v by (intro l_free) (simp_all add: tab_start_def)
  moreover have "lock_step tab_ident tab_procs tab_ready tab_acquiring"
    unfolding tab_acquiring_def by (rule l_acquiring) (simp add: tab_ready_def)
  ultimately show ?thesis by (meson lock_start lock_next)
qed

lemma tab_reach_inside: "lock_reach tab_ident tab_procs tab_start tab_inside" "l_pc tab_inside 0 = P_Inside"
proof -
  let ?s1 = "goto 0 P_Counter0 (tab_acquiring\<lparr>l_file := set_counter 0 0 (l_file tab_acquiring)\<rparr>)"
  let ?s2 = "goto 0 P_Locked (?s1\<lparr>l_file := set_meta ((get_meta (l_file ?s1))\<lparr>md_state := state_code Lock_Locked\<rparr>) (l_file ?s1)\<rparr>)"
  have "lock_step tab_ident tab_procs tab_acquiring ?s1" by (rule l_counter0) (simp add: tab_acquiring_def)
  then have r1: "lock_reach tab_ident tab_procs tab_start ?s1" by (rule lock_next [OF tab_reach_acquiring])
  have "lock_step tab_ident tab_procs ?s1 ?s2" by (rule l_locked) simp
  then have r2: "lock_reach tab_ident tab_procs tab_start ?s2" by (rule lock_next [OF r1])
  have "lock_step tab_ident tab_procs ?s2 (goto 0 P_Inside (?s2\<lparr>l_os := None\<rparr>))" by (rule l_entered) simp
  then have "lock_reach tab_ident tab_procs tab_start (goto 0 P_Inside (?s2\<lparr>l_os := None\<rparr>))" by (rule lock_next [OF r2])
  then show "lock_reach tab_ident tab_procs tab_start tab_inside" by (simp add: tab_inside_def)
  show "l_pc tab_inside 0 = P_Inside" by (simp add: tab_inside_def)
qed

section \<open>Properties\<close>

text \<open>
  C27: The master lock excludes: starting from a free lock file, whatever processes lock,
  unlock and die in whatever order, at most one process that lives is inside the lock or
  between its first and last write of it.
\<close>

theorem master_lock_excludes:
  assumes "process_table ident table" and "lock_init s0" and "lock_reach ident table s0 s"
    and "pc_stage (l_pc s p) \<noteq> None" and "pc_stage (l_pc s q) \<noteq> None"
  shows "p = q"
  using process_table.one_owner [OF assms(1) process_table.lock_reach_inv [OF assms(1,3)
      process_table.lock_inv_init [OF assms(1,2)]] assms(4,5)] .

theorem master_lock_excludes_witness:
  "pc_stage (l_pc tab_inside 0) = Some Stage_C \<and> pc_stage (l_pc tab_inside 7) = None"
proof -
  have "0 = (7 :: 16 word)" if "pc_stage (l_pc tab_inside 7) \<noteq> None"
    using master_lock_excludes [OF tab.process_table_axioms tab_start_init tab_reach_inside(1), of 0 7]
      tab_reach_inside(2) that by simp
  then have "pc_stage (l_pc tab_inside 7) = None" by fastforce
  then show ?thesis using tab_reach_inside(2) by simp
qed

text \<open>
  C28: The death of an owner is never missed: if a process dies anywhere between its first
  write of an acquisition and its last write of the release, then from there on every
  inspection reports that the owner is gone, no process gets inside, and the file stays as
  the dead owner left it.
\<close>

theorem dead_owner_stops_lock:
  assumes "process_table ident table" and "lock_init s0" and "lock_reach ident table s0 s"
    and "pc_stage (l_pc s q) \<noteq> None" and "lock_reach ident table (crash q s) s'"
  shows "in_health (verdict table s') = Health_Abort \<and> l_file s' = l_file s \<and> (\<forall>p. l_pc s' p \<noteq> P_Inside)"
proof -
  obtain st where st: "pc_stage (l_pc s q) = Some st" using assms(4) by auto
  have "lock_inv ident s"
    using process_table.lock_reach_inv [OF assms(1,3) process_table.lock_inv_init [OF assms(1,2)]] .
  then have "orphaned ident q st (crash q s)" using process_table.crash_orphans [OF assms(1) _ st] by blast
  then have o: "orphaned ident q st s'" "l_file s' = l_file (crash q s)"
    using process_table.orphaned_forever [OF assms(1,5)] by blast+
  note v = process_table.orphaned_verdict [OF assms(1) o(1)]
  have "l_pc s' p \<noteq> P_Inside" for p using v(2) [of p] by auto
  then show ?thesis using v(1) o(2) by (simp add: crash_def)
qed

theorem dead_owner_stops_lock_witness:
  "in_health (verdict tab_procs (crash 0 tab_acquiring)) = Health_Abort"
proof -
  have "pc_stage (l_pc tab_acquiring 0) \<noteq> None" by (simp add: tab_acquiring_def)
  then show ?thesis
    using dead_owner_stops_lock [OF tab.process_table_axioms tab_start_init tab_reach_acquiring _ lock_start] by blast
qed

text \<open>
  C29: There is no false alarm and the lock does not get stuck: as long as no process has
  died, whenever the file lock of the system is free the inspection finds the master lock
  healthy, and if no process is inside it finds it free, so that a waiting process takes it
  in its next turn.
\<close>

theorem lock_stays_available:
  assumes "process_table ident table" and "lock_init s0" and "lock_reach ident table s0 s"
    and "dead s = {}" and "l_os s = None"
  shows "in_health (verdict table s) = Health_Ok \<and>
    ((\<exists>p. l_pc s p = P_Inside) \<or>
     (\<forall>p. l_pc s p = P_Out \<longrightarrow> lock_step ident table s (goto p P_Ready (s\<lparr>l_os := Some p\<rparr>))))"
proof -
  have inv: "lock_inv ident s"
    using process_table.lock_reach_inv [OF assms(1,3) process_table.lock_inv_init [OF assms(1,2)]] .
  note h = process_table.healthy_when_free [OF assms(1) inv assms(4,5)]
  then show ?thesis using assms(5) by (auto intro: l_free)
qed

theorem lock_stays_available_witness:
  "lock_step tab_ident tab_procs tab_start (goto 3 P_Ready (tab_start\<lparr>l_os := Some 3\<rparr>))"
  using lock_stays_available [OF tab.process_table_axioms tab_start_init lock_start]
  by (simp add: tab_start_def dead_def)

end
