(* ===== verification/Hako_Lock_Bounds.thy ===== *)
theory Hako_Lock_Bounds
  imports Hako_Lock_Calls
begin

text \<open>
  The calls of \<open>hako_sem_flock.cpp\<close> that wait, \<open>master_lock\<close> and the \<open>asset_down\<close> of the
  counters, inside a wait scope: both waits of a call, the one for the lock of the file and
  the one for the state that the file records, end by the timeout.
\<close>

definition max_turns :: "wait_state \<Rightarrow> nat" where
  "max_turns s = unat (timeout_ms (wait_options s)) div 20 + 1"

text \<open>
  A clock that counts on from \<open>started\<close>: reading \<open>k\<close> comes after \<open>k\<close> sleeps of 20 ms.
\<close>

definition clock_runs :: "wait_state \<Rightarrow> 64 word \<Rightarrow> (nat \<Rightarrow> 64 word) \<Rightarrow> bool" where
  "clock_runs s started now \<longleftrightarrow>
     (\<forall>k \<le> max_turns s. \<exists>d. now k = started + of_nat d \<and> 20 * k \<le> d \<and> d < 2 ^ 64)"

definition bounded_env :: "wait_state \<Rightarrow> 64 word \<Rightarrow> (nat \<Rightarrow> sem_env) \<Rightarrow> bool" where
  "bounded_env s started env \<longleftrightarrow>
     wait_enabled s \<and> (\<forall>k. se_wait (env k) = s) \<and> clock_runs s started (\<lambda>k. fst (se_before (env k))) \<and>
     (\<forall>k. clock_runs s (se_attempt_start (env k)) (\<lambda>j. at_now (se_attempts (env k) j)))"

lemma clock_runs_decides:
  assumes "wait_enabled s" and "clock_runs s started now" and "at_now a = now (max_turns s)"
  shows "decided s started a \<noteq> None"
proof -
  obtain d where d: "now (max_turns s) = started + of_nat d" "20 * max_turns s \<le> d" "d < 2 ^ 64"
    using assms(2) unfolding clock_runs_def by blast
  have "unat (timeout_ms (wait_options s)) \<le> 20 * max_turns s" by (simp add: max_turns_def)
  then show ?thesis using timeout_decides [OF assms(1) _ d(3)] assms(3) d(1,2) by simp
qed

lemma clock_runs_stops:
  assumes "wait_enabled s" and "clock_runs s started now"
  shows "hako_flock_wait_checkpoint s started (now (max_turns s)) i \<noteq> None"
proof -
  let ?a = "\<lparr>at_now = now (max_turns s), at_interrupted = False, at_result = Flock_Busy\<rparr>"
  have "decided s started ?a \<noteq> None" by (rule clock_runs_decides [OF assms]) simp
  then show ?thesis
    using assms(1) by (auto simp: decided_def hako_flock_wait_checkpoint_def split: if_splits)
qed

lemma acquire_total:
  assumes "wait_enabled s" and "clock_runs s started (\<lambda>j. at_now (at j))"
  shows "hako_flock_acquire s started at h \<noteq> None"
proof -
  have "decided s started (at (0 + max_turns s)) \<noteq> None"
    using clock_runs_decides [OF assms] by simp
  from acquire_bounded_first [of s started at 0 "max_turns s", OF this]
  have "acquire_bounded s started at 0 \<noteq> None" by auto
  then show ?thesis using assms(1) by (auto simp: hako_flock_acquire_def split: option.split)
qed

lemma with_flock_total:
  "bounded_env s started env \<Longrightarrow> with_flock (env k) h fail body \<noteq> None"
  using acquire_total [of s "se_attempt_start (env k)" "se_attempts (env k)" h]
  by (auto simp: bounded_env_def with_flock_def split: option.split)

text \<open>
  A loop whose turns return ends at the latest at the turn whose checkpoint throws, with a
  result that does not depend on what comes after it.
\<close>

lemma wait_loop_bounded:
  assumes "hako_flock_wait_checkpoint (se_wait (env (k + n))) started (fst (se_before (env (k + n)))) (snd (se_before (env (k + n)))) \<noteq> None"
    and "\<And>k h. body (env k) h \<noteq> None"
    and "\<forall>j \<le> k + n. env' j = env j \<and> others' j = others j"
  shows "\<exists>r. wait_loop env started others body k h = Some r \<and> wait_loop env' started others' body k h = Some r"
  using assms
proof (induction n arbitrary: k h)
  case 0
  then show ?case
    by (subst (1 2) wait_loop.simps) (auto split: option.split)
next
  case (Suc n)
  have here: "env' k = env k" "others' k = others k" using Suc.prems(3) by simp_all
  obtain t h1 where b: "body (env k) (others k h) = Some (t, h1)"
    using Suc.prems(2) [of k "others k h"] by (cases "body (env k) (others k h)") auto
  obtain r where r: "wait_loop env started others body (Suc k) h1 = Some r"
    "wait_loop env' started others' body (Suc k) h1 = Some r"
    using Suc.IH [of "Suc k" h1] Suc.prems by auto
  show ?case
    using b r here by (subst (1 2) wait_loop.simps) (cases t; auto split: option.split)
qed

lemma bounded_loop:
  assumes "bounded_env s started env" and "\<And>k h. body (env k) h \<noteq> None"
    and "\<forall>j \<le> max_turns s. env' j = env j \<and> others' j = others j"
  shows "\<exists>r. wait_loop env started others body 0 h = Some r \<and> wait_loop env' started others' body 0 h = Some r"
proof -
  have "hako_flock_wait_checkpoint s started (fst (se_before (env (max_turns s)))) (snd (se_before (env (max_turns s)))) \<noteq> None"
    using assms(1) clock_runs_stops unfolding bounded_env_def by blast
  then show ?thesis
    using wait_loop_bounded [of env 0 "max_turns s" started body env' others' others h] assms
    by (simp add: bounded_env_def)
qed

text \<open>
  C32: A call that waits inside a wait scope returns. With a clock that advances by the 20 ms
  of each sleep, \<open>master_lock\<close> and the wait for a counter return or throw after at most
  \<open>timeout div 20 + 2\<close> turns, and each of their waits for the lock of the file after as many
  attempts, whatever the lock file holds, whatever other processes do to it and however the
  transfers fail: what would happen after those turns has no influence on the result.
  \<open>master_lock\<close> then does not hold the lock of the file.
\<close>

theorem bounded_calls_end:
  assumes "bounded_env s started env" and "\<forall>j \<le> max_turns s. env' j = env j \<and> others' j = others j"
    and "unlocked h" and "\<forall>k h. unlocked h \<longrightarrow> unlocked (others k h)"
  shows "\<exists>e h1 e' h2. flock_master_lock env started others h = Some (e, h1) \<and>
    flock_master_lock env' started others' h = Some (e, h1) \<and> unlocked h1 \<and>
    semaphore_down index env started others h = Some (e', h2) \<and>
    semaphore_down index env' started others' h = Some (e', h2)"
proof -
  have down: "\<exists>r. semaphore_down index env started others h = Some r \<and> semaphore_down index env' started others' h = Some r"
    unfolding semaphore_down_def
    by (rule bounded_loop [OF assms(1) _ assms(2)]) (simp add: semaphore_down_turn_def with_flock_total [OF assms(1)])
  have same: "env' 0 = env 0" using assms(2) by simp
  have lock: "\<exists>e h1. flock_master_lock env started others h = Some (e, h1) \<and>
      flock_master_lock env' started others' h = Some (e, h1) \<and> unlocked h1"
  proof (cases "hako_current_process_identity (se_procs (env 0))")
    case None
    then show ?thesis using assms(3) same by (simp add: flock_master_lock_def)
  next
    case (Some owner)
    have total: "\<And>k h. master_lock_turn owner (env k) h \<noteq> None"
      by (simp add: master_lock_turn_def with_flock_total [OF assms(1)])
    obtain r where
      r: "wait_loop env started others (master_lock_turn owner) 0 h = Some r"
        "wait_loop env' started others' (master_lock_turn owner) 0 h = Some r"
      using bounded_loop [where body = "master_lock_turn owner", OF assms(1) total assms(2)] by blast
    have "unlocked (snd r)"
      using wait_loop_releases [OF r(1) _ assms(4,3)] master_lock_turn_releases by blast
    then show ?thesis using r Some same by (cases r) (simp add: flock_master_lock_def)
  qed
  then show ?thesis using down by fast
qed

text \<open>A lock that another live process holds, for a caller that waits for 40 ms.\<close>

definition demo_bounded_env :: "nat \<Rightarrow> sem_env" where
  "demo_bounded_env k = demo_sem_env\<lparr>se_wait := \<lparr>wait_enabled = True, wait_options = \<lparr>timeout_ms = 40, watched = False\<rparr>\<rparr>,
     se_attempts := (\<lambda>j. \<lparr>at_now = of_nat (20 * j), at_interrupted = False, at_result = Flock_Ok\<rparr>),
     se_before := (of_nat (20 * k), False), se_after := (of_nat (20 * k), False)\<rparr>"

lemma demo_clock: "clock_runs \<lparr>wait_enabled = True, wait_options = \<lparr>timeout_ms = 40, watched = False\<rparr>\<rparr> 0 (\<lambda>k. of_nat (20 * k))"
  unfolding clock_runs_def
proof (intro allI impI)
  let ?s = "\<lparr>wait_enabled = True, wait_options = \<lparr>timeout_ms = 40, watched = False\<rparr>\<rparr> :: wait_state"
  fix k assume "k \<le> max_turns ?s"
  then have "20 * k < (2 :: nat) ^ 64" by (simp add: max_turns_def)
  then show "\<exists>d. of_nat (20 * k) = (0 :: 64 word) + of_nat d \<and> 20 * k \<le> d \<and> d < 2 ^ 64"
    by (intro exI [of _ "20 * k"]) simp
qed

theorem bounded_calls_end_witness:
  "\<exists>e h1. flock_master_lock demo_bounded_env 0 (\<lambda>_ h. h) demo_lock = Some (e, h1) \<and> unlocked h1"
proof -
  let ?s = "\<lparr>wait_enabled = True, wait_options = \<lparr>timeout_ms = 40, watched = False\<rparr>\<rparr> :: wait_state"
  have "bounded_env ?s 0 demo_bounded_env"
    using demo_clock by (simp add: bounded_env_def demo_bounded_env_def demo_sem_env_def)
  then show ?thesis
    using bounded_calls_end [of ?s 0 demo_bounded_env demo_bounded_env "\<lambda>_ h. h" "\<lambda>_ h. h" demo_lock 1] demo_lock_facts(3)
    by auto
qed

end
