(* ===== verification/Hako_Process_Platforms.thy ===== *)
theory Hako_Process_Platforms
  imports Hako_Process_Identity
begin

text \<open>
  The branches of \<open>utils/hako_share/impl/hako_process_identity.cpp\<close> for Windows and macOS
  beside the one for Linux, and what all three promise to the master lock: an identity taken
  by a process is never reported dead while that process runs, and reported alive only for a
  process with the same pid and start token that runs or that the system cannot tell from a
  running one.
\<close>

section \<open>Windows\<close>

text \<open>
  The outcomes of \<open>OpenProcess\<close>, the creation time of \<open>GetProcessTimes\<close> in two words and the
  code of \<open>GetExitCodeProcess\<close>. A pid is cut to a \<open>DWORD\<close>.
\<close>

datatype open_process = Process_Opened | Invalid_Parameter | Open_Failed

record win_procs =
  wp_current :: "32 word"
  wp_open :: "32 word \<Rightarrow> open_process"
  wp_times :: "32 word \<Rightarrow> (32 word \<times> 32 word) option"
  wp_exit_code :: "32 word \<Rightarrow> 32 word option"

definition STILL_ACTIVE :: "32 word" where "STILL_ACTIVE = 259"

definition creation_token :: "32 word \<times> 32 word \<Rightarrow> 64 word" where
  "creation_token t = or (push_bit 32 (ucast (fst t))) (ucast (snd t))"

text \<open>\<open>ask\<close> is whether the caller wants to know if the process has terminated.\<close>

definition win_process_start_token :: "win_procs \<Rightarrow> int \<Rightarrow> bool \<Rightarrow> (64 word \<times> bool) option" where
  "win_process_start_token os pid ask =
    (if pid \<le> 0 then None
     else if wp_open os (of_int pid) \<noteq> Process_Opened then None
     else case wp_times os (of_int pid) of
            None \<Rightarrow> None
          | Some creation \<Rightarrow>
              if ask
              then (case wp_exit_code os (of_int pid) of
                      None \<Rightarrow> None
                    | Some exit_code \<Rightarrow> Some (creation_token creation, exit_code \<noteq> STILL_ACTIVE))
              else Some (creation_token creation, False))"

definition win_current_process_identity :: "win_procs \<Rightarrow> HakoProcessIdentity option" where
  "win_current_process_identity os =
    (let pid = uint (wp_current os)
     in case win_process_start_token os pid False of
          None \<Rightarrow> None
        | Some (token, _) \<Rightarrow> Some \<lparr>pi_pid = pid, pi_start_token = token\<rparr>)"

definition win_check_process_identity :: "win_procs \<Rightarrow> HakoProcessIdentity \<Rightarrow> HakoProcessIdentityStatus" where
  "win_check_process_identity os identity =
    (if pi_pid identity \<le> 0 \<or> pi_start_token identity = 0 then Unknown
     else
       let p = of_int (pi_pid identity)
       in if wp_open os p \<noteq> Process_Opened
          then classify_lookup (wp_open os p = Invalid_Parameter) False False (pi_start_token identity) 0
          else case wp_exit_code os p of
                 None \<Rightarrow> classify_lookup False False False (pi_start_token identity) 0
               | Some exit_code \<Rightarrow>
                   if exit_code \<noteq> STILL_ACTIVE
                   then classify_lookup False True True (pi_start_token identity) 0
                   else case win_process_start_token os (pi_pid identity) True of
                          None \<Rightarrow> classify_lookup False False False (pi_start_token identity) 0
                        | Some (actual, terminated) \<Rightarrow>
                            classify_lookup False True terminated (pi_start_token identity) actual)"

section \<open>macOS\<close>

text \<open>
  What \<open>sysctl\<close> fills in for a pid, \<open>None\<close> if it fails or gives nothing: the two parts of
  the start time and the state.
\<close>

record mac_procs =
  mp_getpid :: int
  mp_kill0 :: "32 word \<Rightarrow> kill_result"
  mp_sysctl :: "32 word \<Rightarrow> (int \<times> int \<times> nat) option"

definition SZOMB :: nat where "SZOMB = 5"

definition mac_process_start_token :: "mac_procs \<Rightarrow> int \<Rightarrow> (64 word \<times> bool) option" where
  "mac_process_start_token os pid =
    (if pid \<le> 0 then None
     else case mp_sysctl os (of_int pid) of
            None \<Rightarrow> None
          | Some (tv_sec, tv_usec, p_stat) \<Rightarrow>
              Some (of_int tv_sec * 1000000 + of_int tv_usec, p_stat = SZOMB))"

definition mac_current_process_identity :: "mac_procs \<Rightarrow> HakoProcessIdentity option" where
  "mac_current_process_identity os =
    (case mac_process_start_token os (mp_getpid os) of
       None \<Rightarrow> None
     | Some (token, _) \<Rightarrow> Some \<lparr>pi_pid = mp_getpid os, pi_start_token = token\<rparr>)"

definition mac_check_process_identity :: "mac_procs \<Rightarrow> HakoProcessIdentity \<Rightarrow> HakoProcessIdentityStatus" where
  "mac_check_process_identity os identity =
    (if pi_pid identity \<le> 0 \<or> pi_start_token identity = 0 then Unknown
     else
       let k = mp_kill0 os (of_int (pi_pid identity))
       in if k = Kill_ESRCH then classify_lookup True False False (pi_start_token identity) 0
          else if k = Kill_Other then Unknown
          else case mac_process_start_token os (pi_pid identity) of
                 None \<Rightarrow> classify_lookup False False False (pi_start_token identity) 0
               | Some (actual, terminated) \<Rightarrow>
                   classify_lookup False True terminated (pi_start_token identity) actual)"

section \<open>What the master lock relies on\<close>

text \<open>
  The processes of a machine: for each pid the start token of its process and whether it
  runs or has ended, and with which exit code. A system shows a table if what it says is
  true of it; it need not say anything, and \<open>answers\<close> is that it says all it can of a pid.
  \<open>looks_running\<close> is what the system cannot tell from a running process.
\<close>

datatype proc_life = Runs | Ended "32 word"

type_synonym proc_table = "int \<Rightarrow> (64 word \<times> proc_life) option"

definition pid_ok :: "int \<Rightarrow> bool" where
  "pid_ok p \<longleftrightarrow> 0 < p \<and> p < 2 ^ 31"

locale process_system =
  fixes shows_table :: "'os \<Rightarrow> proc_table \<Rightarrow> bool"
    and answers :: "'os \<Rightarrow> int \<Rightarrow> bool"
    and looks_running :: "proc_life \<Rightarrow> bool"
    and current :: "'os \<Rightarrow> HakoProcessIdentity option"
    and check :: "'os \<Rightarrow> HakoProcessIdentity \<Rightarrow> HakoProcessIdentityStatus"
  assumes looks: "looks_running Runs"
    and taken: "shows_table os T \<Longrightarrow> current os = Some i \<Longrightarrow> pid_ok (pi_pid i) \<Longrightarrow>
      \<exists>l. T (pi_pid i) = Some (pi_start_token i, l)"
    and alive: "shows_table os T \<Longrightarrow> pid_ok (pi_pid i) \<Longrightarrow> check os i = Alive \<Longrightarrow>
      \<exists>l. T (pi_pid i) = Some (pi_start_token i, l) \<and> looks_running l"
    and dead: "shows_table os T \<Longrightarrow> pid_ok (pi_pid i) \<Longrightarrow> T (pi_pid i) = Some (pi_start_token i, l) \<Longrightarrow>
      looks_running l \<Longrightarrow> check os i \<noteq> Dead"
    and seen: "shows_table os T \<Longrightarrow> pid_ok (pi_pid i) \<Longrightarrow> T (pi_pid i) = Some (pi_start_token i, l) \<Longrightarrow>
      looks_running l \<Longrightarrow> answers os (pi_pid i) \<Longrightarrow> pi_start_token i \<noteq> 0 \<Longrightarrow> check os i \<noteq> Unknown"
begin

lemma verdict_true:
  assumes "shows_table os T" and "pid_ok (pi_pid i)"
  shows "(T (pi_pid i) = Some (pi_start_token i, Runs) \<longrightarrow> check os i \<noteq> Dead) \<and>
    (check os i = Alive \<longrightarrow> (\<exists>l. T (pi_pid i) = Some (pi_start_token i, l) \<and> looks_running l)) \<and>
    (answers os (pi_pid i) \<and> pi_start_token i \<noteq> 0 \<and>
       (\<exists>l. T (pi_pid i) = Some (pi_start_token i, l) \<and> looks_running l) \<longrightarrow> check os i = Alive)"
  using alive [OF assms] dead [OF assms] seen [OF assms] looks by (cases "check os i") auto

end

text \<open>
  Linux: \<open>kill\<close> misses a process only if there is none, and the line of a process, where it
  can be read, is the one the kernel writes.
\<close>

definition linux_shows :: "os_procs \<Rightarrow> proc_table \<Rightarrow> bool" where
  "linux_shows os T \<longleftrightarrow>
     (\<forall>p. pid_ok p \<longrightarrow>
        (os_kill0 os p = Kill_ESRCH \<longrightarrow> T p = None) \<and>
        (\<forall>line. os_stat_line os p = Some line \<longrightarrow>
           (\<exists>name comm state mid start rest l. line = stat_line name comm state mid start rest \<and>
              plain_field [state] \<and> list_all plain_field (mid @ rest) \<and> length mid = 18 \<and> start < 2 ^ 64 \<and>
              T p = Some (of_nat start, l) \<and> (l = Runs \<longleftrightarrow> state \<notin> {CHR ''Z'', CHR ''X'', CHR ''x''}))))"

definition linux_answers :: "os_procs \<Rightarrow> int \<Rightarrow> bool" where
  "linux_answers os p \<longleftrightarrow> os_kill0 os p \<in> {Kill_Ok, Kill_EPERM} \<and> os_stat_line os p \<noteq> None"

lemma linux_line:
  assumes "linux_shows os T" and "pid_ok p" and "os_stat_line os p = Some line"
  shows "\<exists>token l. T p = Some (token, l) \<and> process_start_token os p = Some (token, l \<noteq> Runs)"
proof -
  obtain name comm state mid start rest l where
    l: "line = stat_line name comm state mid start rest" "plain_field [state]" "list_all plain_field (mid @ rest)"
      "length mid = 18" "start < 2 ^ 64" "T p = Some (of_nat start, l)"
      "l = Runs \<longleftrightarrow> state \<notin> {CHR ''Z'', CHR ''X'', CHR ''x''}"
    using assms unfolding linux_shows_def by blast
  have "0 < p" using assms(2) by (simp add: pid_ok_def)
  from start_token_of_stat_line [OF this assms(3) [unfolded l(1)] l(2-5)] show ?thesis
    using l(6,7) by simp
qed

lemma linux_token:
  assumes "linux_shows os T" and "pid_ok p" and "process_start_token os p = Some (token, terminated)"
  shows "\<exists>l. T p = Some (token, l) \<and> terminated = (l \<noteq> Runs)"
proof -
  obtain line where "os_stat_line os p = Some line"
    using assms(2,3) by (auto simp: process_start_token_def pid_ok_def split: option.splits)
  from linux_line [OF assms(1,2) this] show ?thesis using assms(3) by auto
qed

interpretation linux: process_system linux_shows linux_answers "\<lambda>l. l = Runs"
  hako_current_process_identity hako_check_process_identity
proof
  fix os T and i :: HakoProcessIdentity and l
  assume a: "linux_shows os T" "pid_ok (pi_pid i)"
  show "\<exists>l. T (pi_pid i) = Some (pi_start_token i, l)" if "hako_current_process_identity os = Some i"
    using that linux_token [OF a] by (fastforce simp: hako_current_process_identity_def split: option.splits)
  show "\<exists>l. T (pi_pid i) = Some (pi_start_token i, l) \<and> l = Runs" if "hako_check_process_identity os i = Alive"
    using that linux_token [OF a] by (fastforce simp: identity_status_exact split: if_splits)
  assume l: "T (pi_pid i) = Some (pi_start_token i, l)" "l = Runs"
  have "os_kill0 os (pi_pid i) \<noteq> Kill_ESRCH" using a l(1) unfolding linux_shows_def by (metis option.distinct(1))
  moreover have "token = pi_start_token i \<and> \<not> terminated"
    if "process_start_token os (pi_pid i) = Some (token, terminated)" for token terminated
    using linux_token [OF a that] l by simp
  ultimately show "hako_check_process_identity os i \<noteq> Dead" by (auto simp: identity_status_exact)
  show "hako_check_process_identity os i \<noteq> Unknown" if ans: "linux_answers os (pi_pid i)" "pi_start_token i \<noteq> 0"
  proof -
    obtain line where "os_stat_line os (pi_pid i) = Some line" using ans(1) by (auto simp: linux_answers_def)
    from linux_line [OF a this] have "process_start_token os (pi_pid i) = Some (pi_start_token i, False)" using l by auto
    then show ?thesis using ans a(2) by (simp add: identity_status_exact linux_answers_def pid_ok_def)
  qed
qed simp

text \<open>
  Windows: \<open>OpenProcess\<close> calls the parameter invalid only if there is no process, and the
  times are those of the process. \<open>GetExitCodeProcess\<close> gives the exit code, or 259 for a
  process that runs, so that one which has ended with this code looks as if it ran.
\<close>

definition win_exit_code :: "proc_life \<Rightarrow> 32 word" where
  "win_exit_code l = (case l of Runs \<Rightarrow> STILL_ACTIVE | Ended code \<Rightarrow> code)"

definition win_shows :: "win_procs \<Rightarrow> proc_table \<Rightarrow> bool" where
  "win_shows os T \<longleftrightarrow>
     (\<forall>p. pid_ok p \<longrightarrow>
        (wp_open os (of_int p) = Invalid_Parameter \<longrightarrow> T p = None) \<and>
        (wp_open os (of_int p) = Process_Opened \<longrightarrow>
           (\<exists>token l. T p = Some (token, l) \<and>
              (\<forall>creation. wp_times os (of_int p) = Some creation \<longrightarrow> token = creation_token creation) \<and>
              (\<forall>code. wp_exit_code os (of_int p) = Some code \<longrightarrow> code = win_exit_code l))))"

definition win_answers :: "win_procs \<Rightarrow> int \<Rightarrow> bool" where
  "win_answers os p \<longleftrightarrow> wp_open os (of_int p) = Process_Opened \<and> wp_times os (of_int p) \<noteq> None \<and>
     wp_exit_code os (of_int p) \<noteq> None"

lemma win_opened:
  assumes "win_shows os T" and "pid_ok p" and "wp_open os (of_int p) = Process_Opened"
  obtains token l where "T p = Some (token, l)"
    "\<And>creation. wp_times os (of_int p) = Some creation \<Longrightarrow> token = creation_token creation"
    "\<And>code. wp_exit_code os (of_int p) = Some code \<Longrightarrow> code = win_exit_code l"
proof -
  have "\<exists>token l. T p = Some (token, l) \<and>
      (\<forall>creation. wp_times os (of_int p) = Some creation \<longrightarrow> token = creation_token creation) \<and>
      (\<forall>code. wp_exit_code os (of_int p) = Some code \<longrightarrow> code = win_exit_code l)"
    using assms by (simp add: win_shows_def)
  then show thesis by (elim exE conjE) (rule that, simp_all)
qed

lemma win_check_cases:
  assumes "pid_ok (pi_pid i)" and "pi_start_token i \<noteq> 0"
  shows "win_check_process_identity os i =
    (if wp_open os (of_int (pi_pid i)) = Invalid_Parameter then Dead
     else if wp_open os (of_int (pi_pid i)) = Open_Failed then Unknown
     else case wp_exit_code os (of_int (pi_pid i)) of
            None \<Rightarrow> Unknown
          | Some code \<Rightarrow>
              if code \<noteq> STILL_ACTIVE then Dead
              else case wp_times os (of_int (pi_pid i)) of
                     None \<Rightarrow> Unknown
                   | Some creation \<Rightarrow>
                       if creation_token creation = 0 then Unknown
                       else if creation_token creation = pi_start_token i then Alive else Dead)"
  using assms
  by (cases "wp_open os (of_int (pi_pid i))"; cases "wp_exit_code os (of_int (pi_pid i))"; cases "wp_times os (of_int (pi_pid i))")
     (simp_all add: win_check_process_identity_def win_process_start_token_def classify_lookup_def pid_ok_def)

interpretation windows: process_system win_shows win_answers "\<lambda>l. l = Runs \<or> l = Ended STILL_ACTIVE"
  win_current_process_identity win_check_process_identity
proof
  fix os T and i :: HakoProcessIdentity and l
  assume a: "win_shows os T" "pid_ok (pi_pid i)"
  have p: "0 < pi_pid i" using a(2) by (simp add: pid_ok_def)
  note check = win_check_cases [OF a(2), of os]
  show "\<exists>l. T (pi_pid i) = Some (pi_start_token i, l)" if cur: "win_current_process_identity os = Some i"
  proof -
    have "wp_open os (of_int (pi_pid i)) = Process_Opened" "\<exists>c. wp_times os (of_int (pi_pid i)) = Some c \<and> pi_start_token i = creation_token c"
      using cur by (auto simp: win_current_process_identity_def win_process_start_token_def Let_def split: if_splits option.splits)
    then show ?thesis using win_opened [OF a] by metis
  qed
  show "\<exists>l. T (pi_pid i) = Some (pi_start_token i, l) \<and> (l = Runs \<or> l = Ended STILL_ACTIVE)"
    if al: "win_check_process_identity os i = Alive"
  proof -
    have "pi_start_token i \<noteq> 0" using al by (auto simp: win_check_process_identity_def)
    then have o: "wp_open os (of_int (pi_pid i)) = Process_Opened" "wp_exit_code os (of_int (pi_pid i)) = Some STILL_ACTIVE"
      "\<exists>c. wp_times os (of_int (pi_pid i)) = Some c \<and> pi_start_token i = creation_token c"
      using al check by (cases "wp_open os (of_int (pi_pid i))"; auto split: option.splits if_splits)+
    obtain token l where "T (pi_pid i) = Some (token, l)" "token = pi_start_token i" "STILL_ACTIVE = win_exit_code l"
      using win_opened [OF a o(1)] o(2,3) by metis
    then show ?thesis by (cases l) (auto simp: win_exit_code_def)
  qed
  assume l: "T (pi_pid i) = Some (pi_start_token i, l)" "l = Runs \<or> l = Ended STILL_ACTIVE"
  then have code: "win_exit_code l = STILL_ACTIVE" by (auto simp: win_exit_code_def)
  have opened: "wp_open os (of_int (pi_pid i)) \<noteq> Invalid_Parameter" using a l(1) by (auto simp: win_shows_def)
  have told: "wp_exit_code os (of_int (pi_pid i)) = Some c \<Longrightarrow> c = STILL_ACTIVE"
    "wp_times os (of_int (pi_pid i)) = Some t \<Longrightarrow> creation_token t = pi_start_token i"
    if "wp_open os (of_int (pi_pid i)) = Process_Opened" for c t
    using win_opened [OF a that] l(1) code by (metis option.inject prod.inject)+
  show "win_check_process_identity os i \<noteq> Dead"
    using opened told check
    by (cases "wp_open os (of_int (pi_pid i))"; cases "pi_start_token i = 0")
       (auto simp: win_check_process_identity_def split: option.splits if_splits)
  show "win_check_process_identity os i \<noteq> Unknown" if "win_answers os (pi_pid i)" "pi_start_token i \<noteq> 0"
    using that told check by (auto simp: win_answers_def split: option.splits if_splits)
qed simp

text \<open>macOS: as on Linux, with the record of \<open>sysctl\<close> for the line.\<close>

definition mac_shows :: "mac_procs \<Rightarrow> proc_table \<Rightarrow> bool" where
  "mac_shows os T \<longleftrightarrow>
     (\<forall>p. pid_ok p \<longrightarrow>
        (mp_kill0 os (of_int p) = Kill_ESRCH \<longrightarrow> T p = None) \<and>
        (\<forall>s u st. mp_sysctl os (of_int p) = Some (s, u, st) \<longrightarrow>
           (\<exists>l. T p = Some (of_int s * 1000000 + of_int u, l) \<and> (l = Runs \<longleftrightarrow> st \<noteq> SZOMB))))"

definition mac_answers :: "mac_procs \<Rightarrow> int \<Rightarrow> bool" where
  "mac_answers os p \<longleftrightarrow> mp_kill0 os (of_int p) \<in> {Kill_Ok, Kill_EPERM} \<and> mp_sysctl os (of_int p) \<noteq> None"

lemma mac_token:
  "mac_shows os T \<Longrightarrow> pid_ok p \<Longrightarrow> mac_process_start_token os p = Some (token, terminated) \<Longrightarrow>
   \<exists>l. T p = Some (token, l) \<and> terminated = (l \<noteq> Runs)"
  by (fastforce simp: mac_shows_def mac_process_start_token_def split: if_splits option.splits)

interpretation macos: process_system mac_shows mac_answers "\<lambda>l. l = Runs" mac_current_process_identity mac_check_process_identity
proof
  fix os T and i :: HakoProcessIdentity and l
  assume a: "mac_shows os T" "pid_ok (pi_pid i)"
  show "\<exists>l. T (pi_pid i) = Some (pi_start_token i, l)" if "mac_current_process_identity os = Some i"
    using that mac_token [OF a] by (fastforce simp: mac_current_process_identity_def split: option.splits)
  show "\<exists>l. T (pi_pid i) = Some (pi_start_token i, l) \<and> l = Runs" if "mac_check_process_identity os i = Alive"
    using that mac_token [OF a]
    by (fastforce simp: mac_check_process_identity_def classify_lookup_def Let_def split: if_splits option.splits)
  assume l: "T (pi_pid i) = Some (pi_start_token i, l)" "l = Runs"
  show "mac_check_process_identity os i \<noteq> Dead"
    using l mac_token [OF a] a
    by (fastforce simp: mac_check_process_identity_def classify_lookup_def mac_shows_def Let_def
        split: if_splits option.splits)
  show "mac_check_process_identity os i \<noteq> Unknown" if ans: "mac_answers os (pi_pid i)" "pi_start_token i \<noteq> 0"
  proof -
    obtain s u st where "mp_sysctl os (of_int (pi_pid i)) = Some (s, u, st)" using ans(1) by (auto simp: mac_answers_def)
    then obtain r where r: "mac_process_start_token os (pi_pid i) = Some r"
      using a(2) by (simp add: mac_process_start_token_def pid_ok_def)
    moreover have "r = (pi_start_token i, False)" using mac_token [OF a, of "fst r" "snd r"] r l by (cases r) auto
    ultimately show ?thesis
      using ans a(2) by (auto simp: mac_check_process_identity_def mac_answers_def classify_lookup_def pid_ok_def)
  qed
qed simp

section \<open>The three systems\<close>

datatype process_os = Linux os_procs | Windows win_procs | MacOS mac_procs

fun os_shows :: "process_os \<Rightarrow> proc_table \<Rightarrow> bool" where
  "os_shows (Linux os) T = linux_shows os T"
| "os_shows (Windows os) T = win_shows os T"
| "os_shows (MacOS os) T = mac_shows os T"

fun os_answers :: "process_os \<Rightarrow> int \<Rightarrow> bool" where
  "os_answers (Linux os) p = linux_answers os p"
| "os_answers (Windows os) p = win_answers os p"
| "os_answers (MacOS os) p = mac_answers os p"

text \<open>Only Windows takes an ended process for a running one.\<close>

fun taken_for_running :: "process_os \<Rightarrow> proc_life \<Rightarrow> bool" where
  "taken_for_running (Windows os) l = (l = Runs \<or> l = Ended 259)"
| "taken_for_running os l = (l = Runs)"

fun current_identity :: "process_os \<Rightarrow> HakoProcessIdentity option" where
  "current_identity (Linux os) = hako_current_process_identity os"
| "current_identity (Windows os) = win_current_process_identity os"
| "current_identity (MacOS os) = mac_current_process_identity os"

fun check_identity :: "process_os \<Rightarrow> HakoProcessIdentity \<Rightarrow> HakoProcessIdentityStatus" where
  "check_identity (Linux os) i = hako_check_process_identity os i"
| "check_identity (Windows os) i = win_check_process_identity os i"
| "check_identity (MacOS os) i = mac_check_process_identity os i"

text \<open>
  C33: What the verdict on the owner of the lock is worth on Linux, Windows and macOS. A
  process that records its identity is the one in the table under its pid, with its start
  token. Whenever that identity is checked later, against whatever processes there are
  then: while the process runs it is not called dead. It is called alive only if the process
  now under its pid has the recorded start token and runs, or, on Windows alone, has ended
  with exit code 259; so another process under the pid is called alive only if it started
  with the same token. And where the system answers, each of these is called alive: a
  successor with an equal token, and on Windows an owner that ended with code 259, are not
  told from the owner still running.
\<close>

theorem identity_verdict_true:
  assumes "os_shows os T" and "current_identity os = Some i" and "pid_ok (pi_pid i)" and "os_shows os' T'"
  shows "(\<exists>l. T (pi_pid i) = Some (pi_start_token i, l)) \<and>
    (T' (pi_pid i) = Some (pi_start_token i, Runs) \<longrightarrow> check_identity os' i \<noteq> Dead) \<and>
    (check_identity os' i = Alive \<longrightarrow> (\<exists>l. T' (pi_pid i) = Some (pi_start_token i, l) \<and> taken_for_running os' l)) \<and>
    (os_answers os' (pi_pid i) \<and> pi_start_token i \<noteq> 0 \<and>
       (\<exists>l. T' (pi_pid i) = Some (pi_start_token i, l) \<and> taken_for_running os' l) \<longrightarrow> check_identity os' i = Alive)"
proof
  show "\<exists>l. T (pi_pid i) = Some (pi_start_token i, l)"
    using assms(1-3) linux.taken windows.taken macos.taken by (cases os) auto
  show "(T' (pi_pid i) = Some (pi_start_token i, Runs) \<longrightarrow> check_identity os' i \<noteq> Dead) \<and>
    (check_identity os' i = Alive \<longrightarrow> (\<exists>l. T' (pi_pid i) = Some (pi_start_token i, l) \<and> taken_for_running os' l)) \<and>
    (os_answers os' (pi_pid i) \<and> pi_start_token i \<noteq> 0 \<and>
       (\<exists>l. T' (pi_pid i) = Some (pi_start_token i, l) \<and> taken_for_running os' l) \<longrightarrow> check_identity os' i = Alive)"
  proof (cases os')
    case (Linux w)
    then show ?thesis using assms(3,4) linux.verdict_true [of w T' i] by simp
  next
    case (Windows w)
    then show ?thesis using assms(3,4) windows.verdict_true [of w T' i] by (simp add: STILL_ACTIVE_def)
  next
    case (MacOS w)
    then show ?thesis using assms(3,4) macos.verdict_true [of w T' i] by simp
  qed
qed

text \<open>Pid 42 on Windows: its owner runs, has ended with some code, or another process has taken it over.\<close>

definition demo_win_procs :: "64 word \<Rightarrow> proc_life \<Rightarrow> win_procs" where
  "demo_win_procs t l = \<lparr>wp_current = 42, wp_open = (\<lambda>p. if p = 42 then Process_Opened else Invalid_Parameter),
     wp_times = (\<lambda>_. Some (0, ucast t)), wp_exit_code = (\<lambda>_. Some (win_exit_code l))\<rparr>"

definition demo_table :: "64 word \<Rightarrow> proc_life \<Rightarrow> proc_table" where
  "demo_table t l = [42 \<mapsto> (t, l)]"

lemma pid_word: "pid_ok p \<Longrightarrow> (of_int p :: 32 word) = 42 \<Longrightarrow> p = 42"
proof -
  assume p: "pid_ok p" "(of_int p :: 32 word) = 42"
  have "uint (of_int p :: 32 word) = p" using p(1) by (simp add: pid_ok_def uint_word_of_int_eq take_bit_int_eq_self)
  then show "p = 42" using p(2) by simp
qed

lemma demo_win_shows: "t = 777 \<or> t = 888 \<Longrightarrow> win_shows (demo_win_procs t l) (demo_table t l)"
  using pid_word by (auto simp: win_shows_def demo_win_procs_def demo_table_def creation_token_def)

theorem identity_verdict_true_witness:
  "\<exists>i. current_identity (Windows (demo_win_procs 777 Runs)) = Some i \<and>
     check_identity (Windows (demo_win_procs 777 Runs)) i = Alive \<and>
     check_identity (Windows (demo_win_procs 777 (Ended 259))) i = Alive \<and>
     check_identity (Windows (demo_win_procs 777 (Ended 0))) i \<noteq> Alive \<and>
     check_identity (Windows (demo_win_procs 888 Runs)) i \<noteq> Alive"
proof -
  let ?i = "\<lparr>pi_pid = 42, pi_start_token = 777\<rparr>"
  have i: "current_identity (Windows (demo_win_procs 777 Runs)) = Some ?i"
    by (simp add: win_current_process_identity_def win_process_start_token_def demo_win_procs_def creation_token_def)
  have s: "os_shows (Windows (demo_win_procs t l)) (demo_table t l)" if "t = 777 \<or> t = 888" for t l
    using demo_win_shows [OF that] by simp
  have p: "pid_ok (pi_pid ?i)" by (simp add: pid_ok_def)
  have answers: "os_answers (Windows (demo_win_procs t l)) 42" for t l
    by (simp add: win_answers_def demo_win_procs_def)
  have verdict: "check_identity (Windows (demo_win_procs t l)) ?i = Alive \<longleftrightarrow> t = 777 \<and> (l = Runs \<or> l = Ended 259)"
    if "t = 777 \<or> t = 888" for t l
    using identity_verdict_true [OF s [of 777 Runs] i p s [OF that, of l]] answers [of t l]
    by (simp add: demo_table_def) blast
  show ?thesis by (intro exI [of _ ?i] conjI i) (simp_all add: verdict del: check_identity.simps)
qed

end
