(* ===== verification/Hako_Log.thy ===== *)
theory Hako_Log
  imports Hako_Types
begin

text \<open>
  The System V semaphores of \<open>posix/hako_sem.cpp\<close> and the log in the shared memory
  (\<open>add_log\<close> of \<open>hako_master_data.hpp\<close>, \<open>hako::log::add\<close> of \<open>hako_impl.cpp\<close>). The two call
  each other: a log entry is numbered under the master lock, and a failing semaphore
  operation, that of the master lock included, writes a log entry. They are therefore the
  cases of one recursive function, one case per function of the code.
\<close>

section \<open>Semaphores\<close>

definition SEMVMX :: nat where "SEMVMX = 32767"

record HakoLogDataType =
  log_index :: int
  log_data :: "string list"

text \<open>
  What ends the sleep of a process in \<open>semop\<close>: a signal, the removal of the semaphores, or
  other processes, which may also have used the log.
\<close>

datatype wake = Wake_Signal | Wake_Removed | Wake_Given "nat list" HakoLogDataType

text \<open>
  \<open>master_data_ptr\<close>: null, an object whose \<open>master_datap_\<close> is still null, or an object on
  its shared memory.
\<close>

datatype attachment = No_Object | No_Data | Attached

record log_world =
  lw_sem :: "nat list option"
  lw_log :: HakoLogDataType
  lw_ptr :: attachment
  lw_locked :: bool
  lw_wakes :: "wake list"

text \<open>
  \<open>semop\<close> with \<open>-1\<close>: the result says whether it succeeded; an operation on removed semaphores
  or on a number that the set does not have fails, one on a semaphore at zero sleeps.
\<close>

definition try_down :: "nat \<Rightarrow> log_world \<Rightarrow> (bool \<times> log_world) option" where
  "try_down num w =
    (case lw_sem w of
       None \<Rightarrow> Some (False, w)
     | Some vs \<Rightarrow>
         if length vs \<le> num then Some (False, w)
         else if 0 < vs ! num then Some (True, w\<lparr>lw_sem := Some (vs[num := vs ! num - 1])\<rparr>)
         else None)"

fun semop_down :: "nat \<Rightarrow> log_world \<Rightarrow> wake list \<Rightarrow> (bool \<times> log_world) result" where
  "semop_down num w [] =
    (case try_down num w of Some (ok, w) \<Rightarrow> Inr (ok, w\<lparr>lw_wakes := []\<rparr>) | None \<Rightarrow> Inl Blocked)"
| "semop_down num w (k # ks) =
    (case try_down num w of
       Some (ok, w) \<Rightarrow> Inr (ok, w\<lparr>lw_wakes := k # ks\<rparr>)
     | None \<Rightarrow>
         (case k of
            Wake_Signal \<Rightarrow> Inr (False, w\<lparr>lw_wakes := ks\<rparr>)
          | Wake_Removed \<Rightarrow> Inr (False, w\<lparr>lw_sem := None, lw_wakes := ks\<rparr>)
          | Wake_Given vs log \<Rightarrow> semop_down num (w\<lparr>lw_sem := Some vs, lw_log := log\<rparr>) ks))"

definition semop_up :: "nat \<Rightarrow> log_world \<Rightarrow> bool \<times> log_world" where
  "semop_up num w =
    (case lw_sem w of
       None \<Rightarrow> (False, w)
     | Some vs \<Rightarrow>
         if length vs \<le> num \<or> SEMVMX \<le> vs ! num then (False, w)
         else (True, w\<lparr>lw_sem := Some (vs[num := vs ! num + 1])\<rparr>))"

text \<open>\<open>sem_num\<close> is an unsigned 16-bit number.\<close>

definition sem_num :: "int \<Rightarrow> nat" where
  "sem_num asset_id = nat ((1 + asset_id) mod 65536)"

section \<open>The format of an entry\<close>

record log_call =
  lc_level :: string
  lc_file :: string
  lc_line :: nat
  lc_function :: string
  lc_format :: string

definition HAKO_LOGGER_ENTRYSIZE :: nat where "HAKO_LOGGER_ENTRYSIZE = 256"

text \<open>\<open>snprintf(new_format, 1024, "%s [%s:%d %s] %s", ...)\<close> in \<open>add_log_internal\<close>.\<close>

definition add_log_internal :: "log_call \<Rightarrow> string" where
  "add_log_internal c =
     take 1023 (lc_level c @ '' ['' @ lc_file c @ '':'' @ show_nat (lc_line c) @ '' '' @ lc_function c @ ''] '' @ lc_format c)"

text \<open>\<open>vsnprintf\<close> into an entry; \<open>text\<close> is what the format and its arguments expand to.\<close>

definition put_entry :: "int \<Rightarrow> string \<Rightarrow> log_world \<Rightarrow> log_world result" where
  "put_entry index text w =
    (if 0 \<le> index \<and> nat index < length (log_data (lw_log w))
     then Inr (w\<lparr>lw_log := (lw_log w)\<lparr>log_data :=
            (log_data (lw_log w))[nat index := take (HAKO_LOGGER_ENTRYSIZE - 1) text]\<rparr>\<rparr>)
     else Inl Out_Of_Bounds)"

definition sem_error :: "nat \<Rightarrow> string \<Rightarrow> string \<Rightarrow> log_call" where
  "sem_error line func format =
     \<lparr>lc_level = ''ERROR'', lc_file = ''hako_sem.cpp'', lc_line = line, lc_function = func, lc_format = format\<rparr>"

section \<open>The operations\<close>

datatype log_op =
    Sem_Master_Lock | Sem_Master_Unlock | Sem_Asset_Down int | Sem_Asset_Up int
  | Md_Lock | Md_Unlock | Log_Add log_call | Add_Log string

text \<open>
  \<open>None\<close> is a run that never returns. \<open>expand\<close> stands for the expansion of a format with the
  arguments of its call. \<open>Md_Lock\<close> and \<open>Md_Unlock\<close> are \<open>HakoMasterData::lock\<close> and \<open>unlock\<close> with
  the System V backend, whose \<open>lock_memory\<close> calls \<open>master_lock\<close> of the semaphores.
\<close>

partial_function (option) run_op :: "(string \<Rightarrow> string) \<Rightarrow> log_op \<Rightarrow> log_world \<Rightarrow> log_world result option" where
  "run_op expand op w =
    (case op of
       Sem_Master_Lock \<Rightarrow>
         (case semop_down 0 w (lw_wakes w) of
            Inl e \<Rightarrow> Some (Inl e)
          | Inr r \<Rightarrow>
              if fst r then Some (Inr (snd r))
              else run_op expand (Log_Add (sem_error 79 ''master_lock'' ''master_lock: semop() error: sem_id=%d errno=%d'')) (snd r))
     | Sem_Master_Unlock \<Rightarrow>
         (if fst (semop_up 0 w) then Some (Inr (snd (semop_up 0 w)))
          else run_op expand (Log_Add (sem_error 91 ''master_unlock'' ''master_unlock: semop() error: sem_id=%d errno=%d'')) w)
     | Sem_Asset_Down asset_id \<Rightarrow>
         (case semop_down (sem_num asset_id) w (lw_wakes w) of
            Inl e \<Rightarrow> Some (Inl e)
          | Inr r \<Rightarrow>
              if fst r then Some (Inr (snd r))
              else run_op expand (Log_Add (sem_error 55 ''asset_down''
                     ''asset_down: semop() error: sem_id=%d asset_id=%d errno=%d'')) (snd r))
     | Sem_Asset_Up asset_id \<Rightarrow>
         (if fst (semop_up (sem_num asset_id) w) then Some (Inr (snd (semop_up (sem_num asset_id) w)))
          else run_op expand (Log_Add (sem_error 67 ''asset_up''
                 ''asset_up: semop() error: sem_id=%d asset_id=%d errno=%d'')) w)
     | Md_Lock \<Rightarrow>
         Option.bind (run_op expand Sem_Master_Lock w) (\<lambda>r. Some (bindE r (\<lambda>w. Inr (w\<lparr>lw_locked := True\<rparr>))))
     | Md_Unlock \<Rightarrow> run_op expand Sem_Master_Unlock (w\<lparr>lw_locked := False\<rparr>)
     | Log_Add c \<Rightarrow>
         (if lw_ptr w = No_Object then Some (Inr w)
          else if lw_locked w then Some (Inr w)
          else run_op expand (Add_Log (add_log_internal c)) w)
     | Add_Log format \<Rightarrow>
         (if lw_ptr w \<noteq> Attached then Some (Inl Null_Deref)
          else if log_index (lw_log w) \<ge> int HAKO_LOGGER_LOGNUM then Some (Inr w)
          else Option.bind (run_op expand Md_Lock w) (\<lambda>r.
            case r of
              Inl e \<Rightarrow> Some (Inl e)
            | Inr w \<Rightarrow>
                Option.bind (run_op expand Md_Unlock
                    (w\<lparr>lw_log := (lw_log w)\<lparr>log_index := log_index (lw_log w) + 1\<rparr>\<rparr>)) (\<lambda>r'.
                  Some (bindE r' (put_entry (log_index (lw_log w)) (expand format)))))))"

text \<open>The functions of the code, with their bodies as equations.\<close>

definition sem_master_lock :: "(string \<Rightarrow> string) \<Rightarrow> log_world \<Rightarrow> log_world result option" where
  "sem_master_lock expand = run_op expand Sem_Master_Lock"

definition sem_master_unlock :: "(string \<Rightarrow> string) \<Rightarrow> log_world \<Rightarrow> log_world result option" where
  "sem_master_unlock expand = run_op expand Sem_Master_Unlock"

definition sem_asset_down :: "(string \<Rightarrow> string) \<Rightarrow> int \<Rightarrow> log_world \<Rightarrow> log_world result option" where
  "sem_asset_down expand asset_id = run_op expand (Sem_Asset_Down asset_id)"

definition sem_asset_up :: "(string \<Rightarrow> string) \<Rightarrow> int \<Rightarrow> log_world \<Rightarrow> log_world result option" where
  "sem_asset_up expand asset_id = run_op expand (Sem_Asset_Up asset_id)"

definition hako_log_add :: "(string \<Rightarrow> string) \<Rightarrow> log_call \<Rightarrow> log_world \<Rightarrow> log_world result option" where
  "hako_log_add expand c = run_op expand (Log_Add c)"

definition add_log :: "(string \<Rightarrow> string) \<Rightarrow> string \<Rightarrow> log_world \<Rightarrow> log_world result option" where
  "add_log expand format = run_op expand (Add_Log format)"

lemma sem_calls:
  "sem_master_lock expand w =
    (case semop_down 0 w (lw_wakes w) of
       Inl e \<Rightarrow> Some (Inl e)
     | Inr r \<Rightarrow>
         if fst r then Some (Inr (snd r))
         else hako_log_add expand (sem_error 79 ''master_lock'' ''master_lock: semop() error: sem_id=%d errno=%d'') (snd r))"
  "sem_master_unlock expand w =
    (if fst (semop_up 0 w) then Some (Inr (snd (semop_up 0 w)))
     else hako_log_add expand (sem_error 91 ''master_unlock'' ''master_unlock: semop() error: sem_id=%d errno=%d'') w)"
  unfolding sem_master_lock_def sem_master_unlock_def hako_log_add_def
  by (subst run_op.simps; simp)+

lemma sem_asset_calls:
  "sem_asset_down expand asset_id w =
    (case semop_down (sem_num asset_id) w (lw_wakes w) of
       Inl e \<Rightarrow> Some (Inl e)
     | Inr r \<Rightarrow>
         if fst r then Some (Inr (snd r))
         else hako_log_add expand (sem_error 55 ''asset_down'' ''asset_down: semop() error: sem_id=%d asset_id=%d errno=%d'') (snd r))"
  "sem_asset_up expand asset_id w =
    (if fst (semop_up (sem_num asset_id) w) then Some (Inr (snd (semop_up (sem_num asset_id) w)))
     else hako_log_add expand (sem_error 67 ''asset_up'' ''asset_up: semop() error: sem_id=%d asset_id=%d errno=%d'') w)"
  unfolding sem_asset_down_def sem_asset_up_def hako_log_add_def
  by (subst run_op.simps; simp)+

lemma hako_log_add_eq:
  "hako_log_add expand c w =
    (if lw_ptr w = No_Object then Some (Inr w)
     else if lw_locked w then Some (Inr w)
     else add_log expand (add_log_internal c) w)"
  unfolding hako_log_add_def add_log_def by (subst run_op.simps) simp

lemma add_log_eq:
  "add_log expand format w =
    (if lw_ptr w \<noteq> Attached then Some (Inl Null_Deref)
     else if log_index (lw_log w) \<ge> int HAKO_LOGGER_LOGNUM then Some (Inr w)
     else Option.bind (run_op expand Md_Lock w) (\<lambda>r.
       case r of
         Inl e \<Rightarrow> Some (Inl e)
       | Inr w \<Rightarrow>
           Option.bind (run_op expand Md_Unlock
               (w\<lparr>lw_log := (lw_log w)\<lparr>log_index := log_index (lw_log w) + 1\<rparr>\<rparr>)) (\<lambda>r'.
             Some (bindE r' (put_entry (log_index (lw_log w)) (expand format))))))"
  unfolding add_log_def by (subst run_op.simps) simp

text \<open>
  \<open>sem::create\<close>: \<open>semget\<close> returns \<open>sem_id\<close>, with an existing set of the key or a new one;
  \<open>setall\<close> is whether \<open>semctl\<close> succeeds. The values are set in both cases.
\<close>

definition sem_create :: "(string \<Rightarrow> string) \<Rightarrow> hako_build \<Rightarrow> int \<Rightarrow> bool \<Rightarrow> log_world \<Rightarrow> (int \<times> log_world) result option" where
  "sem_create expand b sem_id setall w =
    (if sem_id < 0
     then Option.bind (hako_log_add expand (sem_error 21 ''create'' ''semget() error: key=%d errno=%d'') w)
            (\<lambda>r. Some (bindE r (\<lambda>w. Inr (-1, w))))
     else if \<not> setall
     then Option.bind (hako_log_add expand (sem_error 34 ''create'' ''semctl() error: key=%d errno=%d'') w)
            (\<lambda>r. Some (bindE r (\<lambda>w. Inr (-1, w\<lparr>lw_sem := None\<rparr>))))
     else Some (Inr (sem_id, w\<lparr>lw_sem := Some (1 # replicate (HAKO_DATA_MAX_ASSET_NUM b) 0)\<rparr>)))"

definition sem_destroy :: "log_world \<Rightarrow> log_world" where
  "sem_destroy w = w\<lparr>lw_sem := None\<rparr>"

text \<open>\<open>print_log\<close>: the lines that it prints.\<close>

definition print_log :: "log_world \<Rightarrow> string list result" where
  "print_log w =
    (if lw_ptr w \<noteq> Attached then Inl Null_Deref
     else if log_index (lw_log w) > int (length (log_data (lw_log w))) then Inl Out_Of_Bounds
     else Inr (take (nat (log_index (lw_log w))) (log_data (lw_log w))))"

section \<open>One entry\<close>

lemma try_down_free [simp]: "lw_sem w = Some (Suc v # vs) \<Longrightarrow> try_down 0 w = Some (True, w\<lparr>lw_sem := Some (v # vs)\<rparr>)"
  by (simp add: try_down_def)

lemma semop_down_decided: "try_down num w = Some (ok, w') \<Longrightarrow> semop_down num w ks = Inr (ok, w'\<lparr>lw_wakes := ks\<rparr>)"
  by (cases ks) simp_all

lemma semop_down_free [simp]:
  "lw_sem w = Some (Suc v # vs) \<Longrightarrow> semop_down 0 w (lw_wakes w) = Inr (True, w\<lparr>lw_sem := Some (v # vs)\<rparr>)"
  using semop_down_decided [OF try_down_free, of w v vs] by simp

lemma semop_up_held [simp]: "lw_sem w = Some (0 # vs) \<Longrightarrow> semop_up 0 w = (True, w\<lparr>lw_sem := Some (Suc 0 # vs)\<rparr>)"
  by (simp add: semop_up_def SEMVMX_def)

lemma lock_free:
  "lw_sem w = Some (Suc 0 # vs) \<Longrightarrow> run_op expand Md_Lock w = Some (Inr (w\<lparr>lw_sem := Some (0 # vs), lw_locked := True\<rparr>))"
  by (subst run_op.simps, simp, subst run_op.simps) simp

lemma unlock_held:
  "lw_sem w = Some (0 # vs) \<Longrightarrow> run_op expand Md_Unlock w = Some (Inr (w\<lparr>lw_sem := Some (Suc 0 # vs), lw_locked := False\<rparr>))"
  by (subst run_op.simps, simp, subst run_op.simps) simp

definition log_ready :: "log_world \<Rightarrow> bool" where
  "log_ready w \<longleftrightarrow> lw_ptr w = Attached \<and> \<not> lw_locked w \<and> (\<exists>vs. lw_sem w = Some (Suc 0 # vs)) \<and>
     length (log_data (lw_log w)) = HAKO_LOGGER_LOGNUM \<and> 0 \<le> log_index (lw_log w)"

definition entry_of :: "(string \<Rightarrow> string) \<Rightarrow> log_call \<Rightarrow> string" where
  "entry_of expand c = take (HAKO_LOGGER_ENTRYSIZE - 1) (expand (add_log_internal c))"

lemma log_add_ready:
  assumes "log_ready w"
  shows "hako_log_add expand c w = Some (Inr
    (if log_index (lw_log w) \<ge> int HAKO_LOGGER_LOGNUM then w
     else w\<lparr>lw_log := \<lparr>log_index = log_index (lw_log w) + 1,
              log_data = (log_data (lw_log w))[nat (log_index (lw_log w)) := entry_of expand c]\<rparr>\<rparr>))"
proof -
  obtain vs where w: "lw_ptr w = Attached" "\<not> lw_locked w" "lw_sem w = Some (Suc 0 # vs)"
    "length (log_data (lw_log w)) = HAKO_LOGGER_LOGNUM" "0 \<le> log_index (lw_log w)"
    using assms by (auto simp: log_ready_def)
  let ?e = "entry_of expand c" and ?i = "log_index (lw_log w)"
  let ?w = "w\<lparr>lw_sem := Some (0 # vs), lw_locked := True, lw_log := (lw_log w)\<lparr>log_index := ?i + 1\<rparr>\<rparr>"
  have ret: "?w\<lparr>lw_sem := Some (Suc 0 # vs), lw_locked := False\<rparr> = w\<lparr>lw_log := (lw_log w)\<lparr>log_index := ?i + 1\<rparr>\<rparr>"
    using w(2,3) by (cases w) simp
  have "run_op expand Md_Unlock ?w = Some (Inr (w\<lparr>lw_log := (lw_log w)\<lparr>log_index := ?i + 1\<rparr>\<rparr>))"
    unfolding ret [symmetric] by (rule unlock_held) simp
  moreover have "put_entry ?i (expand (add_log_internal c)) (w\<lparr>lw_log := (lw_log w)\<lparr>log_index := ?i + 1\<rparr>\<rparr>) =
      Inr (w\<lparr>lw_log := \<lparr>log_index = ?i + 1, log_data = (log_data (lw_log w))[nat ?i := ?e]\<rparr>\<rparr>)"
    if "?i < int HAKO_LOGGER_LOGNUM"
    using that w(4,5) by (cases "lw_log w") (simp add: put_entry_def entry_of_def nat_less_iff)
  ultimately have "add_log expand (add_log_internal c) w = Some (Inr
    (if ?i \<ge> int HAKO_LOGGER_LOGNUM then w
     else w\<lparr>lw_log := \<lparr>log_index = ?i + 1, log_data = (log_data (lw_log w))[nat ?i := ?e]\<rparr>\<rparr>))"
    using w(1) lock_free [OF w(3), of expand] by (subst add_log_eq) (auto simp: not_le)
  then show ?thesis using w(1,2) by (simp add: hako_log_add_eq)
qed

section \<open>Many entries\<close>

fun run_logs :: "(string \<Rightarrow> string) \<Rightarrow> log_call list \<Rightarrow> log_world \<Rightarrow> log_world result option" where
  "run_logs expand [] w = Some (Inr w)"
| "run_logs expand (c # cs) w =
     Option.bind (hako_log_add expand c w) (\<lambda>r. case r of Inl e \<Rightarrow> Some (Inl e) | Inr w \<Rightarrow> run_logs expand cs w)"

lemma run_logs_ready:
  assumes "log_ready w" and "log_index (lw_log w) = int n" and "n \<le> HAKO_LOGGER_LOGNUM"
  shows "run_logs expand cs w = Some (Inr (w\<lparr>lw_log :=
    \<lparr>log_index = int (min (n + length cs) HAKO_LOGGER_LOGNUM),
     log_data = map (\<lambda>i. if n \<le> i \<and> i < n + length cs then entry_of expand (cs ! (i - n)) else log_data (lw_log w) ! i)
       [0..<HAKO_LOGGER_LOGNUM]\<rparr>\<rparr>))"
  using assms
proof (induction cs arbitrary: w n)
  case Nil
  have "map (\<lambda>i. if n \<le> i \<and> i < n + 0 then f i else log_data (lw_log w) ! i) [0..<HAKO_LOGGER_LOGNUM] = log_data (lw_log w)" for f
    using Nil by (intro nth_equalityI) (auto simp: log_ready_def)
  then show ?case using Nil by (cases w, cases "lw_log w") (simp add: min_def)
next
  case (Cons c cs)
  have len: "length (log_data (lw_log w)) = HAKO_LOGGER_LOGNUM" using Cons.prems by (simp add: log_ready_def)
  show ?case
  proof (cases "n < HAKO_LOGGER_LOGNUM")
    case True
    let ?w = "w\<lparr>lw_log := \<lparr>log_index = int (Suc n), log_data = (log_data (lw_log w))[n := entry_of expand c]\<rparr>\<rparr>"
    have step: "hako_log_add expand c w = Some (Inr ?w)"
      using log_add_ready [OF Cons.prems(1), of expand c] Cons.prems(2) True by (simp add: add.commute)
    have "log_ready ?w" using Cons.prems by (simp add: log_ready_def)
    note ih = Cons.IH [OF this, of "Suc n"]
    have "map (\<lambda>i. if Suc n \<le> i \<and> i < Suc n + length cs then entry_of expand (cs ! (i - Suc n)) else log_data (lw_log ?w) ! i)
        [0..<HAKO_LOGGER_LOGNUM] =
      map (\<lambda>i. if n \<le> i \<and> i < n + length (c # cs) then entry_of expand ((c # cs) ! (i - n)) else log_data (lw_log w) ! i)
        [0..<HAKO_LOGGER_LOGNUM]"
    proof (rule map_cong [OF refl], goal_cases)
      case (1 i)
      then show ?case using True len by (cases "i = n") (auto simp: nth_Cons')
    qed
    then show ?thesis using step ih True by simp
  next
    case False
    have "n = HAKO_LOGGER_LOGNUM" using False Cons.prems by simp
    moreover have step: "hako_log_add expand c w = Some (Inr w)"
      using log_add_ready [OF Cons.prems(1), of expand c] Cons.prems(2) False by simp
    moreover have "map (\<lambda>i. if n \<le> i \<and> i < n + k then f i else g i) [0..<n] = map g [0..<n]" for k and f g :: "nat \<Rightarrow> string"
      by (rule map_cong [OF refl]) simp
    ultimately show ?thesis using Cons.IH [OF Cons.prems] by simp
  qed
qed

definition empty_log :: "nat list \<Rightarrow> log_world" where
  "empty_log vs = \<lparr>lw_sem = Some (Suc 0 # vs), lw_log = \<lparr>log_index = 0, log_data = replicate HAKO_LOGGER_LOGNUM ''''\<rparr>,
     lw_ptr = Attached, lw_locked = False, lw_wakes = []\<rparr>"

lemma empty_log_ready: "log_ready (empty_log vs)"
  by (simp add: empty_log_def log_ready_def)

section \<open>Failing semaphores\<close>

text \<open>Once the semaphores are gone, every operation comes to one that logs, and logging locks.\<close>

definition lost_world :: "log_world \<Rightarrow> bool" where
  "lost_world w \<longleftrightarrow> lw_sem w = None \<and> lw_ptr w = Attached \<and> log_index (lw_log w) < int HAKO_LOGGER_LOGNUM"

lemma semop_lost [simp]:
  "lw_sem w = None \<Longrightarrow> semop_down num w ks = Inr (False, w\<lparr>lw_wakes := ks\<rparr>)"
  "lw_sem w = None \<Longrightarrow> semop_up num w = (False, w)"
  by (simp_all add: semop_down_decided try_down_def semop_up_def)

lemma lost_never_returns:
  assumes "run_op expand op w = Some r"
  shows "\<not> (lost_world w \<and> (op = Md_Unlock \<or> \<not> lw_locked w))"
  using assms
proof (rule run_op.raw_induct [rotated], goal_cases)
  case (1 run expand op w r)
  show ?case
  proof
    assume lost: "lost_world w \<and> (op = Md_Unlock \<or> \<not> lw_locked w)"
    have no: "run expand op' w' \<noteq> Some r'" if "lost_world w'" "\<not> lw_locked w'" for op' w' r'
      using 1(1) [of expand op' w' r'] that by blast
    have keep: "lost_world (w\<lparr>lw_locked := False\<rparr>)" "lw_sem w = None" using lost by (simp_all add: lost_world_def)
    show False
    proof (cases "op = Md_Unlock")
      case True
      then show ?thesis using 1(2) no [OF keep(1)] by simp
    next
      case False
      then have nl: "lost_world w" "\<not> lw_locked w" using lost by simp_all
      show ?thesis
        using 1(2) False no [OF nl] nl keep(2) by (cases op) (auto simp: bind_eq_Some_conv lost_world_def)
    qed
  qed
qed

lemmas run_lock = run_op.simps [of _ Md_Lock] run_op.simps [of _ Sem_Master_Lock]
  and run_unlock = run_op.simps [of _ Md_Unlock] run_op.simps [of _ Sem_Master_Unlock]
  and run_log = run_op.simps [of _ "Log_Add c" for c] run_op.simps [of _ "Add_Log f" for f]

text \<open>A signal ends the wait for the master lock: the call returns as if it had the lock.\<close>

lemma interrupted_lock_not_held:
  assumes "lw_sem w = Some (0 # vs)" and "lw_wakes w = [Wake_Signal, Wake_Given (Suc 0 # vs) (lw_log w)]"
    and "lw_ptr w = Attached" and "\<not> lw_locked w" and "0 \<le> log_index (lw_log w)"
    and "log_index (lw_log w) < int HAKO_LOGGER_LOGNUM" and "length (log_data (lw_log w)) = HAKO_LOGGER_LOGNUM"
  shows "\<exists>w'. run_op expand Md_Lock w = Some (Inr w') \<and> lw_locked w' \<and> lw_sem w' = Some (Suc 0 # vs)"
  using assms
  by (simp add: run_lock run_log run_unlock try_down_def put_entry_def nat_less_iff)

text \<open>
  The bound of the log is tested before the lock is taken: if another process writes the
  last entry meanwhile, the write goes past the end.
\<close>

lemma log_race_out_of_bounds:
  assumes "lw_sem w = Some (0 # vs)" and "lw_wakes w = [Wake_Given (Suc 0 # vs) full]"
    and "lw_ptr w = Attached" and "\<not> lw_locked w" and "log_index (lw_log w) = int HAKO_LOGGER_LOGNUM - 1"
    and "log_index full = int HAKO_LOGGER_LOGNUM" and "length (log_data full) = HAKO_LOGGER_LOGNUM"
  shows "run_op expand (Log_Add c) w = Some (Inl Out_Of_Bounds)"
  using assms
  by (simp add: run_lock run_log run_unlock try_down_def put_entry_def)

text \<open>The error of \<open>semget\<close> is logged before the object has its shared memory.\<close>

lemma create_failure_null_deref:
  "lw_ptr w = No_Data \<Longrightarrow> \<not> lw_locked w \<Longrightarrow> sem_id < 0 \<Longrightarrow> sem_create expand b sem_id setall w = Some (Inl Null_Deref)"
  by (simp add: sem_create_def hako_log_add_eq add_log_eq)

section \<open>The ring buffer of the specification\<close>

text \<open>
  \<open>docs/SHARED_MEMORY_SPEC_EN.md\<close> describes the log as a ring buffer: a new message takes the
  place of the oldest one.
\<close>

definition ring_add :: "nat \<Rightarrow> 'a \<Rightarrow> 'a list \<Rightarrow> 'a list" where
  "ring_add n e es = (if length es < n then es @ [e] else tl es @ [e])"

definition ring_log :: "nat \<Rightarrow> 'a list \<Rightarrow> 'a list" where
  "ring_log n es = fold (ring_add n) es []"

lemma ring_log_newest: "0 < n \<Longrightarrow> ring_log n es = drop (length es - n) es"
proof (induction es rule: rev_induct)
  case (snoc e es)
  then have "ring_log n (es @ [e]) = ring_add n e (drop (length es - n) es)" by (simp add: ring_log_def)
  also have "\<dots> = drop (length (es @ [e]) - n) (es @ [e])"
    using snoc.prems by (auto simp: ring_add_def tl_drop Suc_diff_le drop_Suc [symmetric])
  finally show ?case .
qed (simp add: ring_log_def)

text \<open>The log with the messages of \<open>cs\<close>.\<close>

lemma logged:
  "\<exists>w. run_logs expand cs (empty_log vs) = Some (Inr w) \<and>
    print_log w = Inr (take HAKO_LOGGER_LOGNUM (map (entry_of expand) cs)) \<and>
    lw_sem w = Some (1 # vs) \<and> \<not> lw_locked w"
proof -
  let ?d = "map (\<lambda>i. if 0 \<le> i \<and> i < 0 + length cs then entry_of expand (cs ! (i - 0)) else log_data (lw_log (empty_log vs)) ! i)
    [0..<HAKO_LOGGER_LOGNUM]"
  let ?w = "(empty_log vs)\<lparr>lw_log := \<lparr>log_index = int (min (0 + length cs) HAKO_LOGGER_LOGNUM), log_data = ?d\<rparr>\<rparr>"
  have run: "run_logs expand cs (empty_log vs) = Some (Inr ?w)"
    by (rule run_logs_ready [OF empty_log_ready]) (simp_all add: empty_log_def)
  have "take (min (length cs) HAKO_LOGGER_LOGNUM) ?d = take HAKO_LOGGER_LOGNUM (map (entry_of expand) cs)"
    by (rule nth_equalityI) auto
  then have "print_log ?w = Inr (take HAKO_LOGGER_LOGNUM (map (entry_of expand) cs))"
    by (simp add: print_log_def empty_log_def)
  then show ?thesis using run by (intro exI [of _ ?w]) (simp add: empty_log_def)
qed

section \<open>Properties\<close>

text \<open>
  C38: How the log deviates from the ring buffer that \<open>docs/SHARED_MEMORY_SPEC_EN.md\<close>
  describes. Starting from an empty log with a free master lock, any sequence of log calls
  returns, and the semaphores are as before. Its messages are the texts of the calls, cut to
  255 characters. The log holds the first 4096 of them in their order, where a ring buffer
  of this size holds the last 4096: up to 4096 calls the two are equal, and from then on a
  message that is not in the log already is in the ring buffer and never gets into the log.
\<close>

theorem log_keeps_first:
  fixes expand cs vs
  defines "messages \<equiv> map (\<lambda>c. take 255 (expand (add_log_internal c))) cs"
  shows "\<exists>w kept. run_logs expand cs (empty_log vs) = Some (Inr w) \<and> print_log w = Inr kept \<and>
    lw_sem w = Some (1 # vs) \<and> \<not> lw_locked w \<and> kept = take 4096 messages \<and>
    ring_log 4096 messages = drop (length cs - 4096) messages \<and>
    (length cs \<le> 4096 \<longrightarrow> kept = ring_log 4096 messages) \<and>
    (4096 < length cs \<and> last messages \<notin> set (take 4096 messages) \<longrightarrow>
       last messages \<in> set (ring_log 4096 messages) \<and> last messages \<notin> set kept)"
proof -
  have m: "messages = map (entry_of expand) cs" "length messages = length cs"
    by (simp_all add: messages_def entry_of_def [abs_def] HAKO_LOGGER_ENTRYSIZE_def)
  have ring: "ring_log 4096 messages = drop (length cs - 4096) messages" by (simp add: ring_log_newest m(2))
  have "last messages \<in> set (drop (length cs - 4096) messages)" if "4096 < length cs"
    using that m(2) by (metis diff_less last_drop last_in_set drop_eq_Nil not_le zero_less_numeral less_trans)
  then show ?thesis
    using logged [of expand cs vs] ring m(1,2) by (auto simp: HAKO_LOGGER_LOGNUM_def)
qed

definition demo_log_call :: "string \<Rightarrow> log_call" where
  "demo_log_call text = \<lparr>lc_level = ''I'', lc_file = ''f'', lc_line = 1, lc_function = ''g'', lc_format = text\<rparr>"

theorem log_keeps_first_witness:
  "\<exists>w kept. run_logs id (replicate 4096 (demo_log_call ''a'') @ [demo_log_call ''b'']) (empty_log []) = Some (Inr w) \<and>
    print_log w = Inr kept \<and> ''I [f:1 g] b'' \<notin> set kept \<and>
    ''I [f:1 g] b'' \<in> set (ring_log 4096 (map add_log_internal (replicate 4096 (demo_log_call ''a'') @ [demo_log_call ''b''])))"
proof -
  let ?cs = "replicate 4096 (demo_log_call ''a'') @ [demo_log_call ''b'']"
  have e: "add_log_internal (demo_log_call ''a'') = ''I [f:1 g] a''" "add_log_internal (demo_log_call ''b'') = ''I [f:1 g] b''"
    by code_simp+
  then have m: "map (\<lambda>c. take 255 (id (add_log_internal c))) ?cs = replicate 4096 ''I [f:1 g] a'' @ [''I [f:1 g] b'']"
    "map add_log_internal ?cs = replicate 4096 ''I [f:1 g] a'' @ [''I [f:1 g] b'']" by simp_all
  show ?thesis using log_keeps_first [of id ?cs "[]", unfolded m(1)] m(2) by auto
qed

text \<open>
  C39: Once the semaphores of the System V backend have been removed, no process that is
  still attached gets out of the library again: unless its log is full, the master lock, the
  release of it, the semaphores of the assets and the log itself never return, because the
  failure of the lock is logged and the log takes the lock.
\<close>

theorem lost_semaphores_never_return:
  assumes "lw_ptr w = Attached" and "\<not> lw_locked w" and "log_index (lw_log w) < int HAKO_LOGGER_LOGNUM"
  shows "run_op expand op (sem_destroy w) = None"
proof -
  have "lost_world (sem_destroy w)" "\<not> lw_locked (sem_destroy w)" using assms by (simp_all add: lost_world_def sem_destroy_def)
  then show ?thesis using lost_never_returns [of expand op "sem_destroy w"] by (cases "run_op expand op (sem_destroy w)") blast+
qed

theorem lost_semaphores_never_return_witness: "run_op (\<lambda>s. s) Md_Lock (sem_destroy (empty_log [0, 0])) = None"
  by (rule lost_semaphores_never_return) (simp_all add: empty_log_def HAKO_LOGGER_LOGNUM_def)

end
