(* ===== verification/Hako_Semaphores.thy ===== *)
theory Hako_Semaphores
  imports Hako_Lock_Calls Hako_Log
begin

text \<open>
  The semaphores of the assets, by which the master wakes their proxy threads. The library has
  two implementations, in the lock file and with System V semaphores, and
  \<open>hako_internal_rpc.cpp\<close> chooses between them at run time. The locale \<open>hako_semaphores\<close> is what
  it relies on; both implementations meet it and therefore agree with counters.
\<close>

section \<open>The interface\<close>

text \<open>
  \<open>value s\<close> are the counters, zero beyond the number of assets; an operation is \<open>None\<close> when
  it does not return, as a \<open>down\<close> of a counter at zero that nobody raises.
\<close>

locale hako_semaphores =
  fixes ok :: "'s \<Rightarrow> bool" and val :: "'s \<Rightarrow> nat \<Rightarrow> nat" and num :: nat and limit :: nat
    and up :: "nat \<Rightarrow> 's \<Rightarrow> 's option" and down :: "nat \<Rightarrow> 's \<Rightarrow> 's option"
  assumes up_counts: "ok s \<Longrightarrow> a < num \<Longrightarrow> val s a < limit \<Longrightarrow> \<exists>s'. up a s = Some s' \<and> ok s' \<and> val s' = (val s)(a := Suc (val s a))"
    and down_counts: "ok s \<Longrightarrow> a < num \<Longrightarrow> 0 < val s a \<Longrightarrow> \<exists>s'. down a s = Some s' \<and> ok s' \<and> val s' = (val s)(a := val s a - 1)"
    and down_waits: "ok s \<Longrightarrow> a < num \<Longrightarrow> val s a = 0 \<Longrightarrow> down a s = None"

datatype sem_op = Sem_Up nat | Sem_Down nat

fun sem_asset :: "sem_op \<Rightarrow> nat" where
  "sem_asset (Sem_Up a) = a"
| "sem_asset (Sem_Down a) = a"

fun sem_run :: "(nat \<Rightarrow> 's \<Rightarrow> 's option) \<Rightarrow> (nat \<Rightarrow> 's \<Rightarrow> 's option) \<Rightarrow> sem_op list \<Rightarrow> 's \<Rightarrow> 's option" where
  "sem_run up down [] s = Some s"
| "sem_run up down (Sem_Up a # ops) s = Option.bind (up a s) (sem_run up down ops)"
| "sem_run up down (Sem_Down a # ops) s = Option.bind (down a s) (sem_run up down ops)"

text \<open>The same sequence on plain counters.\<close>

fun count_run :: "sem_op list \<Rightarrow> (nat \<Rightarrow> nat) \<Rightarrow> (nat \<Rightarrow> nat) option" where
  "count_run [] v = Some v"
| "count_run (Sem_Up a # ops) v = count_run ops (v(a := v a + 1))"
| "count_run (Sem_Down a # ops) v = (if v a = 0 then None else count_run ops (v(a := v a - 1)))"

context hako_semaphores
begin

lemma run_counts:
  assumes "ok s" and "\<forall>op \<in> set ops. sem_asset op < num" and "\<forall>a < num. val s a + length ops \<le> limit"
  shows "map_option val (sem_run up down ops s) = count_run ops (val s)"
  using assms
proof (induction ops arbitrary: s)
  case (Cons op ops)
  show ?case
  proof (cases op)
    case (Sem_Up a)
    then have a: "a < num" "val s a < limit" using Cons.prems(2,3) by (auto simp: less_eq_Suc_le intro: add_leE)
    obtain s' where s': "up a s = Some s'" "ok s'" "val s' = (val s)(a := Suc (val s a))"
      using up_counts [OF Cons.prems(1) a] by blast
    have "\<forall>b < num. val s' b + length ops \<le> limit" using Cons.prems(3) s'(3) by (auto simp: fun_upd_def)
    then have "map_option val (sem_run up down ops s') = count_run ops (val s')"
      using Cons.IH [OF s'(2)] Cons.prems(2) by simp
    then show ?thesis using Sem_Up s'(1) by (simp add: s'(3))
  next
    case (Sem_Down a)
    then have a: "a < num" using Cons.prems(2) by simp
    show ?thesis
    proof (cases "val s a = 0")
      case True
      then show ?thesis using Sem_Down down_waits [OF Cons.prems(1) a] by simp
    next
      case False
      obtain s' where s': "down a s = Some s'" "ok s'" "val s' = (val s)(a := val s a - 1)"
        using down_counts [OF Cons.prems(1) a] False by blast
      have "\<forall>b < num. val s' b + length ops \<le> limit" using Cons.prems(3) s'(3) by (auto simp: fun_upd_def dest: spec)
      then have "map_option val (sem_run up down ops s') = count_run ops (val s')"
        using Cons.IH [OF s'(2)] Cons.prems(2) by simp
      then show ?thesis using Sem_Down False s'(1) by (simp add: s'(3))
    qed
  qed
qed simp

end

section \<open>In the lock file\<close>

text \<open>
  A process on a lock file that no other process uses at the time; \<open>num\<close> assets have a counter.
\<close>

definition flock_ok :: "nat \<Rightarrow> sem_env \<times> HakoFlockObject \<Rightarrow> bool" where
  "flock_ok num s \<longleftrightarrow> num < HAKO_CONFIG_MAX_SEM \<and> flock_free (fst s) \<and> unlocked (snd s) \<and> fl_faults (snd s) = [] \<and>
     full_size (fl_bytes (snd s)) \<and> (\<forall>a < num. unat (get_counter (fl_bytes (snd s)) (Suc a)) \<le> SEMVMX)"

definition flock_val :: "nat \<Rightarrow> sem_env \<times> HakoFlockObject \<Rightarrow> nat \<Rightarrow> nat" where
  "flock_val num s a = (if a < num then unat (get_counter (fl_bytes (snd s)) (Suc a)) else 0)"

definition flock_up :: "nat \<Rightarrow> sem_env \<times> HakoFlockObject \<Rightarrow> (sem_env \<times> HakoFlockObject) option" where
  "flock_up a s = (case flock_asset_up a (fst s) (snd s) of Some (None, h) \<Rightarrow> Some (fst s, h) | _ \<Rightarrow> None)"

definition flock_down :: "nat \<Rightarrow> sem_env \<times> HakoFlockObject \<Rightarrow> (sem_env \<times> HakoFlockObject) option" where
  "flock_down a s =
    (case flock_asset_down a (\<lambda>_. fst s) 0 (\<lambda>_ h. h) (snd s) of Some (None, h) \<Rightarrow> Some (fst s, h) | _ \<Rightarrow> None)"

lemma flock_read_ok:
  "fl_faults h = [] \<Longrightarrow> full_size (fl_bytes h) \<Longrightarrow> i < HAKO_CONFIG_MAX_SEM \<Longrightarrow>
   hako_flock_read i old h = (get_counter (fl_bytes h) i, h)"
  by (simp add: hako_flock_read_def next_fault_def get_counter_def slice_def full_size_def layout_defs Let_def)

lemma flock_write_ok:
  "fl_faults h = [] \<Longrightarrow> full_size (fl_bytes h) \<Longrightarrow> i < HAKO_CONFIG_MAX_SEM \<Longrightarrow>
   hako_flock_write i v h = h\<lparr>fl_bytes := set_counter i v (fl_bytes h)\<rparr>"
  by (simp add: hako_flock_write_def)

lemma release_restores:
  "unlocked h \<Longrightarrow> hako_flock_release (h\<lparr>lock_count := 1, os_locked := True\<rparr>) = h"
  "unlocked h \<Longrightarrow> hako_flock_release (h\<lparr>lock_count := 1, os_locked := True, fl_bytes := f\<rparr>) = h\<lparr>fl_bytes := f\<rparr>"
  by (cases h; simp add: hako_flock_release_def unlocked_def)+

lemma semaphore_up_ok:
  assumes "flock_free env" "unlocked h" "fl_faults h = []" "full_size (fl_bytes h)" "i < HAKO_CONFIG_MAX_SEM"
  shows "semaphore_up i env h = Some (None, h\<lparr>fl_bytes := set_counter i (get_counter (fl_bytes h) i + 1) (fl_bytes h)\<rparr>)"
  using assms by (simp add: semaphore_up_def flock_read_ok flock_write_ok release_restores)

lemma semaphore_down_turn_ok:
  assumes "flock_free env" "unlocked h" "fl_faults h = []" "full_size (fl_bytes h)" "i < HAKO_CONFIG_MAX_SEM"
  shows "semaphore_down_turn i env h =
    Some (if 0 < sint (get_counter (fl_bytes h) i)
          then (Turn_Done, h\<lparr>fl_bytes := set_counter i (get_counter (fl_bytes h) i - 1) (fl_bytes h)\<rparr>) else (Turn_Again, h))"
  using assms by (simp add: semaphore_down_turn_def flock_read_ok flock_write_ok release_restores)

text \<open>A turn that changes nothing and is to be repeated goes on for ever.\<close>

lemma wait_loop_stuck:
  assumes "body env h = Some (Turn_Again, h)"
  shows "\<not> wait_enabled (se_wait env) \<Longrightarrow> wait_loop (\<lambda>_. env) started (\<lambda>_ h. h) body k h = None"
proof (rule ccontr)
  assume nw: "\<not> wait_enabled (se_wait env)" and "wait_loop (\<lambda>_. env) started (\<lambda>_ h. h) body k h \<noteq> None"
  then obtain r where "wait_loop (\<lambda>_. env) started (\<lambda>_ h. h) body k h = Some r" by blast
  then have "\<not> ((\<lambda>_. env) = (\<lambda>_ :: nat. env) \<and> (\<lambda>_ h. h) = (\<lambda>_ :: nat. \<lambda>h :: HakoFlockObject. h) \<and> body env h = Some (Turn_Again, h))"
  proof (rule wait_loop.raw_induct [rotated, where P = "\<lambda>env' started others body' k h' r.
      \<not> (env' = (\<lambda>_. env) \<and> others = (\<lambda>_ h. h) \<and> body' env h' = Some (Turn_Again, h'))"], goal_cases)
    case (1 loop env' started others body' k h' r)
    show ?case
    proof
      assume a: "env' = (\<lambda>_. env) \<and> others = (\<lambda>_ h. h) \<and> body' env h' = Some (Turn_Again, h')"
      then have "loop (\<lambda>_. env) started (\<lambda>_ h. h) body' (Suc k) h' = Some r"
        using 1(2) nw by (simp add: hako_flock_wait_checkpoint_def)
      from 1(1) [OF this] show False using a by simp
    qed
  qed
  then show False using assms by simp
qed

lemma small_counter:
  assumes "unat (v :: 32 word) \<le> SEMVMX"
  shows "0 < sint v \<longleftrightarrow> 0 < unat v"
proof -
  have u: "uint v = int (unat v)" by simp
  have le: "uint v \<le> 32767" using assms unfolding u SEMVMX_def by linarith
  have "- (2 ^ 31) \<le> (0 :: int)" "(32767 :: int) < 2 ^ 31" by simp_all
  then have "- (2 ^ 31) \<le> uint v" "uint v < 2 ^ 31"
    using order_trans [of "- (2 ^ 31)" 0 "uint v"] order_le_less_trans [OF le] by simp_all
  then have "sint v = uint v" by (simp only: sint_uint) (simp add: signed_take_bit_int_eq_self)
  then show ?thesis using u by linarith
qed

lemma counter_step:
  assumes "unat (v :: 32 word) \<le> SEMVMX"
  shows "unat (v + 1) = Suc (unat v)" and "0 < unat v \<Longrightarrow> unat (v - 1) = unat v - 1"
proof -
  have "v + 1 \<noteq> 0"
  proof
    assume "v + 1 = 0"
    then have "v = - 1" by (metis add.inverse_unique add.commute)
    then show False using assms by (simp add: SEMVMX_def unsigned_minus_1_eq_mask mask_eq_exp_minus_1)
  qed
  then show "unat (v + 1) = Suc (unat v)" by (metis unatSuc add.commute)
  assume "0 < unat v"
  then have "1 \<le> v" by (simp add: word_le_nat_alt)
  then show "unat (v - 1) = unat v - 1" by (simp add: unat_sub)
qed

interpretation fl: hako_semaphores "flock_ok num" "flock_val num" num SEMVMX flock_up flock_down
proof (unfold_locales, goal_cases)
  case (1 s a)
  obtain env h where s: "s = (env, h)" by (cases s)
  have i: "Suc a < HAKO_CONFIG_MAX_SEM" "unat (get_counter (fl_bytes h) (Suc a)) < SEMVMX" using 1 s by (auto simp: flock_ok_def flock_val_def)
  have up: "flock_up a s = Some (env, h\<lparr>fl_bytes := set_counter (Suc a) (get_counter (fl_bytes h) (Suc a) + 1) (fl_bytes h)\<rparr>)"
    using 1 s i(1) semaphore_up_ok [of env h "Suc a"] by (simp add: flock_up_def flock_asset_up_def flock_ok_def)
  show ?case unfolding up
    using 1 s i counter_step(1) [of "get_counter (fl_bytes h) (Suc a)"]
    by (auto simp: flock_ok_def flock_val_def unlocked_def fun_eq_iff)
next
  case (2 s a)
  obtain env h where s: "s = (env, h)" by (cases s)
  have i: "Suc a < HAKO_CONFIG_MAX_SEM" "unat (get_counter (fl_bytes h) (Suc a)) \<le> SEMVMX" "0 < unat (get_counter (fl_bytes h) (Suc a))"
    using 2 s by (auto simp: flock_ok_def flock_val_def)
  have "semaphore_down_turn (Suc a) env h =
      Some (Turn_Done, h\<lparr>fl_bytes := set_counter (Suc a) (get_counter (fl_bytes h) (Suc a) - 1) (fl_bytes h)\<rparr>)"
    using 2 s i small_counter [OF i(2)] semaphore_down_turn_ok [of env h "Suc a"] by (simp add: flock_ok_def)
  then have down: "flock_down a s = Some (env, h\<lparr>fl_bytes := set_counter (Suc a) (get_counter (fl_bytes h) (Suc a) - 1) (fl_bytes h)\<rparr>)"
    using 2 s unfolding flock_down_def flock_asset_down_def semaphore_down_def
    by (subst wait_loop.simps) (simp add: flock_ok_def flock_free_def hako_flock_wait_checkpoint_def)
  show ?case unfolding down
    using 2 s i counter_step(2) [OF i(2,3)] by (auto simp: flock_ok_def flock_val_def unlocked_def fun_eq_iff)
next
  case (3 s a)
  obtain env h where s: "s = (env, h)" by (cases s)
  have i: "Suc a < HAKO_CONFIG_MAX_SEM" "unat (get_counter (fl_bytes h) (Suc a)) = 0" using 3 s by (auto simp: flock_ok_def flock_val_def)
  have "semaphore_down_turn (Suc a) env h = Some (Turn_Again, h)"
    using 3 s i small_counter [of "get_counter (fl_bytes h) (Suc a)"] semaphore_down_turn_ok [of env h "Suc a"] by (simp add: flock_ok_def)
  then have "wait_loop (\<lambda>_. env) 0 (\<lambda>_ h. h) (semaphore_down_turn (Suc a)) 0 h = None"
    using 3 s by (intro wait_loop_stuck) (simp_all add: flock_ok_def flock_free_def)
  then show ?case using s by (simp add: flock_down_def flock_asset_down_def semaphore_down_def)
qed

section \<open>With System V semaphores\<close>

definition sysv_ok :: "nat \<Rightarrow> log_world \<Rightarrow> bool" where
  "sysv_ok num w \<longleftrightarrow> num < 65536 \<and> lw_wakes w = [] \<and> (\<exists>vs. lw_sem w = Some vs \<and> length vs = Suc num)"

definition sysv_val :: "nat \<Rightarrow> log_world \<Rightarrow> nat \<Rightarrow> nat" where
  "sysv_val num w a = (case lw_sem w of None \<Rightarrow> 0 | Some vs \<Rightarrow> if a < num then vs ! Suc a else 0)"

definition sysv_up :: "(string \<Rightarrow> string) \<Rightarrow> nat \<Rightarrow> log_world \<Rightarrow> log_world option" where
  "sysv_up expand a w = (case sem_asset_up expand (int a) w of Some (Inr w) \<Rightarrow> Some w | _ \<Rightarrow> None)"

definition sysv_down :: "(string \<Rightarrow> string) \<Rightarrow> nat \<Rightarrow> log_world \<Rightarrow> log_world option" where
  "sysv_down expand a w = (case sem_asset_down expand (int a) w of Some (Inr w) \<Rightarrow> Some w | _ \<Rightarrow> None)"

lemma sem_num_small: "a < 65535 \<Longrightarrow> sem_num (int a) = Suc a"
  by (simp add: sem_num_def)

interpretation sv: hako_semaphores "sysv_ok num" "sysv_val num" num SEMVMX "sysv_up expand" "sysv_down expand"
proof (unfold_locales, goal_cases)
  case (1 w a)
  then obtain vs where vs: "lw_sem w = Some vs" "length vs = Suc num" "vs ! Suc a < SEMVMX" "a < 65535" "lw_wakes w = []"
    by (auto simp: sysv_ok_def sysv_val_def)
  then have "sysv_up expand a w = Some (w\<lparr>lw_sem := Some (vs[Suc a := vs ! Suc a + 1])\<rparr>)"
    using 1(2) by (simp add: sysv_up_def sem_asset_calls semop_up_def sem_num_small)
  then show ?case using 1 vs by (auto simp: sysv_ok_def sysv_val_def fun_eq_iff)
next
  case (2 w a)
  then obtain vs where vs: "lw_sem w = Some vs" "length vs = Suc num" "0 < vs ! Suc a" "a < 65535" "lw_wakes w = []"
    by (auto simp: sysv_ok_def sysv_val_def)
  then have "sysv_down expand a w = Some (w\<lparr>lw_sem := Some (vs[Suc a := vs ! Suc a - 1]), lw_wakes := []\<rparr>)"
    using 2(2) by (simp add: sysv_down_def sem_asset_calls try_down_def sem_num_small)
  then show ?case using 2 vs by (auto simp: sysv_ok_def sysv_val_def fun_eq_iff)
next
  case (3 w a)
  then obtain vs where "lw_sem w = Some vs" "length vs = Suc num" "vs ! Suc a = 0" "a < 65535" "lw_wakes w = []"
    by (auto simp: sysv_ok_def sysv_val_def)
  then show ?case using 3(2) by (simp add: sysv_down_def sem_asset_calls try_down_def sem_num_small)
qed

section \<open>Properties\<close>

text \<open>
  C37: The two implementations of the assets' semaphores are interchangeable: any sequence of
  raises and waits, started with the same counters, gets through one exactly if it gets
  through the other, namely if no wait meets a counter at zero, and leaves the same counters,
  those of plain counting. The bound is that of a System V semaphore.
\<close>

theorem semaphore_backends_agree:
  assumes "flock_ok num (env, h)" and "sysv_ok num w" and "flock_val num (env, h) = sysv_val num w"
    and "\<forall>op \<in> set ops. sem_asset op < num" and "\<forall>a < num. sysv_val num w a + length ops \<le> SEMVMX"
  shows "map_option (flock_val num) (sem_run flock_up flock_down ops (env, h)) = count_run ops (sysv_val num w) \<and>
    map_option (sysv_val num) (sem_run (sysv_up expand) (sysv_down expand) ops w) = count_run ops (sysv_val num w)"
  using fl.run_counts [OF assms(1,4)] sv.run_counts [OF assms(2,4,5)] assms(3,5) by simp

lemma fresh_counters: "0 < i \<Longrightarrow> i < HAKO_CONFIG_MAX_SEM \<Longrightarrow> get_counter fresh_file i = 0"
proof -
  assume i: "0 < i" "i < HAKO_CONFIG_MAX_SEM"
  have full: "full_size (replicate MASTER_LOCK_FLOCK_SIZE 0)" by (simp add: full_size_def)
  have "slice (replicate MASTER_LOCK_FLOCK_SIZE 0) (i * 4) 4 = replicate 4 (0 :: byte)"
    using i(2) by (simp add: slice_def layout_defs)
  then have "get_counter (replicate MASTER_LOCK_FLOCK_SIZE 0) i = 0"
    by (simp add: get_counter_def int_of_bytes_def) (simp add: numeral_eq_Suc)
  then show ?thesis using i full by (simp add: fresh_file_def)
qed

text \<open>A raise and a wait on the counter of asset 1, of a new lock file and new semaphores.\<close>

theorem semaphore_backends_agree_witness:
  "map_option (flock_val 3) (sem_run flock_up flock_down [Sem_Up 1, Sem_Down 1] (demo_sem_env, demo_lock)) = Some (\<lambda>_. 0) \<and>
   map_option (sysv_val 3) (sem_run (sysv_up (\<lambda>s. s)) (sysv_down (\<lambda>s. s)) [Sem_Up 1, Sem_Down 1] (empty_log [0, 0, 0])) = Some (\<lambda>_. 0)"
proof -
  have zero: "get_counter (fl_bytes demo_lock) (Suc a) = 0" if "a < 3" for a
    using that fresh_counters [of "Suc a"] by (simp add: demo_lock_def new_handle_def HAKO_CONFIG_MAX_SEM_def)
  have ok: "flock_ok 3 (demo_sem_env, demo_lock)" "sysv_ok 3 (empty_log [0, 0, 0])"
    using demo_lock_facts zero by (simp_all add: flock_ok_def sysv_ok_def empty_log_def free_lock_def HAKO_CONFIG_MAX_SEM_def)
  have sv0: "sysv_val 3 (empty_log [0, 0, 0]) = (\<lambda>_. 0)"
    by (auto simp: sysv_val_def empty_log_def fun_eq_iff less_Suc_eq numeral_eq_Suc)
  have fl0: "flock_val 3 (demo_sem_env, demo_lock) = (\<lambda>_. 0)" using zero by (auto simp: flock_val_def)
  have "count_run [Sem_Up 1, Sem_Down 1] (\<lambda>_. 0) = Some (\<lambda>_. 0)" by (simp add: fun_upd_idem)
  then show ?thesis
    using semaphore_backends_agree [OF ok, of "[Sem_Up 1, Sem_Down 1]" "\<lambda>s. s"] by (simp add: sv0 fl0 SEMVMX_def)
qed

end
