(* ===== verification/Hako_Core.thy ===== *)
theory Hako_Core
  imports Hako_Master_Data
begin

text \<open>
  The entry points of the library, \<open>hako_impl.cpp\<close>, over the construction and destruction of
  the master data (\<open>init\<close>, \<open>load\<close> and \<open>destroy\<close> of \<open>hako_master_data.hpp\<close>) and the choice of
  the shared-memory backend (\<open>hako_shared_memory_factory.cpp\<close>): how a master process sets a
  simulation up, how other processes attach to it, and who takes it down.
\<close>

section \<open>The backend that the configuration chooses\<close>

text \<open>An object of either class; its virtual methods dispatch on the class.\<close>

datatype any_shm = Any_Mmap mmap_state | Any_Shm shm_state

fun any_create_memory :: "int \<Rightarrow> nat \<Rightarrow> any_shm \<Rightarrow> int \<times> any_shm" where
  "any_create_memory key sz (Any_Mmap m) = (case mmap_create_memory key sz m of (r, m) \<Rightarrow> (r, Any_Mmap m))"
| "any_create_memory key sz (Any_Shm m) = (case shm_create_memory key sz m of (r, m) \<Rightarrow> (r, Any_Shm m))"

fun any_load_memory :: "int \<Rightarrow> nat \<Rightarrow> any_shm \<Rightarrow> bool \<times> any_shm" where
  "any_load_memory key sz (Any_Mmap m) = (case mmap_load_memory key sz m of (r, m) \<Rightarrow> (r, Any_Mmap m))"
| "any_load_memory key sz (Any_Shm m) = (case shm_load_memory key sz m of (r, m) \<Rightarrow> (r, Any_Shm m))"

fun any_lock_memory :: "int \<Rightarrow> any_shm \<Rightarrow> bool" where
  "any_lock_memory key (Any_Mmap m) = mmap_lock_memory key m"
| "any_lock_memory key (Any_Shm m) = shm_lock_memory key m"

fun any_destroy_memory :: "int \<Rightarrow> any_shm \<Rightarrow> any_shm" where
  "any_destroy_memory key (Any_Mmap m) = Any_Mmap (mmap_destroy_memory key m)"
| "any_destroy_memory key (Any_Shm m) = Any_Shm (shm_destroy_memory key m)"

fun any_get_semid :: "int \<Rightarrow> any_shm \<Rightarrow> int" where
  "any_get_semid key (Any_Mmap m) = mmap_get_semid key m"
| "any_get_semid key (Any_Shm m) = shm_get_semid key m"

fun any_region :: "int \<Rightarrow> any_shm \<Rightarrow> byte list" where
  "any_region key (Any_Mmap m) = mmap_region key m"
| "any_region key (Any_Shm m) = shm_region key m"

fun any_set_region :: "int \<Rightarrow> byte list \<Rightarrow> any_shm \<Rightarrow> any_shm" where
  "any_set_region key bs (Any_Mmap m) = Any_Mmap (mmap_set_region key bs m)"
| "any_set_region key bs (Any_Shm m) = Any_Shm (shm_set_region key bs m)"

definition HakoSharedMemoryAny :: "any_shm HakoSharedMemory" where
  "HakoSharedMemoryAny =
    \<lparr>create_memory = any_create_memory, load_memory = any_load_memory,
     lock_memory = any_lock_memory, destroy_memory = any_destroy_memory,
     get_semid = any_get_semid, region = any_region, set_region = any_set_region\<rparr>"

fun any_invar :: "any_shm \<Rightarrow> bool" where
  "any_invar (Any_Mmap m) = mmap_invar m"
| "any_invar (Any_Shm m) = shm_invar m"

text \<open>
  The computer: the files and segments with the outcomes of its calls, and what the region
  of the master holds.
\<close>

record host =
  h_mmap :: mmap_state
  h_shm :: shm_state
  h_master :: "HakoMasterDataType \<times> HakoPduMetaDataType"

definition hako_shared_memory_create :: "host \<Rightarrow> string \<Rightarrow> any_shm option" where
  "hako_shared_memory_create host type =
    (if type = ''mmap'' then Some (Any_Mmap ((h_mmap host)\<lparr>mm_map := Map.empty\<rparr>))
     else if type = ''shm'' then Some (Any_Shm ((h_shm host)\<lparr>sv_map := Map.empty\<rparr>))
     else None)"

text \<open>What an object did to the region of a key, seen by the other processes.\<close>

fun publish :: "int \<Rightarrow> any_shm \<Rightarrow> host \<Rightarrow> host" where
  "publish key (Any_Mmap m) host =
     host\<lparr>h_mmap := (h_mmap host)\<lparr>mm_files := (mm_files (h_mmap host))(key := mm_files m key)\<rparr>\<rparr>"
| "publish key (Any_Shm m) host =
     host\<lparr>h_shm := (h_shm host)\<lparr>sv_segs := (sv_segs (h_shm host))(key := sv_segs m key)\<rparr>\<rparr>"

section \<open>The object of the master data\<close>

text \<open>
  \<open>cd_shmp\<close> is \<open>shmp_\<close>, \<open>cd_data\<close> what \<open>master_datap_\<close> and \<open>pdu_datap_\<close> point to; they are
  null together.
\<close>

record core_data =
  cd_shm_type :: string
  cd_shmp :: "any_shm option"
  cd_data :: "any_shm HakoMasterData option"

definition new_core_data :: core_data where
  "new_core_data = \<lparr>cd_shm_type = ''shm'', cd_shmp = None, cd_data = None\<rparr>"

text \<open>
  The environment of a process: its build, its pid, \<open>sizeof(HakoMasterDataType)\<close>, and the
  configuration file, if there is one, with its \<open>shm_type\<close> and, if that is a number, its
  \<open>asset_timeout_usec\<close>.
\<close>

record core_env =
  ce_build :: hako_build
  ce_pid :: int
  ce_size :: nat
  ce_config :: "(string \<times> int option) option"

definition new_master_data :: "HakoMasterDataType \<Rightarrow> any_shm HakoPduData \<Rightarrow> any_shm HakoMasterData" where
  "new_master_data d p =
     \<lparr>master_datap = d, pdu_datap = p, asset_timeout_usec = HAKO_ASSET_TIMEOUT_USEC, is_master_locked = False\<rparr>"

definition md_init :: "core_env \<Rightarrow> string \<Rightarrow> core_data \<Rightarrow> host \<Rightarrow> (core_data \<times> host) result" where
  "md_init env type obj host =
    (let obj = (if type \<noteq> ''shm'' then obj\<lparr>cd_shm_type := type\<rparr> else obj)
     in case hako_shared_memory_create host (cd_shm_type obj) of
          None \<Rightarrow> Inl Null_Deref
        | Some shm \<Rightarrow>
            let shmp = snd (any_create_memory HAKO_SHARED_MEMORY_ID_0 (ce_size env) shm)
            in if \<not> any_lock_memory HAKO_SHARED_MEMORY_ID_0 shmp then Inl Null_Deref
               else
                 let d = zero_master (ce_build env) (ce_pid env); m = zero_meta (ce_build env)
                 in bindE (new_HakoPduData m shm) (\<lambda>p.
                      Inr (obj\<lparr>cd_shmp := Some shmp, cd_data := Some (new_master_data d p)\<rparr>,
                           (publish HAKO_SHARED_MEMORY_ID_0 shmp host)\<lparr>h_master := (d, m)\<rparr>)))"

definition md_load :: "core_env \<Rightarrow> string \<Rightarrow> core_data \<Rightarrow> host \<Rightarrow> (bool \<times> core_data) result" where
  "md_load env type obj host =
    (if cd_shmp obj \<noteq> None then Inr (True, obj)
     else
       let obj = (if type \<noteq> ''shm'' then obj\<lparr>cd_shm_type := type\<rparr> else obj)
       in case hako_shared_memory_create host (cd_shm_type obj) of
            None \<Rightarrow> Inl Null_Deref
          | Some shm \<Rightarrow>
              let (datap, shmp) = any_load_memory HAKO_SHARED_MEMORY_ID_0 (ce_size env) shm;
                  obj = obj\<lparr>cd_shmp := Some shmp\<rparr>
              in if \<not> datap then Inr (False, obj)
                 else bindE (new_HakoPduData (snd (h_master host)) shm) (\<lambda>p.
                        Inr (True, obj\<lparr>cd_data := Some (new_master_data (fst (h_master host)) p)\<rparr>)))"

text \<open>\<open>HakoPduData::destroy\<close>; its pointers are null afterwards.\<close>

definition pdu_destroy :: "any_shm HakoPduData \<Rightarrow> any_shm HakoPduData" where
  "pdu_destroy w = w\<lparr>asset_shmp := any_destroy_memory HAKO_SHARED_MEMORY_ID_1 (asset_shmp w), pdu_ptr := False\<rparr>"

definition md_destroy :: "core_data \<Rightarrow> host \<Rightarrow> (core_data \<times> host) result" where
  "md_destroy obj host =
    (case cd_shmp obj of
       None \<Rightarrow> Inr (obj, host)
     | Some shmp \<Rightarrow>
         (case cd_data obj of
            None \<Rightarrow> Inl Null_Deref
          | Some d \<Rightarrow>
              let p = pdu_destroy (pdu_datap d);
                  shmp = any_destroy_memory HAKO_SHARED_MEMORY_ID_0 shmp
              in Inr (obj\<lparr>cd_shmp := None, cd_data := None\<rparr>,
                      publish HAKO_SHARED_MEMORY_ID_0 shmp (publish HAKO_SHARED_MEMORY_ID_1 (asset_shmp p) host))))"

section \<open>The entry points\<close>

text \<open>
  The static pointers of \<open>hako_impl.cpp\<close>. A controller, if there is one, is represented by
  whether its pointer to the master data is set.
\<close>

record hako_core =
  master_data_ptr :: "core_data option"
  master_ptr :: "bool option"
  asset_ptr :: "bool option"
  simevent_ptr :: "bool option"
  c_host :: host

definition fresh_core :: "host \<Rightarrow> hako_core" where
  "fresh_core host = \<lparr>master_data_ptr = None, master_ptr = None, asset_ptr = None, simevent_ptr = None, c_host = host\<rparr>"

text \<open>
  \<open>hako::log::add\<close>, as far as the entry points see it: without an object it does nothing,
  without its data it dereferences a null pointer.
\<close>

definition core_log :: "string \<Rightarrow> hako_core \<Rightarrow> hako_core result" where
  "core_log format c =
    (case master_data_ptr c of
       None \<Rightarrow> Inr c
     | Some obj \<Rightarrow>
         (case cd_data obj of
            None \<Rightarrow> Inl Null_Deref
          | Some d \<Rightarrow>
              if is_master_locked d then Inr c
              else Inr (c\<lparr>master_data_ptr := Some (obj\<lparr>cd_data := Some (HAKO_LOG ''INFO'' format d)\<rparr>)\<rparr>)))"

definition with_timeout :: "int option \<Rightarrow> core_data \<Rightarrow> core_data" where
  "with_timeout t obj =
    (case t of None \<Rightarrow> obj | Some t \<Rightarrow> obj\<lparr>cd_data := map_option (set_asset_timeout_usec t) (cd_data obj)\<rparr>)"

definition hako_init :: "core_env \<Rightarrow> hako_core \<Rightarrow> hako_core result" where
  "hako_init env c =
     bindE
      (if master_data_ptr c = None
       then case ce_config env of
              None \<Rightarrow>
                bindE (md_init env ''shm'' new_core_data (c_host c)) (\<lambda>(obj, host).
                  Inr (c\<lparr>master_data_ptr := Some obj, c_host := host\<rparr>))
            | Some (shm_type, timeout) \<Rightarrow>
                bindE (md_init env shm_type new_core_data (c_host c)) (\<lambda>(obj, host).
                  Inr (c\<lparr>master_data_ptr := Some (with_timeout timeout obj), c_host := host\<rparr>))
       else Inr c)
      (core_log ''hako::init(): shared memory type = %s'')"

definition hako_destroy :: "core_env \<Rightarrow> hako_core \<Rightarrow> hako_core result" where
  "hako_destroy env c =
    (let c = c\<lparr>master_ptr := None\<rparr>
     in case master_data_ptr c of
          None \<Rightarrow> Inl Null_Deref
        | Some obj \<Rightarrow>
            (case cd_data obj of
               None \<Rightarrow> Inl Null_Deref
             | Some d \<Rightarrow>
                 if ce_pid env \<noteq> master_pid (master_datap d) then Inr c
                 else bindE (md_destroy obj (c_host c)) (\<lambda>(obj, host).
                        Inr (c\<lparr>master_data_ptr := None, asset_ptr := None, simevent_ptr := None, c_host := host\<rparr>))))"

definition create_asset_controller :: "core_env \<Rightarrow> hako_core \<Rightarrow> (bool \<times> hako_core) result" where
  "create_asset_controller env c =
    (let finish = (\<lambda>c. bindE (core_log ''hako::create_asset_controller(): shared memory type = %s''
                           (c\<lparr>asset_ptr := Some (master_data_ptr c \<noteq> None)\<rparr>)) (\<lambda>c. Inr (True, c)))
     in if asset_ptr c \<noteq> None then Inr (True, c)
        else case master_data_ptr c of
               Some obj \<Rightarrow> finish c
             | None \<Rightarrow>
                 (case ce_config env of
                    None \<Rightarrow> Inr (False, c\<lparr>master_data_ptr := Some new_core_data\<rparr>)
                  | Some (shm_type, timeout) \<Rightarrow>
                      bindE (md_load env shm_type new_core_data (c_host c)) (\<lambda>(ok, obj).
                        if ok then finish (c\<lparr>master_data_ptr := Some obj\<rparr>)
                        else Inr (False, c\<lparr>master_data_ptr := Some obj\<rparr>))))"

text \<open>The constructor of the event controller creates the asset controller as well.\<close>

definition new_simevent_controller :: "core_env \<Rightarrow> hako_core \<Rightarrow> hako_core result" where
  "new_simevent_controller env c = bindE (create_asset_controller env c) (\<lambda>(_, c). Inr c)"

definition create_master :: "core_env \<Rightarrow> hako_core \<Rightarrow> hako_core result" where
  "create_master env c =
    (if master_ptr c \<noteq> None then Inr c
     else
       let data = (master_data_ptr c \<noteq> None)
       in bindE (new_simevent_controller env c) (\<lambda>c. Inr (c\<lparr>master_ptr := Some data\<rparr>)))"

definition get_simevent_controller :: "core_env \<Rightarrow> hako_core \<Rightarrow> (bool \<times> hako_core) result" where
  "get_simevent_controller env c =
    (let finish = (\<lambda>c. bindE (new_simevent_controller env c) (\<lambda>c'.
                   bindE (core_log ''hako::get_simevent_controller(): shared memory type = %s''
                           (c'\<lparr>simevent_ptr := Some (master_data_ptr c \<noteq> None)\<rparr>)) (\<lambda>c. Inr (True, c))))
     in if simevent_ptr c \<noteq> None then Inr (True, c)
        else case master_data_ptr c of
               Some obj \<Rightarrow> finish c
             | None \<Rightarrow>
                 (case ce_config env of
                    None \<Rightarrow> Inr (False, c\<lparr>master_data_ptr := Some new_core_data\<rparr>)
                  | Some (shm_type, timeout) \<Rightarrow>
                      bindE (md_load env shm_type new_core_data (c_host c)) (\<lambda>(ok, obj).
                        if ok then finish (c\<lparr>master_data_ptr := Some (with_timeout timeout obj)\<rparr>)
                        else Inr (False, c\<lparr>master_data_ptr := Some obj\<rparr>))))"

section \<open>The contract of the chosen backend\<close>

text \<open>Whatever backend is chosen, the object meets the contract of the class.\<close>

lemmas any_defs = HakoSharedMemoryAny_def HakoSharedMemoryMmap_def HakoSharedMemoryShm_def mmap_fits_def

interpretation any: hako_shared_memory HakoSharedMemoryAny any_invar shm_fits
proof (unfold_locales, goal_cases)
  case (1 m key sz)
  then show ?case
    using mmap.create_invar sysv.create_invar by (cases m) (auto simp: any_defs case_prod_beta)
next
  case (2 m sz key r m')
  then show ?case
    using mmap.create_maps sysv.create_maps by (cases m) (auto simp: any_defs split: prod.splits)
next
  case (3 key sz m r m')
  then show ?case
    using mmap.create_fails sysv.create_fails by (cases m) (auto simp: any_defs split: prod.splits)
next
  case (4 m key sz)
  then show ?case
    using mmap.load_invar sysv.load_invar by (cases m) (auto simp: any_defs case_prod_beta)
next
  case (5 key sz m m')
  then show ?case
    using mmap.load_maps sysv.load_maps by (cases m) (auto simp: any_defs split: prod.splits)
next
  case (6 key' key sz m)
  then show ?case
    using mmap.load_region sysv.load_region by (cases m) (auto simp: any_defs case_prod_beta)
next
  case (7 m key bs)
  then show ?case
    using mmap.set_invar sysv.set_invar by (cases m) (auto simp: any_defs)
next
  case (8 key' key bs m)
  then show ?case
    using mmap.set_maps sysv.set_maps by (cases m) (auto simp: any_defs)
next
  case (9 m key bs)
  then show ?case
    using mmap.region_set sysv.region_set by (cases m) (auto simp: any_defs)
next
  case (10 key' key bs m)
  then show ?case
    using mmap.region_set_other sysv.region_set_other by (cases m) (auto simp: any_defs)
next
  case (11 m key)
  then show ?case
    using mmap.destroy_invar sysv.destroy_invar by (cases m) (auto simp: any_defs)
next
  case (12 key m)
  then show ?case
    using mmap.destroy_unmaps sysv.destroy_unmaps by (cases m) (auto simp: any_defs)
qed

section \<open>A computer on which the calls succeed\<close>

definition host_ready :: "host \<Rightarrow> string \<Rightarrow> nat \<Rightarrow> bool" where
  "host_ready host type sz \<longleftrightarrow> 0 < sz \<and> sz + SIZEOF_META \<le> OFF_MAX \<and>
    (type = ''mmap'' \<and> os_malloc (mm_os (h_mmap host)) \<and> os_open_creat (mm_os (h_mmap host)) \<and>
       os_truncate (mm_os (h_mmap host)) \<and> os_open (mm_os (h_mmap host)) \<and> os_mmap (mm_os (h_mmap host)) \<and>
       0 \<le> os_flock_create (mm_os (h_mmap host)) HAKO_SHARED_MEMORY_ID_0 \<or>
     type = ''shm'' \<and> os_shmat (sv_os (h_shm host)) \<and> 0 \<le> os_shmid (sv_os (h_shm host)) HAKO_SHARED_MEMORY_ID_0 \<and>
       0 \<le> os_sem_create (sv_os (h_shm host)) HAKO_SHARED_MEMORY_ID_0 \<and>
       (\<forall>s. sv_segs (h_shm host) HAKO_SHARED_MEMORY_ID_0 = Some s \<longrightarrow> sz + SIZEOF_META \<le> region_len s))"

text \<open>The region of the master as another process finds it.\<close>

definition holds_region :: "host \<Rightarrow> string \<Rightarrow> nat \<Rightarrow> bool" where
  "holds_region host type sz \<longleftrightarrow>
    (\<forall>shm. hako_shared_memory_create host type = Some shm \<longrightarrow> fst (any_load_memory HAKO_SHARED_MEMORY_ID_0 sz shm))"

lemma small_sizes: "sz + SIZEOF_META \<le> OFF_MAX \<Longrightarrow> \<not> SIZE_MAX - SIZEOF_META < sz \<and> shm_total sz = sz + SIZEOF_META"
  by (simp add: SIZEOF_META_def OFF_MAX_def SIZE_MAX_def shm_total_def)

lemma region_len_zero [simp]: "OFFSETOF_DATA \<le> n \<Longrightarrow> region_len (zero_region n) = n"
  by (simp add: region_len_def)

lemma mmap_create_ready:
  assumes "host_ready host ''mmap'' sz" and "m = (h_mmap host)\<lparr>mm_map := Map.empty\<rparr>"
  shows "\<exists>f m'. mmap_create_memory HAKO_SHARED_MEMORY_ID_0 sz m = (0, m') \<and> mm_map m' HAKO_SHARED_MEMORY_ID_0 \<noteq> None \<and>
    mm_files m' HAKO_SHARED_MEMORY_ID_0 = Some f \<and> magic f = HAKO_SHM_MAGIC \<and> version f = HAKO_SHM_LAYOUT_VERSION \<and> data_size f = sz"
proof -
  have r: "sz + SIZEOF_META \<le> OFF_MAX" "os_malloc (mm_os m)" "os_open_creat (mm_os m)" "os_truncate (mm_os m)" "os_open (mm_os m)"
    "os_mmap (mm_os m)" "0 \<le> os_flock_create (mm_os m) HAKO_SHARED_MEMORY_ID_0"
    using assms by (simp_all add: host_ready_def)
  obtain ok m1 where c: "hako_mmap_create HAKO_SHARED_MEMORY_ID_0 (sz + SIZEOF_META) m = (ok, m1)" by force
  have ok using c r(1-6) by (auto simp: hako_mmap_create_def Let_def)
  then obtain f where "mm_os m1 = mm_os m" "mm_files m1 HAKO_SHARED_MEMORY_ID_0 = Some f" using hako_mmap_create_spec(2,4) [OF c] by blast
  note c = c \<open>ok\<close> this
  show ?thesis
    using r(7) c small_sizes [OF r(1)] by (simp add: mmap_create_memory_def Let_def)
qed

lemma shm_create_ready:
  assumes "host_ready host ''shm'' sz" and "m = (h_shm host)\<lparr>sv_map := Map.empty\<rparr>"
  shows "\<exists>r s m'. shm_create_memory HAKO_SHARED_MEMORY_ID_0 sz m = (r, m') \<and> sv_map m' HAKO_SHARED_MEMORY_ID_0 \<noteq> None \<and>
    sv_segs m' HAKO_SHARED_MEMORY_ID_0 = Some s \<and> sz + SIZEOF_META \<le> region_len s"
proof -
  have r: "sz + SIZEOF_META \<le> OFF_MAX" "os_shmat (sv_os m)" "0 \<le> os_shmid (sv_os m) HAKO_SHARED_MEMORY_ID_0"
    "0 \<le> os_sem_create (sv_os m) HAKO_SHARED_MEMORY_ID_0"
    "\<forall>s. sv_segs m HAKO_SHARED_MEMORY_ID_0 = Some s \<longrightarrow> sz + SIZEOF_META \<le> region_len s"
    using assms by (simp_all add: host_ready_def)
  have len: "region_len (s\<lparr>meta_sem_id := a, meta_shm_id := b, data_size := c\<rparr>) = region_len s" for s a b c
    by (simp add: region_len_def)
  have "OFFSETOF_DATA \<le> sz + SIZEOF_META" by (simp add: sizeof_defs)
  then show ?thesis
    using r small_sizes [OF r(1)] len
    by (cases "sv_segs m HAKO_SHARED_MEMORY_ID_0") (auto simp: shm_create_memory_def Let_def)
qed

lemma create_ready:
  assumes "host_ready host type sz"
  shows "\<exists>shm shmp. hako_shared_memory_create host type = Some shm \<and> snd (any_create_memory HAKO_SHARED_MEMORY_ID_0 sz shm) = shmp \<and>
    any_lock_memory HAKO_SHARED_MEMORY_ID_0 shmp \<and>
    holds_region (publish HAKO_SHARED_MEMORY_ID_0 shmp (host\<lparr>h_master := d\<rparr>)) type sz \<and>
    (holds_region (publish HAKO_SHARED_MEMORY_ID_0 (any_destroy_memory HAKO_SHARED_MEMORY_ID_0 shmp) (publish HAKO_SHARED_MEMORY_ID_0 shmp (host\<lparr>h_master := d\<rparr>))) type sz
      \<longleftrightarrow> type = ''mmap'')"
proof (cases "type = ''mmap''")
  case True
  have ready: "host_ready host ''mmap'' sz" using assms True by simp
  obtain f m' where m: "mmap_create_memory HAKO_SHARED_MEMORY_ID_0 sz ((h_mmap host)\<lparr>mm_map := Map.empty\<rparr>) = (0, m')"
    "mm_map m' HAKO_SHARED_MEMORY_ID_0 \<noteq> None" "mm_files m' HAKO_SHARED_MEMORY_ID_0 = Some f"
    "magic f = HAKO_SHM_MAGIC" "version f = HAKO_SHM_LAYOUT_VERSION" "data_size f = sz"
    using mmap_create_ready [OF ready refl] by blast
  then show ?thesis
    using ready True
    by (auto simp: hako_shared_memory_create_def holds_region_def mmap_lock_memory_def mmap_load_memory_def
        hako_mmap_open_def host_ready_def mmap_destroy_memory_def Let_def split: option.split)
next
  case False
  then have type: "type = ''shm''" and ready: "host_ready host ''shm'' sz" using assms by (auto simp: host_ready_def)
  obtain r s m' where m: "shm_create_memory HAKO_SHARED_MEMORY_ID_0 sz ((h_shm host)\<lparr>sv_map := Map.empty\<rparr>) = (r, m')"
    "sv_map m' HAKO_SHARED_MEMORY_ID_0 \<noteq> None" "sv_segs m' HAKO_SHARED_MEMORY_ID_0 = Some s" "sz + SIZEOF_META \<le> region_len s"
    using shm_create_ready [OF ready refl] by blast
  moreover have "sz + SIZEOF_META \<le> OFF_MAX" "os_shmat (sv_os (h_shm host))" "0 \<le> os_shmid (sv_os (h_shm host)) HAKO_SHARED_MEMORY_ID_0"
    using ready by (simp_all add: host_ready_def)
  ultimately show ?thesis
    using type small_sizes [of sz]
    by (auto simp: hako_shared_memory_create_def holds_region_def shm_lock_memory_def shm_load_memory_def
        shm_destroy_memory_def Let_def split: option.split)
qed

section \<open>Set-up, attachment and take-down\<close>

text \<open>The master data that a process works on.\<close>

definition attached :: "hako_core \<Rightarrow> HakoMasterDataType option" where
  "attached c = (case master_data_ptr c of None \<Rightarrow> None | Some obj \<Rightarrow> map_option master_datap (cd_data obj))"

lemma new_pdu_of_zero:
  "new_HakoPduData (zero_meta b) shm =
     Inr \<lparr>pdu_meta_data = zero_meta b, pdu_ptr = False, pdu_channel_cache = Map.empty, asset_shmp = shm, trace = []\<rparr>"
  by (simp add: new_HakoPduData_def rebuild_pdu_channel_index_def zero_meta_def Let_def)

lemma core_type: "(if type \<noteq> ''shm'' then new_core_data\<lparr>cd_shm_type := type\<rparr> else new_core_data) = new_core_data\<lparr>cd_shm_type := type\<rparr>"
  by (simp add: new_core_data_def)

lemma md_load_region:
  assumes "hako_shared_memory_create host type = Some shm" and "h_master host = (d, zero_meta b)"
  shows "\<exists>obj. md_load env type new_core_data host = Inr (holds_region host type (ce_size env), obj) \<and>
    (if holds_region host type (ce_size env)
     then \<exists>w. cd_data obj = Some w \<and> master_datap w = d \<and> \<not> is_master_locked w else cd_data obj = None)"
proof -
  obtain ok shmp where l: "any_load_memory HAKO_SHARED_MEMORY_ID_0 (ce_size env) shm = (ok, shmp)" by force
  then have "holds_region host type (ce_size env) = ok" using assms(1) by (simp add: holds_region_def)
  then show ?thesis
    using assms l unfolding md_load_def core_type
    by (simp add: Let_def new_pdu_of_zero new_master_data_def) (simp add: new_core_data_def)
qed

text \<open>The attempt to attach: it fails without a region, and then the next attempt faults.\<close>

lemma attach_region:
  assumes "ce_config env = Some (type, timeout)" and "hako_shared_memory_create host type = Some shm"
    and "h_master host = (d, zero_meta b)"
  shows "\<exists>c. create_asset_controller env (fresh_core host) = Inr (holds_region host type (ce_size env), c) \<and>
    c_host c = host \<and> master_ptr c = None \<and>
    (if holds_region host type (ce_size env) then attached c = Some d
     else create_asset_controller env c = Inl Null_Deref)"
proof -
  obtain obj where obj: "md_load env type new_core_data host = Inr (holds_region host type (ce_size env), obj)"
    "if holds_region host type (ce_size env)
     then \<exists>w. cd_data obj = Some w \<and> master_datap w = d \<and> \<not> is_master_locked w else cd_data obj = None"
    using md_load_region [OF assms(2,3)] by blast
  show ?thesis
  proof (cases "holds_region host type (ce_size env)")
    case True
    then obtain w where "cd_data obj = Some w" "master_datap w = d" "\<not> is_master_locked w" using obj(2) by auto
    then show ?thesis
      using True obj(1) assms(1) by (simp add: create_asset_controller_def fresh_core_def core_log_def attached_def)
  next
    case False
    then have "cd_data obj = None" using obj(2) by simp
    then show ?thesis
      using False obj(1) assms(1) by (simp add: create_asset_controller_def fresh_core_def core_log_def attached_def)
  qed
qed

lemma publish_master [simp]: "publish key s (host\<lparr>h_master := x\<rparr>) = (publish key s host)\<lparr>h_master := x\<rparr>"
  by (cases s) simp_all

lemma publish_h_master [simp]: "h_master (publish key s host) = h_master host"
  by (cases s) simp_all

text \<open>An object that has mapped nothing changes nothing.\<close>

lemma new_object_idle:
  assumes "hako_shared_memory_create host type = Some shm" and "key \<noteq> key'"
  shows "any_destroy_memory key shm = shm" and "publish key shm (publish key' s host) = publish key' s host"
  using assms
  by (cases s; auto simp: hako_shared_memory_create_def mmap_destroy_memory_def shm_destroy_memory_def
      fun_upd_idem split: if_splits)+

lemma create_after_publish: "hako_shared_memory_create host type \<noteq> None \<Longrightarrow> hako_shared_memory_create host' type \<noteq> None"
  by (simp add: hako_shared_memory_create_def split: if_splits)

lemma init_ready:
  assumes "ce_config env = Some (type, timeout)" and "hako_shared_memory_create host type = Some shm"
    and "snd (any_create_memory HAKO_SHARED_MEMORY_ID_0 (ce_size env) shm) = shmp" and "any_lock_memory HAKO_SHARED_MEMORY_ID_0 shmp"
  shows "\<exists>obj w. hako_init env (fresh_core host) = Inr ((fresh_core ((publish HAKO_SHARED_MEMORY_ID_0 shmp host)
      \<lparr>h_master := (zero_master (ce_build env) (ce_pid env), zero_meta (ce_build env))\<rparr>))\<lparr>master_data_ptr := Some obj\<rparr>) \<and>
    cd_shmp obj = Some shmp \<and> cd_data obj = Some w \<and> master_datap w = zero_master (ce_build env) (ce_pid env) \<and>
    asset_shmp (pdu_datap w) = shm"
  using assms unfolding hako_init_def md_init_def core_type
  by (cases timeout)
     (simp_all add: Let_def fresh_core_def new_core_data_def new_pdu_of_zero core_log_def with_timeout_def
       new_master_data_def set_asset_timeout_usec_def emit_def)

section \<open>Properties\<close>

text \<open>
  C23: The life of a simulation over either backend. A master process that finds its system
  calls working sets the zeroed data up under its pid; a process that attaches afterwards
  gets the same data; its own \<open>destroy\<close> changes nothing, because it is not the master; the
  master's \<open>destroy\<close> leaves it as new. After that a process can attach again exactly if the
  backend is mmap, whose files stay; with the System V backend the attempt fails, and the
  same process faults when it tries a second time.
\<close>

theorem library_life_cycle:
  assumes "ce_config env = Some (type, timeout)" and "host_ready host type (ce_size env)" and "pid \<noteq> ce_pid env"
  shows "\<exists>c1 c2 c3 c4. hako_init env (fresh_core host) = Inr c1 \<and>
    attached c1 = Some (zero_master (ce_build env) (ce_pid env)) \<and>
    create_asset_controller (env\<lparr>ce_pid := pid\<rparr>) (fresh_core (c_host c1)) = Inr (True, c2) \<and> attached c2 = attached c1 \<and>
    hako_destroy (env\<lparr>ce_pid := pid\<rparr>) c2 = Inr c2 \<and>
    hako_destroy env c1 = Inr c3 \<and> c3 = fresh_core (c_host c3) \<and>
    create_asset_controller (env\<lparr>ce_pid := pid\<rparr>) (fresh_core (c_host c3)) = Inr (type = ''mmap'', c4) \<and>
    (type \<noteq> ''mmap'' \<longrightarrow> create_asset_controller (env\<lparr>ce_pid := pid\<rparr>) c4 = Inl Null_Deref)"
proof -
  let ?d = "(zero_master (ce_build env) (ce_pid env), zero_meta (ce_build env))" and ?env = "env\<lparr>ce_pid := pid\<rparr>"
  obtain shm shmp where s: "hako_shared_memory_create host type = Some shm"
    "snd (any_create_memory HAKO_SHARED_MEMORY_ID_0 (ce_size env) shm) = shmp" "any_lock_memory HAKO_SHARED_MEMORY_ID_0 shmp"
    "holds_region ((publish HAKO_SHARED_MEMORY_ID_0 shmp host)\<lparr>h_master := ?d\<rparr>) type (ce_size env)"
    "holds_region (publish HAKO_SHARED_MEMORY_ID_0 (any_destroy_memory HAKO_SHARED_MEMORY_ID_0 shmp)
      ((publish HAKO_SHARED_MEMORY_ID_0 shmp host)\<lparr>h_master := ?d\<rparr>)) type (ce_size env) \<longleftrightarrow> type = ''mmap''"
    using create_ready [OF assms(2), of ?d] by auto
  let ?h1 = "(publish HAKO_SHARED_MEMORY_ID_0 shmp host)\<lparr>h_master := ?d\<rparr>"
  let ?h3 = "publish HAKO_SHARED_MEMORY_ID_0 (any_destroy_memory HAKO_SHARED_MEMORY_ID_0 shmp) ?h1"
  have cfg: "ce_config ?env = Some (type, timeout)" "ce_size ?env = ce_size env" using assms(1) by simp_all
  obtain obj w where c1: "hako_init env (fresh_core host) = Inr ((fresh_core ?h1)\<lparr>master_data_ptr := Some obj\<rparr>)"
    "cd_shmp obj = Some shmp" "cd_data obj = Some w" "master_datap w = fst ?d" "asset_shmp (pdu_datap w) = shm"
    using init_ready [OF assms(1) s(1-3)] by auto
  obtain shm1 shm3 where again: "hako_shared_memory_create ?h1 type = Some shm1" "hako_shared_memory_create ?h3 type = Some shm3"
    using create_after_publish [of host type] s(1) by fastforce
  obtain c2 where c2: "create_asset_controller ?env (fresh_core ?h1) = Inr (True, c2)" "c_host c2 = ?h1"
    "master_ptr c2 = None" "attached c2 = Some (fst ?d)"
    using attach_region [OF cfg(1) again(1), of "fst ?d" "ce_build env"] s(4) by (auto simp: cfg(2))
  have "hako_destroy ?env c2 = Inr c2"
    using c2(3,4) assms(3)
    by (cases c2) (auto simp: hako_destroy_def attached_def zero_master_def split: option.splits)
  moreover have "hako_destroy env ((fresh_core ?h1)\<lparr>master_data_ptr := Some obj\<rparr>) = Inr (fresh_core ?h3)"
  proof -
    have "HAKO_SHARED_MEMORY_ID_1 \<noteq> HAKO_SHARED_MEMORY_ID_0" by (simp add: HAKO_SHARED_MEMORY_ID_0_def HAKO_SHARED_MEMORY_ID_1_def)
    then show ?thesis
      using c1(2-5) new_object_idle [OF s(1)] by (simp add: hako_destroy_def fresh_core_def md_destroy_def pdu_destroy_def Let_def zero_master_def)
  qed
  moreover obtain c4 where "create_asset_controller ?env (fresh_core ?h3) = Inr (type = ''mmap'', c4)"
    "type \<noteq> ''mmap'' \<longrightarrow> create_asset_controller ?env c4 = Inl Null_Deref"
    using attach_region [OF cfg(1) again(2), of "fst ?d" "ce_build env"] s(5) by (auto simp: cfg(2))
  ultimately show ?thesis
    using c1 c2 by (intro exI [of _ "(fresh_core ?h1)\<lparr>master_data_ptr := Some obj\<rparr>"] exI [of _ c2] exI [of _ "fresh_core ?h3"] exI [of _ c4])
      (simp add: fresh_core_def attached_def)
qed

definition demo_host :: host where
  "demo_host =
    \<lparr>h_mmap = \<lparr>mm_files = Map.empty, mm_map = Map.empty,
       mm_os = \<lparr>os_malloc = True, os_open_creat = True, os_truncate = True, os_open = True, os_mmap = True, os_flock_create = (\<lambda>_. 7)\<rparr>\<rparr>,
     h_shm = \<lparr>sv_segs = Map.empty, sv_map = Map.empty,
       sv_os = \<lparr>os_shmat = True, os_shmid = (\<lambda>_. 3), os_sem_create = (\<lambda>_. 5)\<rparr>\<rparr>,
     h_master = (zero_master default_build 0, zero_meta default_build)\<rparr>"

definition demo_core_env :: core_env where
  "demo_core_env = \<lparr>ce_build = default_build, ce_pid = 100, ce_size = 4096, ce_config = Some (''shm'', Some 1000)\<rparr>"

theorem library_life_cycle_witness:
  "\<exists>c1 c3 c4. hako_init demo_core_env (fresh_core demo_host) = Inr c1 \<and> hako_destroy demo_core_env c1 = Inr c3 \<and>
    create_asset_controller (demo_core_env\<lparr>ce_pid := 200\<rparr>) (fresh_core (c_host c3)) = Inr (False, c4)"
proof -
  have "host_ready demo_host ''shm'' (ce_size demo_core_env)"
    by (simp add: host_ready_def demo_host_def demo_core_env_def SIZEOF_META_def OFF_MAX_def)
  then show ?thesis
    using library_life_cycle [of demo_core_env "''shm''" "Some 1000" demo_host 200]
    by (simp add: demo_core_env_def) blast
qed

end
