(* ===== verification/Hako_Extension.thy ===== *)
theory Hako_Extension
  imports Hako_Pdu_Theorems Hako_Core
begin

text \<open>
  The build with \<open>HAKO_CORE_EXTENSION\<close>: the interfaces of \<open>hako_extension.hpp\<close>, the calls
  of a registered extension from \<open>data/hako_pdu_data.hpp\<close> and \<open>data/hako_master_data.hpp\<close>,
  and the spin locks that this build offers to an extension. What an extension does is not
  part of the repository: its methods are arguments, arbitrary operations on the PDU object.
  The theorems compare this build with the default one and say when a write of an asset
  takes effect under an extension.
\<close>

section \<open>Extensions\<close>

record 'm IHakoAssetExtension =
  on_pdu_data_before_write :: "int \<Rightarrow> (bool, 'm) pdu_op"
  on_pdu_data_write :: "int \<Rightarrow> (bool, 'm) pdu_op"

record 'm IHakoMasterExtension =
  on_pdu_data_create :: "(bool, 'm) pdu_op"
  on_pdu_data_load :: "(bool, 'm) pdu_op"
  on_pdu_data_reset :: "(bool, 'm) pdu_op"
  on_pdu_data_destroy :: "(bool, 'm) pdu_op"

text \<open>The members of \<open>HakoPduData\<close> and of \<open>HakoMasterData\<close> in this build.\<close>

record 'm pdu_extensions =
  asset_extension :: "'m IHakoAssetExtension option"
  pdu_master_ext :: "'m IHakoMasterExtension option"

record 'm master_extensions =
  md_master_ext :: "'m IHakoMasterExtension option"
  md_pdu_exts :: "'m pdu_extensions"

definition no_extensions :: "'m pdu_extensions" where
  "no_extensions = \<lparr>asset_extension = None, pdu_master_ext = None\<rparr>"

definition pdu_register_asset_extension :: "'m IHakoAssetExtension option \<Rightarrow> 'm pdu_extensions \<Rightarrow> 'm pdu_extensions" where
  "pdu_register_asset_extension aext x = x\<lparr>asset_extension := aext\<rparr>"

definition pdu_register_master_extension :: "'m IHakoMasterExtension option \<Rightarrow> 'm pdu_extensions \<Rightarrow> 'm pdu_extensions" where
  "pdu_register_master_extension ext x = x\<lparr>pdu_master_ext := ext\<rparr>"

definition pdu_get_asset_extension :: "'m pdu_extensions \<Rightarrow> 'm IHakoAssetExtension option" where
  "pdu_get_asset_extension x = asset_extension x"

definition register_master_extension :: "'m IHakoMasterExtension option \<Rightarrow> 'm master_extensions \<Rightarrow> 'm master_extensions" where
  "register_master_extension ext y = y\<lparr>md_master_ext := ext\<rparr>"

definition md_register_asset_extension :: "'m IHakoAssetExtension option \<Rightarrow> 'm master_extensions \<Rightarrow> 'm master_extensions" where
  "md_register_asset_extension aext y =
    (let y = y\<lparr>md_pdu_exts := pdu_register_asset_extension aext (md_pdu_exts y)\<rparr>
     in y\<lparr>md_pdu_exts := pdu_register_master_extension (md_master_ext y) (md_pdu_exts y)\<rparr>)"

definition get_master_extension :: "'m master_extensions \<Rightarrow> 'm IHakoMasterExtension option" where
  "get_master_extension y = md_master_ext y"

definition md_get_asset_extension :: "'m master_extensions \<Rightarrow> 'm IHakoAssetExtension option" where
  "md_get_asset_extension y = pdu_get_asset_extension (md_pdu_exts y)"

text \<open>\<open>register_asset_extension\<close> and \<open>get_asset_extension\<close> of the asset controller.\<close>

definition asset_register_extension :: "'m IHakoAssetExtension option \<Rightarrow> 'm master_extensions \<Rightarrow> bool \<times> 'm master_extensions" where
  "asset_register_extension aext y = (True, md_register_asset_extension aext y)"

definition asset_get_extension :: "'m master_extensions \<Rightarrow> 'm IHakoAssetExtension option" where
  "asset_get_extension y = md_get_asset_extension y"

text \<open>The call of a method if an extension is registered.\<close>

definition call_ext :: "('e \<Rightarrow> (bool, 'm) pdu_op) \<Rightarrow> 'e option \<Rightarrow> (bool, 'm) pdu_op" where
  "call_ext f ext w = (case ext of None \<Rightarrow> Inr (True, w) | Some e \<Rightarrow> f e w)"

definition run_ext :: "('e \<Rightarrow> (bool, 'm) pdu_op) \<Rightarrow> 'e option \<Rightarrow> 'm HakoPduData \<Rightarrow> 'm HakoPduData result" where
  "run_ext f ext w = bindE (call_ext f ext w) (\<lambda>(_, w). Inr w)"

section \<open>The PDU area\<close>

definition ext_create :: "'m pdu_extensions \<Rightarrow> 'm pdu_env \<Rightarrow> int \<Rightarrow> 'm HakoPduData \<Rightarrow> 'm HakoPduData result" where
  "ext_create x env n w =
    (if \<not> env_init_lock env then Inr w
     else
       let w = emit (Log ''INFO'' ''PDU CREATE: asset_num = %d'') (emit Acquire_Init_Lock w)
       in if pdu_ptr w
          then Inr (emit Release_Init_Lock (emit (Log ''INFO'' ''ALREADY CREATED PDU DATA'')
                 (upd_meta (\<lambda>m. m\<lparr>pm_asset_num := n, mode := HakoTimeMode_Asset\<rparr>) w)))
          else
            let w = upd_meta (\<lambda>m. m\<lparr>mode := HakoTimeMode_Asset\<rparr>) w;
                total_size = pdu_total_size w
            in if total_size > SIZE_MAX then Inr (emit Release_Init_Lock w)
               else
                 let w = emit (Log ''INFO'' ''START CREATE PDU DATA: total_size=%zu'') w;
                     (shmid, shm) = create_memory (env_shm env) HAKO_SHARED_MEMORY_ID_1 total_size (asset_shmp w);
                     w = w\<lparr>asset_shmp := shm\<rparr>
                 in if \<not> lock_memory (env_shm env) HAKO_SHARED_MEMORY_ID_1 (asset_shmp w) then Inl Null_Deref
                    else if total_size > length (pdu_bytes env w) then Inl Out_Of_Bounds
                    else
                      let w = emit (Lock_Memory HAKO_SHARED_MEMORY_ID_1) w;
                          w = upd_meta (\<lambda>m. m\<lparr>pm_asset_num := n,
                                              channel := assign_offsets 0 (channel m)\<rparr>) w;
                          w = set_pdu_bytes env
                                (splice (pdu_bytes env w) 0 (replicate total_size 0)) w;
                          w = emit (Unlock_Memory HAKO_SHARED_MEMORY_ID_1) w
                      in bindE (run_ext on_pdu_data_create (pdu_master_ext x) w) (\<lambda>w.
                         bindE (rebuild_pdu_channel_index (w\<lparr>pdu_ptr := True\<rparr>)) (\<lambda>w.
                           Inr (emit Release_Init_Lock (emit (Log ''INFO'' ''CREATED ADDR=%p'') w)))))"

definition ext_load :: "'m pdu_extensions \<Rightarrow> 'm pdu_env \<Rightarrow> (bool, 'm) pdu_op" where
  "ext_load x env w =
    (if \<not> env_init_lock env then Inr (False, w)
     else
       let w = emit Acquire_Init_Lock w
       in if pdu_ptr w then Inr (True, emit Release_Init_Lock w)
          else
            let total_size = pdu_total_size w
            in if total_size > SIZE_MAX then Inr (False, emit Release_Init_Lock w)
               else
                 let (ok, shm) = load_memory (env_shm env) HAKO_SHARED_MEMORY_ID_1 total_size (asset_shmp w);
                     w = w\<lparr>asset_shmp := shm\<rparr>
                 in if \<not> ok then Inr (False, emit Release_Init_Lock w)
                    else
                      bindE (run_ext on_pdu_data_load (pdu_master_ext x) w) (\<lambda>w.
                      bindE (rebuild_pdu_channel_index
                               ((emit (Log ''INFO'' ''LOADED PDU DATA'') w)\<lparr>pdu_ptr := True\<rparr>)) (\<lambda>w.
                        Inr (True, emit Release_Init_Lock w))))"

definition ext_ensure_loaded :: "'m pdu_extensions \<Rightarrow> 'm pdu_env \<Rightarrow> 'm HakoPduData \<Rightarrow> 'm HakoPduData result" where
  "ext_ensure_loaded x env w =
     (if pdu_ptr w then Inr w else bindE (ext_load x env w) (\<lambda>(_, w). Inr w))"

text \<open>
  \<open>write_pdu\<close>: the first method may refuse the write, the second is called after the new
  version is counted; both run while the flag of the writer is up.
\<close>

definition ext_finish_write :: "'m pdu_extensions \<Rightarrow> int \<Rightarrow> 'm HakoPduData \<Rightarrow> 'm HakoPduData result" where
  "ext_finish_write x channel_id w =
     bindE (arr_set (atomic_is_dirty (pdu_meta_data w)) channel_id True) (\<lambda>dirty.
     bindE (arr_get (atomic_pdu_write_version (pdu_meta_data w)) channel_id) (\<lambda>v.
     bindE (arr_set (atomic_pdu_write_version (pdu_meta_data w)) channel_id (v + 1)) (\<lambda>vs.
     bindE (run_ext (\<lambda>e. on_pdu_data_write e channel_id) (asset_extension x)
         (upd_meta (\<lambda>m. m\<lparr>atomic_is_dirty := dirty, atomic_pdu_write_version := vs\<rparr>) w)) (\<lambda>w.
       set_pdu_wbusy_status channel_id False w))))"

definition ext_write_pdu :: "'m pdu_extensions \<Rightarrow> 'm pdu_env \<Rightarrow> int \<Rightarrow> byte list \<Rightarrow> nat \<Rightarrow> (bool, 'm) pdu_op" where
  "ext_write_pdu x env channel_id data len w =
    (if channel_id \<ge> int (HAKO_PDU_CHANNEL_MAX (env_build env))
     then Inr (False, emit (Log ''ERROR'' ''channel_id >= MAX(%d) channel_id = %d len = %d'') w)
     else
       bindE (arr_get (channel (pdu_meta_data w)) channel_id) (\<lambda>ch.
         if len > ch_size ch
         then Inr (False, emit (Log ''ERROR'' ''len > channel_size(%d) channel_id = %d len = %d'') w)
         else
           bindE (ext_ensure_loaded x env w) (\<lambda>w.
           bindE (set_pdu_wbusy_status channel_id True w) (\<lambda>w.
           bindE (is_pdu_rbusy channel_id w) (\<lambda>rbusy.
             if rbusy then Inl Blocked
             else
               bindE (call_ext (\<lambda>e. on_pdu_data_before_write e channel_id) (asset_extension x) w) (\<lambda>(go, w).
                 if \<not> go then bindE (set_pdu_wbusy_status channel_id False w) (\<lambda>w. Inr (False, w))
                 else
                   bindE (arr_get (channel (pdu_meta_data w)) channel_id) (\<lambda>ch.
                     if ch_offset ch > SIZE_MAX then Inr (False, w)
                     else
                       bindE (copy_in env (ch_offset ch) data len w) (\<lambda>w.
                       bindE (ext_finish_write x channel_id w) (\<lambda>w. Inr (True, w))))))))))"

section \<open>The spin locks\<close>

text \<open>
  The writer raises its flag and waits for the readers; a reader raises its own, and lowers
  it again while the writer's is up. With nobody else running, waiting does not end.
\<close>

definition write_pdu_spin_lock :: "int \<Rightarrow> (bool, 'm) pdu_op" where
  "write_pdu_spin_lock channel_id w =
     bindE (set_pdu_wbusy_status channel_id True w) (\<lambda>w.
     bindE (is_pdu_rbusy channel_id w) (\<lambda>rbusy. if rbusy then Inl Blocked else Inr (True, w)))"

definition write_pdu_spin_unlock :: "int \<Rightarrow> (bool, 'm) pdu_op" where
  "write_pdu_spin_unlock channel_id w = bindE (set_pdu_wbusy_status channel_id False w) (\<lambda>w. Inr (True, w))"

definition read_pdu_for_asset_spin_lock :: "int \<Rightarrow> int \<Rightarrow> (bool, 'm) pdu_op" where
  "read_pdu_for_asset_spin_lock asset_id channel_id w =
     bindE (set_pdu_rbusy_status asset_id channel_id True w) (\<lambda>w.
     bindE (is_pdu_wbusy channel_id w) (\<lambda>wbusy. if wbusy then Inl Blocked else Inr (True, w)))"

definition read_pdu_for_asset_spin_unlock :: "int \<Rightarrow> int \<Rightarrow> (bool, 'm) pdu_op" where
  "read_pdu_for_asset_spin_unlock asset_id channel_id w =
     bindE (set_pdu_rbusy_status asset_id channel_id False w) (\<lambda>w. Inr (True, w))"

definition read_pdu_for_external_spin_lock :: "int \<Rightarrow> (bool, 'm) pdu_op" where
  "read_pdu_for_external_spin_lock channel_id w =
     bindE (set_pdu_rbusy_status_for_external channel_id True w) (\<lambda>w.
     bindE (is_pdu_wbusy channel_id w) (\<lambda>wbusy. if wbusy then Inl Blocked else Inr (True, w)))"

definition read_pdu_for_external_spin_unlock :: "int \<Rightarrow> (bool, 'm) pdu_op" where
  "read_pdu_for_external_spin_unlock channel_id w =
     bindE (set_pdu_rbusy_status_for_external channel_id False w) (\<lambda>w. Inr (True, w))"

definition read_pdu_spin_lock :: "int \<Rightarrow> int \<Rightarrow> (bool, 'm) pdu_op" where
  "read_pdu_spin_lock asset_id channel_id w =
     (if asset_id \<ge> 0 then read_pdu_for_asset_spin_lock asset_id channel_id w
      else read_pdu_for_external_spin_lock channel_id w)"

definition read_pdu_spin_unlock :: "int \<Rightarrow> int \<Rightarrow> (bool, 'm) pdu_op" where
  "read_pdu_spin_unlock asset_id channel_id w =
     (if asset_id \<ge> 0 then read_pdu_for_asset_spin_unlock asset_id channel_id w
      else read_pdu_for_external_spin_unlock channel_id w)"

section \<open>The master data\<close>

definition ext_destroy_pdu_data :: "'m master_extensions \<Rightarrow> 'm hako_env \<Rightarrow> 'm HakoMasterData \<Rightarrow> 'm HakoMasterData result" where
  "ext_destroy_pdu_data y env w =
     bindE (run_ext on_pdu_data_reset (md_master_ext y) (pdu_datap w)) (\<lambda>p.
       destroy_pdu_data env (w\<lparr>pdu_datap := p\<rparr>))"

definition ext_create_pdu_data :: "'m master_extensions \<Rightarrow> 'm hako_env \<Rightarrow> 'm HakoMasterData \<Rightarrow> 'm HakoMasterData result" where
  "ext_create_pdu_data y env w =
     bindE (ext_create (md_pdu_exts y) (he_pdu env) (sint (asset_num (master_datap w))) (pdu_datap w)) (\<lambda>p.
       Inr (w\<lparr>pdu_datap := p\<rparr>))"

definition ext_md_destroy :: "any_shm master_extensions \<Rightarrow> core_data \<Rightarrow> host \<Rightarrow> (core_data \<times> host) result" where
  "ext_md_destroy y obj host =
    (case cd_shmp obj of
       None \<Rightarrow> Inr (obj, host)
     | Some shmp \<Rightarrow>
         (case cd_data obj of
            None \<Rightarrow> Inl Null_Deref
          | Some d \<Rightarrow>
              bindE (run_ext on_pdu_data_destroy (md_master_ext y) (pdu_datap d)) (\<lambda>p.
                md_destroy (obj\<lparr>cd_data := Some (d\<lparr>pdu_datap := p\<rparr>)\<rparr>) host)))"

section \<open>Without an extension\<close>

lemma no_extensions_simps [simp]:
  "asset_extension no_extensions = None" "pdu_master_ext no_extensions = None"
  by (simp_all add: no_extensions_def)

lemma call_ext_none [simp]: "call_ext f None w = Inr (True, w)" "run_ext f None w = Inr w"
  by (simp_all add: run_ext_def call_ext_def)

lemma bindE_cong: "(\<And>x. r = Inr x \<Longrightarrow> f x = g x) \<Longrightarrow> bindE r f = bindE r g"
  by (cases r) simp_all

lemma ext_load_none [simp]: "ext_load no_extensions env w = pdu_load env w"
  by (simp add: ext_load_def pdu_load_def Let_def cong: if_cong)

lemma ext_create_none [simp]: "ext_create no_extensions env n w = pdu_create env n w"
  unfolding ext_create_def pdu_create_def by (simp add: Let_def cong: if_cong split: prod.split)

lemma ext_ensure_none [simp]: "ext_ensure_loaded no_extensions env w = ensure_loaded env w"
  by (simp add: ext_ensure_loaded_def ensure_loaded_def)

lemma ext_finish_none [simp]: "ext_finish_write no_extensions c w = finish_write c w"
  by (simp add: ext_finish_write_def finish_write_def)

lemma pdu_load_meta: "pdu_load env w = Inr (ok, w') \<Longrightarrow> pdu_meta_data w' = pdu_meta_data w"
  by (auto simp: pdu_load_def rebuild_pdu_channel_index_def Let_def emit_def bindE_eq_Inr_iff
      split: if_splits prod.splits)

lemma ensure_loaded_meta: "ensure_loaded env w = Inr w' \<Longrightarrow> pdu_meta_data w' = pdu_meta_data w"
  by (auto simp: ensure_loaded_def bindE_eq_Inr_iff split: if_splits dest: pdu_load_meta)

lemma wbusy_channels:
  "set_pdu_wbusy_status c b w = Inr v \<Longrightarrow> channel (pdu_meta_data v) = channel (pdu_meta_data w)"
  by (auto simp: set_pdu_wbusy_status_def bindE_eq_Inr_iff upd_meta_def)

lemma ext_write_none [simp]: "ext_write_pdu no_extensions env c data len w = write_pdu env c data len w"
  unfolding ext_write_pdu_def write_pdu_def
  by (intro if_cong refl bindE_cong) (auto intro!: bindE_cong dest!: ensure_loaded_meta wbusy_channels)

text \<open>Every operation of this build is then the one of the default build.\<close>

lemma default_build:
  "ext_destroy_pdu_data \<lparr>md_master_ext = None, md_pdu_exts = no_extensions\<rparr> env w = destroy_pdu_data env w"
  "ext_create_pdu_data \<lparr>md_master_ext = None, md_pdu_exts = no_extensions\<rparr> env w = create_pdu_data env w"
  by (simp_all add: ext_destroy_pdu_data_def ext_create_pdu_data_def create_pdu_data_def)

lemma default_build_destroy:
  "ext_md_destroy \<lparr>md_master_ext = None, md_pdu_exts = x\<rparr> obj host = md_destroy obj host"
proof (cases "cd_shmp obj")
  case (Some shmp)
  show ?thesis
  proof (cases "cd_data obj")
    case (Some d)
    then have "obj\<lparr>cd_data := Some (d\<lparr>pdu_datap := pdu_datap d\<rparr>)\<rparr> = obj" by simp
    then show ?thesis using Some \<open>cd_shmp obj = Some shmp\<close> by (simp add: ext_md_destroy_def md_destroy_def)
  qed (use Some in \<open>simp add: ext_md_destroy_def md_destroy_def\<close>)
qed (simp add: ext_md_destroy_def md_destroy_def)

section \<open>A channel whose writer is inside\<close>

definition wbusy :: "nat \<Rightarrow> 'm HakoPduData \<Rightarrow> 'm HakoPduData" where
  "wbusy c w = upd_meta (\<lambda>m. m\<lparr>atomic_is_wbusy := (atomic_is_wbusy m)[c := True]\<rparr>) w"

lemma wbusy_simps [simp]:
  "pdu_ptr (wbusy c w) = pdu_ptr w" "asset_shmp (wbusy c w) = asset_shmp w"
  "channel (pdu_meta_data (wbusy c w)) = channel (pdu_meta_data w)"
  by (simp_all add: wbusy_def upd_meta_def)

lemma abs_store_wbusy [simp]: "abs_store env (wbusy c w) = abs_store env w"
  by (simp add: abs_store_def channel_bytes_def wbusy_def upd_meta_def fun_eq_iff cong: if_cong)

lemma wbusy_up:
  assumes "pdu_ready invar env w" and "c < HAKO_PDU_CHANNEL_MAX (env_build env)"
  shows "set_pdu_wbusy_status (int c) True w = Inr (wbusy c w)"
    and "set_pdu_wbusy_status (int c) False (wbusy c w) = Inr w"
    and "is_pdu_wbusy (int c) (wbusy c w) = Inr True"
    and "is_pdu_rbusy (int c) (wbusy c w) = Inr False"
proof -
  have ready: "meta_ok (env_build env) (pdu_meta_data w)" "pdu_idle (pdu_meta_data w)"
    using assms(1) by (simp_all add: pdu_ready_def)
  note lens = ready(1) [unfolded meta_ok_def]
  have "\<not> atomic_is_wbusy (pdu_meta_data w) ! c" by (rule idle_not_wbusy [OF ready assms(2)])
  then have undone: "(atomic_is_wbusy (pdu_meta_data w))[c := False] = atomic_is_wbusy (pdu_meta_data w)"
    by (metis list_update_id)
  show "set_pdu_wbusy_status (int c) True w = Inr (wbusy c w)" "is_pdu_wbusy (int c) (wbusy c w) = Inr True"
    using lens assms(2) by (simp_all add: set_pdu_wbusy_status_def is_pdu_wbusy_def wbusy_def upd_meta_def)
  show "set_pdu_wbusy_status (int c) False (wbusy c w) = Inr w"
    using lens assms(2) undone by (simp add: set_pdu_wbusy_status_def wbusy_def upd_meta_def)
  show "is_pdu_rbusy (int c) (wbusy c w) = Inr False"
    using idle_not_rbusy [OF ready assms(2)] by (simp add: is_pdu_rbusy_def wbusy_def upd_meta_def cong: if_cong)
qed

text \<open>The write of the default build, cut at the point where the second method is called.\<close>

lemma write_under_flag:
  assumes "pdu_ready invar env w" and "c < HAKO_PDU_CHANNEL_MAX (env_build env)"
    and "len \<le> ch_size (channel (pdu_meta_data w) ! c)" and "len \<le> length data"
  shows "bindE (copy_in env (ch_offset (channel (pdu_meta_data w) ! c)) data len (wbusy c w))
      (ext_finish_write x (int c)) =
    bindE (run_ext (\<lambda>e. on_pdu_data_write e (int c)) (asset_extension x) (wbusy c (after_write env c (take len data) w)))
      (set_pdu_wbusy_status (int c) False)"
proof -
  have ready: "meta_ok (env_build env) (pdu_meta_data w)" "pdu_ptr w"
    using assms(1) by (simp_all add: pdu_ready_def)
  note lens = ready(1) [unfolded meta_ok_def]
  let ?d = "take len data" and ?ch = "channel (pdu_meta_data w) ! c"
  have inside: "copy_in env (ch_offset ?ch) data len (wbusy c w) = Inr (wbusy c (after_poke env c ?d w))"
    using assms ready(2) pdu_ready_within [OF assms(1,2)]
    by (simp add: copy_in_def after_poke_def wbusy_def upd_meta_def set_pdu_bytes_def)
  let ?p = "after_poke env c ?d w"
  let ?f = "\<lambda>m. m\<lparr>atomic_is_dirty := (atomic_is_dirty (pdu_meta_data w))[c := True],
      atomic_pdu_write_version := (atomic_pdu_write_version (pdu_meta_data w))
        [c := atomic_pdu_write_version (pdu_meta_data w) ! c + 1]\<rparr>"
  have meta: "pdu_meta_data ?p = pdu_meta_data w" by (simp add: after_poke_def)
  have "?f (pdu_meta_data (wbusy c ?p)) = pdu_meta_data (wbusy c (after_write env c ?d w))"
    by (simp add: meta wbusy_def after_write_def upd_meta_def)
  then have order: "upd_meta ?f (wbusy c ?p) = wbusy c (after_write env c ?d w)"
    by (simp add: upd_meta_def wbusy_def after_write_def)
  have "ext_finish_write x (int c) (wbusy c ?p) =
      bindE (run_ext (\<lambda>e. on_pdu_data_write e (int c)) (asset_extension x) (upd_meta ?f (wbusy c ?p)))
        (set_pdu_wbusy_status (int c) False)"
    using lens assms(2) meta by (simp add: ext_finish_write_def) (simp add: wbusy_def upd_meta_def)
  then show ?thesis unfolding inside order bindE_simps .
qed

text \<open>
  C10: An extension decides on a write and sees it. On a channel that nobody accesses, with
  an extension whose first method leaves the PDU object as it is, a write that the method
  refuses returns false and changes nothing, the flag of the writer included. A write that
  it admits stores the bytes and counts the version before the second method runs; that
  method finds the new contents with the flag of the writer up, and the flag is lowered
  after it whatever it returns. So a method that changes nothing turns the operation into
  the one of the default build.
\<close>

theorem extension_decides_write:
  assumes "env_shm env = HakoSharedMemoryMmap" and "pdu_ready mmap_invar env w"
    and "c < HAKO_PDU_CHANNEL_MAX (env_build env)"
    and "len \<le> ch_size (channel (pdu_meta_data w) ! c)" and "len \<le> length data"
    and "asset_extension x = Some a"
    and "on_pdu_data_before_write a (int c) (wbusy c w) = Inr (go, wbusy c w)"
  shows "\<exists>v. is_pdu_wbusy (int c) v = Inr True \<and>
      abs_store env v = store_write c (take len data) (abs_store env w) \<and>
      ext_write_pdu x env (int c) data len w =
        (if go then bindE (on_pdu_data_write a (int c) v) (\<lambda>(_, v).
                    bindE (set_pdu_wbusy_status (int c) False v) (\<lambda>v. Inr (True, v)))
         else Inr (False, w)) \<and>
      (go \<and> (\<exists>r. on_pdu_data_write a (int c) v = Inr (r, v)) \<longrightarrow>
         ext_write_pdu x env (int c) data len w = write_pdu env (int c) data len w)"
proof (intro exI [of _ "wbusy c (after_write env c (take len data) w)"] conjI)
  let ?v = "wbusy c (after_write env c (take len data) w)"
  have lb: "length (take len data) \<le> ch_size (channel (pdu_meta_data w) ! c)" using assms(4) by simp
  note stored = mmap.after_write_refines [OF assms(1-3) lb]
  note up = wbusy_up [OF stored(1) assms(3)] and up' = wbusy_up [OF assms(2,3)]
  show "is_pdu_wbusy (int c) ?v = Inr True" by (rule up(3))
  show "abs_store env ?v = store_write c (take len data) (abs_store env w)" using stored(2) by simp
  have ch: "c < length (channel (pdu_meta_data w))" "ch_offset (channel (pdu_meta_data w) ! c) \<le> SIZE_MAX"
    using pdu_ready_within [OF assms(2,3)] by simp_all
  have ptr: "pdu_ptr w" using assms(2) by (simp add: pdu_ready_def)
  show eq: "ext_write_pdu x env (int c) data len w =
      (if go then bindE (on_pdu_data_write a (int c) ?v) (\<lambda>(_, v).
                  bindE (set_pdu_wbusy_status (int c) False v) (\<lambda>v. Inr (True, v)))
       else Inr (False, w))"
    using assms(3,4,6,7) ch ptr up'(1,2,4) write_under_flag [OF assms(2-5), of x]
    by (simp add: ext_write_pdu_def ext_ensure_loaded_def call_ext_def run_ext_def bindE_assoc [symmetric])
       (simp add: bindE_assoc case_prod_unfold)
  have "write_pdu env (int c) data len w = Inr (True, after_write env c (take len data) w)"
    by (rule write_pdu_eq [OF assms(2-5)])
  then show "go \<and> (\<exists>r. on_pdu_data_write a (int c) ?v = Inr (r, ?v)) \<longrightarrow>
      ext_write_pdu x env (int c) data len w = write_pdu env (int c) data len w"
    using eq up(2) by auto
qed

text \<open>An extension that protects channel 0.\<close>

definition demo_extensions :: "'m pdu_extensions" where
  "demo_extensions = md_pdu_exts (snd (asset_register_extension
       (Some \<lparr>on_pdu_data_before_write = (\<lambda>c w. Inr (c \<noteq> 0, w)), on_pdu_data_write = (\<lambda>c w. Inr (True, w))\<rparr>)
       \<lparr>md_master_ext = None, md_pdu_exts = no_extensions\<rparr>))"

theorem extension_decides_write_witness:
  "\<exists>w. pdu_create demo_env 1 demo_pdu = Inr w \<and>
     ext_write_pdu demo_extensions demo_env 0 [7, 8] 2 w = Inr (False, w) \<and>
     ext_write_pdu demo_extensions demo_env 1 [7, 8] 2 w = write_pdu demo_env 1 [7, 8] 2 w"
proof -
  obtain w where w: "pdu_create demo_env 1 demo_pdu = Inr w" "pdu_ready mmap_invar demo_env w"
    "pdu_meta_data w = created_meta 1 (pdu_meta_data demo_pdu)"
    using demo_created by metis
  let ?a = "\<lparr>on_pdu_data_before_write = (\<lambda>c w. Inr (c \<noteq> 0, w)), on_pdu_data_write = (\<lambda>c w. Inr (True, w))\<rparr>"
  have a: "asset_extension demo_extensions = Some ?a"
    by (simp add: demo_extensions_def asset_register_extension_def md_register_asset_extension_def
        pdu_register_asset_extension_def pdu_register_master_extension_def)
  have "ext_write_pdu demo_extensions demo_env (int 0) [7, 8] 2 w = Inr (False, w)"
    using extension_decides_write [OF demo_build(2) w(2) _ _ _ a, of 0 2 "[7, 8]" False] demo_created_channels [OF w(3)]
    by auto
  moreover have "ext_write_pdu demo_extensions demo_env (int 1) [7, 8] 2 w = write_pdu demo_env (int 1) [7, 8] 2 w"
    using extension_decides_write [OF demo_build(2) w(2) _ _ _ a, of 1 2 "[7, 8]" True] demo_created_channels [OF w(3)]
    by auto
  ultimately show ?thesis using w(1) by auto
qed

section \<open>The locks of an extension\<close>

text \<open>
  While an extension has the lock of the writer every read and every lock of a reader waits;
  what it writes without lock is what the readers find after the unlock.
\<close>

lemma spin_locked_blocks_readers:
  assumes "pdu_ready invar env w" and "c < HAKO_PDU_CHANNEL_MAX (env_build env)"
    and "a < HAKO_DATA_MAX_ASSET_NUM (env_build env)" and "len \<le> ch_size (channel (pdu_meta_data w) ! c)"
  shows "write_pdu_spin_lock (int c) w = Inr (True, wbusy c w)"
    and "read_pdu env (int a) (int c) len (wbusy c w) = Inl Blocked"
    and "read_pdu_for_external env (int c) len (wbusy c w) = Inl Blocked"
    and "read_pdu_spin_lock (int a) (int c) (wbusy c w) = Inl Blocked"
    and "read_pdu_spin_lock (-1) (int c) (wbusy c w) = Inl Blocked"
    and "write_pdu_spin_unlock (int c) (wbusy c w) = Inr (True, w)"
proof -
  note up = wbusy_up [OF assms(1,2)]
  have ready: "meta_ok (env_build env) (pdu_meta_data w)" "pdu_ptr w" using assms(1) by (simp_all add: pdu_ready_def)
  note lens = ready(1) [unfolded meta_ok_def]
  have row: "length (atomic_is_rbusy (pdu_meta_data w) ! a) = HAKO_PDU_CHANNEL_MAX (env_build env)"
    using lens assms(3) by auto
  have ch: "c < length (channel (pdu_meta_data w))" using pdu_ready_within [OF assms(1,2)] by simp
  show "write_pdu_spin_lock (int c) w = Inr (True, wbusy c w)"
    using up by (simp add: write_pdu_spin_lock_def)
  show "write_pdu_spin_unlock (int c) (wbusy c w) = Inr (True, w)"
    using up by (simp add: write_pdu_spin_unlock_def)
  show "read_pdu env (int a) (int c) len (wbusy c w) = Inl Blocked"
    "read_pdu_for_external env (int c) len (wbusy c w) = Inl Blocked"
    "read_pdu_spin_lock (int a) (int c) (wbusy c w) = Inl Blocked"
    "read_pdu_spin_lock (-1) (int c) (wbusy c w) = Inl Blocked"
    using assms(2-4) ready(2) lens row ch up(3)
    by (simp_all add: read_pdu_def read_pdu_for_external_def ensure_loaded_def read_pdu_spin_lock_def
        read_pdu_for_asset_spin_lock_def read_pdu_for_external_spin_lock_def set_pdu_rbusy_status_def
        set_pdu_rbusy_status_for_external_def is_pdu_wbusy_def upd_meta_def wbusy_def)
qed

text \<open>A second method that reads its channel with \<open>read_pdu\<close> therefore never returns.\<close>

lemma read_back_never_returns:
  assumes "env_shm env = HakoSharedMemoryMmap" and "pdu_ready mmap_invar env w"
    and "c < HAKO_PDU_CHANNEL_MAX (env_build env)" and "b < HAKO_DATA_MAX_ASSET_NUM (env_build env)"
    and "len \<le> ch_size (channel (pdu_meta_data w) ! c)" and "len \<le> length data"
    and "asset_extension x = Some a"
    and "on_pdu_data_before_write a (int c) (wbusy c w) = Inr (True, wbusy c w)"
    and "on_pdu_data_write a = (\<lambda>c w. bindE (read_pdu env (int b) c len w) (\<lambda>(r, w). Inr (r \<noteq> None, w)))"
  shows "ext_write_pdu x env (int c) data len w = Inl Blocked"
proof -
  have lb: "length (take len data) \<le> ch_size (channel (pdu_meta_data w) ! c)" using assms(5) by simp
  note ready = mmap.after_write_refines(1) [OF assms(1-3) lb]
  have len: "len \<le> ch_size (channel (pdu_meta_data (after_write env c (take len data) w)) ! c)"
    using assms(5) by (simp add: after_write_def after_poke_def)
  note blocked = spin_locked_blocks_readers(2) [OF ready assms(3,4) len]
  have ch: "c < length (channel (pdu_meta_data w))" "ch_offset (channel (pdu_meta_data w) ! c) \<le> SIZE_MAX"
    using pdu_ready_within [OF assms(2,3)] by simp_all
  have ptr: "pdu_ptr w" using assms(2) by (simp add: pdu_ready_def)
  show ?thesis
    using assms(3,5,7-9) ch ptr wbusy_up [OF assms(2,3)] blocked write_under_flag [OF assms(2,3,5,6), of x]
    by (simp add: ext_write_pdu_def ext_ensure_loaded_def call_ext_def run_ext_def bindE_assoc [symmetric])
qed

end
