(* ===== verification/Hako_Cmd.thy ===== *)
theory Hako_Cmd
  imports Hako_Core Hako_Simulation Hako_Log
begin

text \<open>
  The command line program \<open>hako-cmd\<close> (\<open>sample/base-procs/hako-cmd/src/hako_cmd.cpp\<close>): it
  attaches to the simulation of this computer, gives one command to it or shows a part of
  its data, and detaches. Its output is modelled as text, with the listings of
  \<open>print_master_data\<close> and \<open>print_log\<close> (\<open>hako_master_data.hpp\<close>). The theorems follow a
  channel through two runs of the program, from a file into the shared memory and back.
\<close>

section \<open>Text\<close>

definition show_int :: "int \<Rightarrow> string" where
  "show_int n = (if n < 0 then CHR ''-'' # show_nat (nat (- n)) else show_nat (nat n))"

definition show_bool :: "bool \<Rightarrow> string" where
  "show_bool x = (if x then ''1'' else ''0'')"

definition isspace :: "char \<Rightarrow> bool" where
  "isspace c \<longleftrightarrow> of_char c = (32::nat) \<or> 9 \<le> (of_char c :: nat) \<and> of_char c \<le> (13::nat)"

definition isdigit :: "char \<Rightarrow> bool" where
  "isdigit c \<longleftrightarrow> 48 \<le> (of_char c :: nat) \<and> of_char c \<le> (57::nat)"

definition digits_value :: "string \<Rightarrow> int" where
  "digits_value s = foldl (\<lambda>n c. 10 * n + (of_char c - 48)) 0 (takeWhile isdigit s)"

text \<open>The number at the start of a text: white space, a sign, digits.\<close>

definition leading_number :: "string \<Rightarrow> int" where
  "leading_number s =
    (case dropWhile isspace s of
       [] \<Rightarrow> 0
     | c # cs \<Rightarrow> if c = CHR ''-'' then - digits_value cs
                 else if c = CHR ''+'' then digits_value cs else digits_value (c # cs))"

text \<open>\<open>atoi\<close> is undefined where the number is no \<open>int\<close>; \<open>strtol\<close> takes the nearest \<open>long\<close>.\<close>

definition atoi :: "string \<Rightarrow> int result" where
  "atoi s = (let n = leading_number s in if - (2 ^ 31) \<le> n \<and> n < 2 ^ 31 then Inr n else Inl Signed_Overflow)"

definition strtol :: "string \<Rightarrow> int" where
  "strtol s = max INT64_MIN (min INT64_MAX (leading_number s))"

text \<open>A \<open>std::string\<close> from an array of characters: it needs a terminator.\<close>

definition c_string :: "char list \<Rightarrow> string result" where
  "c_string s = (if NUL \<in> set s then Inr (takeWhile (\<lambda>c. c \<noteq> NUL) s) else Inl Out_Of_Bounds)"

section \<open>Listings\<close>

text \<open>Enumerators are printed as their numbers.\<close>

fun sim_state_num :: "HakoSimulationStateType \<Rightarrow> nat" where
  "sim_state_num HakoSim_Stopped = 0" | "sim_state_num HakoSim_Runnable = 1"
| "sim_state_num HakoSim_Running = 2" | "sim_state_num HakoSim_Stopping = 3"
| "sim_state_num HakoSim_Resetting = 4" | "sim_state_num HakoSim_Error = 5"
| "sim_state_num HakoSim_Terminated = 6" | "sim_state_num HakoSim_Any = 7" | "sim_state_num HakoSim_Count = 8"

fun asset_type_num :: "HakoAssetType \<Rightarrow> nat" where
  "asset_type_num HakoAsset_Unknown = 0" | "asset_type_num HakoAsset_Inside = 1"
| "asset_type_num HakoAsset_Outside = 2" | "asset_type_num HakoAsset_Count = 3"

fun asset_event_num :: "HakoAssetEventType \<Rightarrow> nat" where
  "asset_event_num HakoAssetEvent_None = 0" | "asset_event_num HakoAssetEvent_Start = 1"
| "asset_event_num HakoAssetEvent_Stop = 2" | "asset_event_num HakoAssetEvent_Reset = 3"
| "asset_event_num HakoAssetEvent_Error = 4" | "asset_event_num HakoAssetEvent_Count = 5"

fun time_mode_num :: "HakoTimeModeType \<Rightarrow> nat" where
  "time_mode_num HakoTimeMode_Master = 0" | "time_mode_num HakoTimeMode_Asset = 1" | "time_mode_num HakoTimeMode_Num = 2"

text \<open>\<open>name[i].field = value\<close>, and the lines of one iteration of each loop.\<close>

definition item :: "string \<Rightarrow> nat \<Rightarrow> string \<Rightarrow> string \<Rightarrow> string" where
  "item name i field value = name @ ''['' @ show_nat i @ '']'' @ field @ '' = '' @ value"

definition asset_lines :: "HakoMasterDataType \<Rightarrow> nat \<Rightarrow> string list result" where
  "asset_lines d i =
     bindE (arr_get (assets d) (int i)) (\<lambda>a.
     bindE (arr_get (assets_ev d) (int i)) (\<lambda>e.
       let first = [item ''assets'' i ''.id'' (show_int (ae_id a)),
                    item ''assets'' i ''.type'' (show_nat (asset_type_num (ae_type a)))]
       in if ae_type a = HakoAsset_Unknown then Inr first
          else bindE (c_string (fs_data (ae_name a))) (\<lambda>name. Inr (first @
                [item ''assets'' i ''.name'' name,
                 item ''assets_ev'' i ''.pid'' (show_int (ev_pid e)),
                 item ''assets_ev'' i ''.ctime'' (show_int (ev_ctime e)),
                 item ''assets_ev'' i ''.update_time'' (show_int (ev_update_time e)),
                 item ''assets_ev'' i ''.event'' (show_nat (asset_event_num (ev_event e))),
                 item ''assets_ev'' i ''.event_feedback'' (show_bool (ev_feedback e))]))))"

definition check_lines :: "HakoMasterDataType \<Rightarrow> HakoPduMetaDataType \<Rightarrow> nat \<Rightarrow> string list result" where
  "check_lines d m i =
     bindE (arr_get (assets d) (int i)) (\<lambda>a.
       if ae_type a = HakoAsset_Unknown then Inr []
       else bindE (arr_get (asset_pdu_check_status m) (int i)) (\<lambda>s.
              let line = item ''pdu_meta_data.asset_pdu_check_status'' i '''' (show_bool s) in Inr [line, line]))"

definition channel_lines :: "HakoPduMetaDataType \<Rightarrow> nat \<Rightarrow> string list result" where
  "channel_lines m i =
     bindE (arr_get (channel m) (int i)) (\<lambda>ch.
       Inr [item ''pdu_meta_data.channel'' i ''.offset'' (show_nat (ch_offset ch)),
            item ''pdu_meta_data.channel'' i ''.size'' (show_nat (ch_size ch))])"

definition channel_map_lines :: "HakoPduMetaDataType \<Rightarrow> nat \<Rightarrow> string list result" where
  "channel_map_lines m i =
     bindE (arr_get (channel_map m) (int i)) (\<lambda>e.
     bindE (c_string (fs_data (robo_name e))) (\<lambda>name.
       Inr [item ''pdu_meta_data.channel_map'' i ''.robo_name'' name,
            item ''pdu_meta_data.channel_map'' i ''.logical_channel_id'' (show_int (logical_channel_id e))]))"

fun for_lines :: "(nat \<Rightarrow> string list result) \<Rightarrow> nat list \<Rightarrow> string list result" where
  "for_lines f [] = Inr []"
| "for_lines f (i # is) = bindE (f i) (\<lambda>ls. bindE (for_lines f is) (\<lambda>rest. Inr (ls @ rest)))"

definition print_master_data :: "hako_build \<Rightarrow> 'm HakoMasterData \<Rightarrow> string list result" where
  "print_master_data b w =
    (let d = master_datap w; m = pdu_meta_data (pdu_datap w);
         slots = [0..<HAKO_DATA_MAX_ASSET_NUM b]; channels = [0..<nat (channel_num m)]
     in bindE (for_lines (asset_lines d) slots) (\<lambda>as.
        bindE (for_lines (check_lines d m) slots) (\<lambda>cs.
        bindE (for_lines (channel_lines m) channels) (\<lambda>chs.
        bindE (for_lines (channel_map_lines m) channels) (\<lambda>ms.
          Inr ([''master_pid = '' @ show_int (master_pid d),
                ''state = '' @ show_nat (sim_state_num (sim_state d)),
                ''time_usec = '' @ show_int (ts_current (time_usec d)),
                ''asset_num = '' @ show_nat (unat (asset_num d))] @ as @
               [''pdu_meta_data.mode = '' @ show_nat (time_mode_num (mode m)),
                ''pdu_meta_data.asset_num = '' @ show_int (pm_asset_num m),
                ''pdu_meta_data.pdu_sync_asset_id = '' @ show_int (pdu_sync_asset_id m),
                ''pdu_meta_data.channel_num = '' @ show_int (channel_num m)] @ cs @ chs @ ms))))))"

text \<open>\<open>print_log\<close>; an entry is held as the text up to its terminator.\<close>

definition log_lines :: "HakoLogDataType \<Rightarrow> string list result" where
  "log_lines lg = for_lines (\<lambda>i. bindE (arr_get (log_data lg) (int i)) (\<lambda>s. Inr [s])) [0..<nat (log_index lg)]"

section \<open>The program\<close>

text \<open>
  What the process takes from outside: the environment of the library and of the master
  data, the log in the shared memory, what the opening and reading of a file give (or
  \<open>errno\<close>), and the contents that a new block of memory has.
\<close>

datatype file_read = Open_Fails int | Read_Fails int | Contents "byte list"

record cmd_env =
  cx_core :: core_env
  cx_hako :: "any_shm hako_env"
  cx_log :: HakoLogDataType
  cx_file :: "string \<Rightarrow> file_read"
  cx_malloc :: "nat \<Rightarrow> byte list option"

text \<open>Output: lines of text, and the bytes that \<open>write(1, ...)\<close> puts out.\<close>

datatype cmd_out = Line string | Raw "byte list"

text \<open>A call of the controller works on the master data that the process is attached to.\<close>

definition on_data :: "('a, any_shm) master_op \<Rightarrow> hako_core \<Rightarrow> ('a \<times> hako_core) result" where
  "on_data f c =
    (case master_data_ptr c of
       None \<Rightarrow> Inl Null_Deref
     | Some obj \<Rightarrow>
         (case cd_data obj of
            None \<Rightarrow> Inl Null_Deref
          | Some d \<Rightarrow> bindE (f d) (\<lambda>(r, d). Inr (r, c\<lparr>master_data_ptr := Some (obj\<lparr>cd_data := Some d\<rparr>)\<rparr>))))"

text \<open>An inspection of the data.\<close>

definition reads :: "('m HakoMasterData \<Rightarrow> 'a result) \<Rightarrow> ('a, 'm) master_op" where
  "reads f w = bindE (f w) (\<lambda>r. Inr (r, w))"

text \<open>
  \<open>read_file_data\<close> without \<open>WIN32\<close>. The size comes in as an \<open>int\<close> and goes out to \<open>read\<close> as a
  \<open>size_t\<close>. The result is the return value, the output and the buffer; a short file leaves
  the rest of the buffer as it was.
\<close>

definition to_int32 :: "nat \<Rightarrow> int" where
  "to_int32 n = (let k = int n mod 2 ^ 32 in if k < 2 ^ 31 then k else k - 2 ^ 32)"

definition read_file_data ::
  "(string \<Rightarrow> file_read) \<Rightarrow> string \<Rightarrow> int \<Rightarrow> byte list \<Rightarrow> (int \<times> cmd_out list \<times> byte list) result" where
  "read_file_data files filepath sz buffer =
    (case files filepath of
       Open_Fails errno \<Rightarrow>
         Inr (-1, [Line (''ERROR: can not open file '' @ filepath @ '' errno='' @ show_int errno)], buffer)
     | Read_Fails errno \<Rightarrow>
         Inr (-1, [Line (''ERROR: can not read file '' @ filepath @ '' errno='' @ show_int errno)], buffer)
     | Contents bs \<Rightarrow>
         let got = take (nat (sz mod 2 ^ 64)) bs
         in if length got > length buffer then Inl Out_Of_Bounds
            else Inr (0, [], got @ drop (length got) buffer))"

definition hako_status :: "string list" where
  "hako_status = [''stopped'', ''runnable'', ''running'', ''stopping'', ''resetting'', ''error'', ''terminated'']"

text \<open>The branches of the dispatch give the exit code, 0 where they fall through.\<close>

definition cmd_dump :: "cmd_env \<Rightarrow> int \<Rightarrow> hako_core \<Rightarrow> (int \<times> cmd_out list \<times> hako_core) result" where
  "cmd_dump env channel_id c =
     bindE (on_data (reads (sim_pdu_size (cx_hako env) channel_id)) c) (\<lambda>(sz, c).
       if sz = SIZE_MAX then Inr (1, [Line ''ERROR: channel id is invalid''], c)
       else
         (case cx_malloc env sz of
            None \<Rightarrow> Inr (1, [Line ''ERROR: can not allocate memory...''], c)
          | Some pdu_data \<Rightarrow>
              bindE (on_data (sim_read_pdu (cx_hako env) channel_id True sz) c) (\<lambda>(ret, c).
                case ret of
                  Some bs \<Rightarrow>
                    if length bs > length pdu_data then Inl Out_Of_Bounds
                    else Inr (0, [Raw (take sz (bs @ drop (length bs) pdu_data))], c)
                | None \<Rightarrow> Inr (1, [Line ''ERROR: internal error..''], c))))"

definition cmd_restore ::
  "cmd_env \<Rightarrow> int \<Rightarrow> string \<Rightarrow> hako_core \<Rightarrow> (int \<times> cmd_out list \<times> hako_core) result" where
  "cmd_restore env channel_id restore_file c =
     bindE (on_data (reads (sim_pdu_size (cx_hako env) channel_id)) c) (\<lambda>(sz, c).
       if sz = SIZE_MAX then Inr (1, [Line ''ERROR: channel id is invalid''], c)
       else
         (case cx_malloc env sz of
            None \<Rightarrow> Inr (1, [Line ''ERROR: can not allocate memory...''], c)
          | Some pdu_data \<Rightarrow>
              bindE (read_file_data (cx_file env) restore_file (to_int32 sz) pdu_data) (\<lambda>(ret_val, out, pdu_data).
                if ret_val \<noteq> 0 then Inr (1, out @ [Line ''ERROR: internal error..''], c)
                else
                  bindE (on_data (sim_write_pdu (cx_hako env) channel_id (Some pdu_data) sz) c) (\<lambda>(ret, c).
                    if ret then Inr (0, out, c)
                    else Inr (1, out @ [Line (''ERROR: hako_sim_ctrl->write_pdu error.. channel_id='' @ show_int channel_id),
                                        Line ''ERROR: internal error..''], c)))))"

definition cmd_dispatch ::
  "cmd_env \<Rightarrow> string list \<Rightarrow> int \<Rightarrow> string \<Rightarrow> hako_core \<Rightarrow> (int \<times> cmd_out list \<times> hako_core) result" where
  "cmd_dispatch env argv channel_id restore_file c =
    (let cmd = argv ! 1; henv = cx_hako env
     in if cmd = ''start'' then bindE (on_data (sim_start henv) c) (\<lambda>(_, c). Inr (0, [Line ''start''], c))
        else if cmd = ''stop'' then bindE (on_data (sim_stop henv) c) (\<lambda>(_, c). Inr (0, [Line ''stop''], c))
        else if cmd = ''reset'' then bindE (on_data (sim_reset henv) c) (\<lambda>(_, c). Inr (0, [Line ''reset''], c))
        else if cmd = ''status''
        then bindE (on_data (reads (\<lambda>w. arr_get hako_status (int (sim_state_num (simulation_state w))))) c)
               (\<lambda>(s, c). Inr (0, [Line (''status='' @ s)], c))
        else if cmd = ''ls''
        then bindE (on_data (\<lambda>w. Inr (sim_assets w)) c) (\<lambda>(names, c). Inr (0, map Line names, c))
        else if cmd = ''dump'' then cmd_dump env channel_id c
        else if cmd = ''restore'' then cmd_restore env channel_id restore_file c
        else if cmd = ''real_cid''
        then if length argv \<le> 3 then Inl Null_Deref
             else bindE (atoi (argv ! 3)) (\<lambda>channel_id.
                  bindE (on_data (sim_get_pdu_channel (argv ! 2) channel_id) c) (\<lambda>(real_cid, c).
                    Inr (0, [Line (show_int real_cid)], c)))
        else if cmd = ''pmeta''
        then bindE (on_data (reads (print_master_data (he_build henv))) c) (\<lambda>(ls, c). Inr (0, map Line ls, c))
        else if cmd = ''plog''
        then bindE (log_lines (cx_log env)) (\<lambda>ls. Inr (0, map Line ls, c))
        else Inr (0, [Line ''error''], c))"

text \<open>The arguments: the channel id and the file of the commands that take them, or the error that ends the program.\<close>

definition cmd_arguments :: "string list \<Rightarrow> (string + int \<times> string) result" where
  "cmd_arguments argv =
    (if argv ! 1 = ''dump''
     then if length argv \<noteq> 3 then Inr (Inl ''ERROR: not set channel id'')
          else bindE (atoi (argv ! 2)) (\<lambda>channel_id. Inr (Inr (channel_id, '''')))
     else if argv ! 1 = ''restore''
     then if length argv \<noteq> 4 then Inr (Inl ''ERROR: not set channel id or restore bin file'')
          else bindE (atoi (argv ! 2)) (\<lambda>channel_id. Inr (Inr (channel_id, argv ! 3)))
     else Inr (Inr (0, '''')))"

definition hako_cmd_main :: "cmd_env \<Rightarrow> string list \<Rightarrow> hako_core \<Rightarrow> (int \<times> cmd_out list \<times> hako_core) result" where
  "hako_cmd_main env argv c =
    (if argv = [] then Inl Out_Of_Bounds
     else if length argv = 1 \<or> length argv > 4
     then Inr (1, [Line (''Usage: '' @ argv ! 0 @ '' {start|stop|reset|status|pmeta|plog|dump <cid>|restore <cid> <bin>}|real_cid <asset_name> <cid>'')], c)
     else
       bindE (cmd_arguments argv) (\<lambda>args. case args of
         Inl msg \<Rightarrow> Inr (1, [Line msg], c)
       | Inr (channel_id, restore_file) \<Rightarrow>
           bindE (get_simevent_controller (cx_core env) c) (\<lambda>(found, c).
             if \<not> found then Inr (1, [Line ''ERROR: Not found hako-master on this PC''], c)
             else
               bindE (cmd_dispatch env argv channel_id restore_file c) (\<lambda>(ret, out, c).
                 if ret \<noteq> 0 then Inr (ret, out, c)
                 else bindE (hako_destroy (cx_core env) c) (\<lambda>c. Inr (0, out, c))))))"

text \<open>
  A run of the program on a computer: it starts with nothing attached, and what it did to
  the shared regions is what the next process finds.
\<close>

definition left_by :: "hako_core \<Rightarrow> host" where
  "left_by c =
    (case master_data_ptr c of
       None \<Rightarrow> c_host c
     | Some obj \<Rightarrow>
         (case cd_data obj of
            None \<Rightarrow> c_host c
          | Some d \<Rightarrow> (publish HAKO_SHARED_MEMORY_ID_1 (asset_shmp (pdu_datap d)) (c_host c))
              \<lparr>h_master := (master_datap d, pdu_meta_data (pdu_datap d))\<rparr>))"

definition hako_cmd :: "cmd_env \<Rightarrow> string list \<Rightarrow> host \<Rightarrow> (int \<times> cmd_out list \<times> host) result" where
  "hako_cmd env argv host =
     bindE (hako_cmd_main env argv (fresh_core host)) (\<lambda>(ret, out, c). Inr (ret, out, left_by c))"

section \<open>A computer with a simulation\<close>

text \<open>
  The regions of the master and of the PDUs can be attached to, the metadata describes the
  area, nobody is inside, and the process is not the master.
\<close>

definition pdu_served :: "cmd_env \<Rightarrow> host \<Rightarrow> bool" where
  "pdu_served env host \<longleftrightarrow>
    (let m = snd (h_master host); henv = cx_hako env
     in env_shm (he_pdu henv) = HakoSharedMemoryAny \<and> env_init_lock (he_pdu henv) \<and>
        meta_ok (he_build henv) m \<and> pdu_idle m \<and> laid_out (channel m) \<and>
        ce_pid (cx_core env) \<noteq> master_pid (fst (h_master host)) \<and>
        (\<exists>type timeout shm. ce_config (cx_core env) = Some (type, timeout) \<and>
           hako_shared_memory_create host type = Some shm \<and>
           fst (any_load_memory HAKO_SHARED_MEMORY_ID_0 (ce_size (cx_core env)) shm) \<and>
           fst (any_load_memory HAKO_SHARED_MEMORY_ID_1 (sizes_total (channel m)) shm) \<and>
           sizes_total (channel m) \<le> length (any_region HAKO_SHARED_MEMORY_ID_1 shm)))"

text \<open>The PDU object that an attached process has, and the bytes of a channel in the area.\<close>

definition served_shm :: "cmd_env \<Rightarrow> host \<Rightarrow> any_shm" where
  "served_shm env host = the (hako_shared_memory_create host (fst (the (ce_config (cx_core env)))))"

definition served_bytes :: "cmd_env \<Rightarrow> host \<Rightarrow> nat \<Rightarrow> byte list" where
  "served_bytes env host c =
    (let ch = channel (snd (h_master host)) ! c
     in slice (any_region HAKO_SHARED_MEMORY_ID_1 (served_shm env host)) (ch_offset ch) (ch_size ch))"

lemma new_object_invar: "hako_shared_memory_create host type = Some shm \<Longrightarrow> any_invar shm"
  by (auto simp: hako_shared_memory_create_def mmap_invar_def shm_invar_def split: if_splits)

lemma new_pdu_of_meta:
  assumes "meta_ok b m"
  shows "\<exists>p. new_HakoPduData m shm = Inr p \<and> pdu_meta_data p = m \<and> \<not> pdu_ptr p \<and> asset_shmp p = shm \<and>
    cache_ok m (pdu_channel_cache p)"
proof -
  let ?p = "\<lparr>pdu_meta_data = m, pdu_ptr = False, pdu_channel_cache = Map.empty, asset_shmp = shm, trace = []\<rparr>"
  have "meta_ok b (pdu_meta_data ?p)" using assms by simp
  then obtain ch where "rebuild_pdu_channel_index ?p = Inr (?p\<lparr>pdu_channel_cache := ch\<rparr>)" "cache_ok (pdu_meta_data ?p) ch"
    by (rule rebuild_pdu_channel_index_ok)
  then show ?thesis by (simp add: new_HakoPduData_def)
qed

text \<open>Attachment: the process works on the data of the master and has its own PDU object.\<close>

definition attached_to :: "host \<Rightarrow> any_shm \<Rightarrow> hako_core \<Rightarrow> any_shm HakoMasterData \<Rightarrow> bool" where
  "attached_to host shm c w \<longleftrightarrow>
     (\<exists>obj. master_data_ptr c = Some obj \<and> cd_data obj = Some w) \<and> c_host c = host \<and> master_ptr c = None \<and>
     master_datap w = fst (h_master host) \<and> pdu_meta_data (pdu_datap w) = snd (h_master host) \<and>
     \<not> pdu_ptr (pdu_datap w) \<and> asset_shmp (pdu_datap w) = shm \<and>
     cache_ok (snd (h_master host)) (pdu_channel_cache (pdu_datap w))"

lemma core_log_attached:
  assumes "attached_to host shm c w"
  shows "\<exists>c' w'. core_log format c = Inr c' \<and> attached_to host shm c' w' \<and>
    asset_ptr c' = asset_ptr c \<and> simevent_ptr c' = simevent_ptr c"
  using assms by (cases "is_master_locked w") (auto simp: core_log_def attached_to_def)

lemma attached_ptrs [simp]:
  "attached_to host shm (c\<lparr>asset_ptr := a\<rparr>) w = attached_to host shm c w"
  "attached_to host shm (c\<lparr>simevent_ptr := a\<rparr>) w = attached_to host shm c w"
  by (simp_all add: attached_to_def)

lemma new_simevent_attached:
  assumes "attached_to host shm c w"
  shows "\<exists>c' w'. new_simevent_controller env c = Inr c' \<and> attached_to host shm c' w'"
proof (cases "asset_ptr c = None")
  case True
  obtain c' w' where "core_log ''hako::create_asset_controller(): shared memory type = %s'' (c\<lparr>asset_ptr := Some True\<rparr>) = Inr c'"
    "attached_to host shm c' w'"
    using core_log_attached [of host shm "c\<lparr>asset_ptr := Some True\<rparr>" w
        "''hako::create_asset_controller(): shared memory type = %s''"] assms by auto
  then show ?thesis
    using True assms by (auto simp: new_simevent_controller_def create_asset_controller_def attached_to_def Let_def)
next
  case False
  then show ?thesis using assms by (auto simp: new_simevent_controller_def create_asset_controller_def)
qed

lemma attach_served:
  assumes "pdu_served env host"
  shows "\<exists>c w. get_simevent_controller (cx_core env) (fresh_core host) = Inr (True, c) \<and>
    attached_to host (served_shm env host) c w"
proof -
  obtain type timeout shm where s: "ce_config (cx_core env) = Some (type, timeout)"
    "hako_shared_memory_create host type = Some shm"
    "fst (any_load_memory HAKO_SHARED_MEMORY_ID_0 (ce_size (cx_core env)) shm)"
    and ok: "meta_ok (he_build (cx_hako env)) (snd (h_master host))"
    using assms by (auto simp: pdu_served_def Let_def)
  then have shm: "served_shm env host = shm" by (simp add: served_shm_def)
  obtain shmp where l: "any_load_memory HAKO_SHARED_MEMORY_ID_0 (ce_size (cx_core env)) shm = (True, shmp)"
    using s(3) by (cases "any_load_memory HAKO_SHARED_MEMORY_ID_0 (ce_size (cx_core env)) shm") simp
  obtain p where p: "new_HakoPduData (snd (h_master host)) shm = Inr p" "pdu_meta_data p = snd (h_master host)"
    "\<not> pdu_ptr p" "asset_shmp p = shm" "cache_ok (snd (h_master host)) (pdu_channel_cache p)"
    using new_pdu_of_meta [OF ok, of shm] by (elim exE conjE)
  let ?obj = "with_timeout timeout (new_core_data\<lparr>cd_shm_type := type, cd_shmp := Some shmp,
      cd_data := Some (new_master_data (fst (h_master host)) p)\<rparr>)"
  let ?c = "(fresh_core host)\<lparr>master_data_ptr := Some ?obj\<rparr>"
  have at: "\<exists>w. attached_to host shm ?c w"
    using p by (cases timeout) (auto simp: attached_to_def fresh_core_def with_timeout_def new_master_data_def
        set_asset_timeout_usec_def)
  then obtain c1 w1 where c1: "new_simevent_controller (cx_core env) ?c = Inr c1" "attached_to host shm c1 w1"
    using new_simevent_attached by blast
  obtain c2 w2 where c2: "core_log ''hako::get_simevent_controller(): shared memory type = %s''
      (c1\<lparr>simevent_ptr := Some True\<rparr>) = Inr c2" "attached_to host shm c2 w2"
    using core_log_attached [of host shm "c1\<lparr>simevent_ptr := Some True\<rparr>" w1
        "''hako::get_simevent_controller(): shared memory type = %s''"] c1(2) by auto
  have "md_load (cx_core env) type new_core_data host = Inr (True, new_core_data\<lparr>cd_shm_type := type, cd_shmp := Some shmp,
      cd_data := Some (new_master_data (fst (h_master host)) p)\<rparr>)"
    using s l p unfolding md_load_def core_type by (simp add: Let_def) (simp add: new_core_data_def)
  then have "get_simevent_controller (cx_core env) (fresh_core host) = Inr (True, c2)"
    using s(1) c1(1) c2(1) by (simp add: get_simevent_controller_def fresh_core_def Let_def)
  then show ?thesis using c2(2) shm by auto
qed

text \<open>The first access of an attached process loads the area; its object is then ready.\<close>

lemma load_served:
  assumes "pdu_served env host" and "attached_to host (served_shm env host) c w"
  shows "\<exists>p. ensure_loaded (he_pdu (cx_hako env)) (pdu_datap w) = Inr p \<and>
    pdu_ready any_invar (he_pdu (cx_hako env)) p \<and> pdu_meta_data p = snd (h_master host) \<and>
    asset_shmp p = snd (any_load_memory HAKO_SHARED_MEMORY_ID_1 (sizes_total (channel (snd (h_master host)))) (served_shm env host)) \<and>
    pdu_bytes (he_pdu (cx_hako env)) p = any_region HAKO_SHARED_MEMORY_ID_1 (served_shm env host)"
proof -
  let ?env = "he_pdu (cx_hako env)" and ?m = "snd (h_master host)" and ?p = "pdu_datap w"
  obtain type timeout shm where s: "ce_config (cx_core env) = Some (type, timeout)"
    "hako_shared_memory_create host type = Some shm"
    "fst (any_load_memory HAKO_SHARED_MEMORY_ID_1 (sizes_total (channel ?m)) shm)"
    "sizes_total (channel ?m) \<le> length (any_region HAKO_SHARED_MEMORY_ID_1 shm)"
    and ok: "env_shm ?env = HakoSharedMemoryAny" "env_init_lock ?env" "meta_ok (env_build ?env) ?m" "pdu_idle ?m"
      "laid_out (channel ?m)"
    using assms(1) by (auto simp: pdu_served_def Let_def)
  then have shm: "served_shm env host = shm" by (simp add: served_shm_def)
  have p: "pdu_meta_data ?p = ?m" "\<not> pdu_ptr ?p" "asset_shmp ?p = shm"
    using assms(2) shm by (auto simp: attached_to_def)
  have tot: "pdu_total_size ?p = sizes_total (channel ?m)"
    using ok(5) p(1) by (simp add: pdu_total_size_eq laid_out_def)
  obtain shm' where l: "any_load_memory HAKO_SHARED_MEMORY_ID_1 (sizes_total (channel ?m)) shm = (True, shm')"
    using s(3) by (cases "any_load_memory HAKO_SHARED_MEMORY_ID_1 (sizes_total (channel ?m)) shm") simp
  have inv: "any_invar shm'" and maps: "any_lock_memory HAKO_SHARED_MEMORY_ID_1 shm'"
    and reg: "any_region HAKO_SHARED_MEMORY_ID_1 shm' = any_region HAKO_SHARED_MEMORY_ID_1 shm"
    using any.load_invar [OF new_object_invar [OF s(2)], of HAKO_SHARED_MEMORY_ID_1 "sizes_total (channel ?m)"]
      any.load_maps [of HAKO_SHARED_MEMORY_ID_1 "sizes_total (channel ?m)" shm]
      any.load_region [of HAKO_SHARED_MEMORY_ID_1 HAKO_SHARED_MEMORY_ID_1 "sizes_total (channel ?m)" shm] l
    by (simp_all add: HakoSharedMemoryAny_def)
  have "meta_ok (env_build ?env) (pdu_meta_data ?p)"
    "load_memory (env_shm ?env) HAKO_SHARED_MEMORY_ID_1 (pdu_total_size ?p) (asset_shmp ?p) = (True, shm')"
    using ok(1,3) p tot l by (simp_all add: HakoSharedMemoryAny_def)
  from pdu_load_unfold [OF ok(2) p(2) this] obtain ch tr where
    "pdu_load ?env ?p = Inr (True, ?p\<lparr>pdu_ptr := True, pdu_channel_cache := ch, asset_shmp := shm', trace := tr\<rparr>)"
    by blast
  then show ?thesis
    using p ok s(4) inv maps reg l shm
    by (intro exI [of _ "?p\<lparr>pdu_ptr := True, pdu_channel_cache := ch, asset_shmp := shm', trace := tr\<rparr>"])
       (simp add: ensure_loaded_def pdu_ready_def HakoSharedMemoryAny_def)
qed

lemma nolock_after_load:
  assumes "ensure_loaded env p = Inr p'" and "pdu_ptr p'"
  shows "read_pdu_nolock env c True len p = (if c \<ge> int (HAKO_PDU_CHANNEL_MAX (env_build env)) then Inr (None, p)
      else read_pdu_nolock env c True len p')"
    and "write_pdu_nolock env c (Some bs) len p = (if c \<ge> int (HAKO_PDU_CHANNEL_MAX (env_build env)) then Inr (False, p)
      else write_pdu_nolock env c (Some bs) len p')"
  using assms by (simp_all add: read_pdu_nolock_def write_pdu_nolock_def ensure_loaded_def)

section \<open>One run of the program\<close>

text \<open>What a process publishes: nothing new if it only loaded, else the bytes it has set.\<close>

lemma mmap_load_files [simp]: "mm_files (snd (mmap_load_memory key n m)) = mm_files m"
  by (simp add: mmap_load_memory_def Let_def)

lemma shm_load_segs [simp]: "sv_segs (snd (shm_load_memory key n m)) = sv_segs m"
  by (simp add: shm_load_memory_def Let_def split: option.split)

lemma publish_loaded:
  assumes "hako_shared_memory_create host type = Some shm"
  shows "publish key (snd (any_load_memory key n shm)) host = host"
  using assms by (auto simp: hako_shared_memory_create_def case_prod_beta split: if_splits)

lemma publish_set:
  assumes "hako_shared_memory_create host type = Some shm" and "length bs = length (any_region key shm)"
    and "fst (any_load_memory key n shm)"
  shows "\<exists>shm'. hako_shared_memory_create (publish key (any_set_region key bs (snd (any_load_memory key n shm))) host) type = Some shm' \<and>
      (\<forall>k m. fst (any_load_memory k m shm') = fst (any_load_memory k m shm)) \<and> any_region key shm' = bs"
proof (cases shm)
  case (Any_Mmap m)
  then have m: "m = (h_mmap host)\<lparr>mm_map := Map.empty\<rparr>" "type = ''mmap''"
    using assms(1) by (auto simp: hako_shared_memory_create_def split: if_splits)
  then obtain f where f: "mm_files (h_mmap host) key = Some f"
    using assms(3) Any_Mmap
    by (auto simp: mmap_load_memory_def hako_mmap_open_def case_prod_beta Let_def split: if_splits)
  let ?m = "m\<lparr>mm_files := (mm_files m)(key \<mapsto> f\<lparr>meta_data := bs\<rparr>)\<rparr>"
  have "hako_shared_memory_create (publish key (any_set_region key bs (snd (any_load_memory key n shm))) host) type = Some (Any_Mmap ?m)"
    using f by (simp add: Any_Mmap m hako_shared_memory_create_def case_prod_beta mmap_set_region_def)
  moreover have "fst (mmap_load_memory k j ?m) = fst (mmap_load_memory k j m)" for k j
    using f by (cases "k = key") (simp_all add: m(1) mmap_load_memory_def hako_mmap_open_def Let_def)
  ultimately show ?thesis using Any_Mmap by (simp add: case_prod_beta mmap_region_def)
next
  case (Any_Shm m)
  then have m: "m = (h_shm host)\<lparr>sv_map := Map.empty\<rparr>" "type = ''shm''"
    using assms(1) by (auto simp: hako_shared_memory_create_def split: if_splits)
  then obtain s where s: "sv_segs (h_shm host) key = Some s"
    using assms(3) Any_Shm by (auto simp: shm_load_memory_def case_prod_beta Let_def split: option.splits)
  let ?m = "m\<lparr>sv_segs := (sv_segs m)(key \<mapsto> s\<lparr>meta_data := bs\<rparr>)\<rparr>"
  have len: "length bs = length (meta_data s)" using assms(2) Any_Shm s m(1) by (simp add: shm_region_def)
  have "hako_shared_memory_create (publish key (any_set_region key bs (snd (any_load_memory key n shm))) host) type = Some (Any_Shm ?m)"
    using s by (simp add: Any_Shm m hako_shared_memory_create_def case_prod_beta shm_set_region_def)
  moreover have "fst (shm_load_memory k j ?m) = fst (shm_load_memory k j m)" for k j
    using s len by (cases "k = key"; cases "sv_segs (h_shm host) k") (simp_all add: m(1) shm_load_memory_def region_len_def Let_def)
  ultimately show ?thesis using Any_Shm by (simp add: case_prod_beta shm_region_def)
qed

text \<open>What the two data commands do on an attached process.\<close>

lemma cmd_args:
  assumes "atoi arg = Inr channel_id"
  shows "cmd_arguments [prog, ''dump'', arg] = Inr (Inr (channel_id, ''''))"
    and "cmd_arguments [prog, ''restore'', arg, path] = Inr (Inr (channel_id, path))"
  using assms by (simp_all add: cmd_arguments_def)

lemma served_size:
  assumes "pdu_served env host" and "attached_to host shm c w" and "k < HAKO_PDU_CHANNEL_MAX (he_build (cx_hako env))"
  shows "sim_pdu_size (cx_hako env) (int k) w = Inr (ch_size (channel (snd (h_master host)) ! k))"
    and "ch_size (channel (snd (h_master host)) ! k) \<le> SIZE_MAX"
proof -
  let ?m = "snd (h_master host)"
  have ok: "meta_ok (he_build (cx_hako env)) ?m" "laid_out (channel ?m)" and "pdu_meta_data (pdu_datap w) = ?m"
    using assms(1,2) by (auto simp: pdu_served_def attached_to_def Let_def)
  moreover from ok(1) have k: "k < length (channel ?m)" using assms(3) by (simp add: meta_ok_def)
  moreover show "ch_size (channel ?m ! k) \<le> SIZE_MAX"
    using laid_out_within [OF ok(2) k] ok(2) by (simp add: laid_out_def)
  ultimately show "sim_pdu_size (cx_hako env) (int k) w = Inr (ch_size (channel ?m ! k))"
    using assms(3) by (simp add: sim_pdu_size_def pdu_size_nolock_def)
qed

text \<open>A run that goes through: what the command made of the data is what stays.\<close>

lemma hako_cmd_run:
  assumes "pdu_served env host" and "get_simevent_controller (cx_core env) (fresh_core host) = Inr (True, c)"
    and "c_host c = host" "master_ptr c = None" and "length argv \<in> {2, 3, 4}" and "cmd_arguments argv = Inr (Inr (k, path))"
    and "cmd_dispatch env argv k path c = Inr (0, out, c\<lparr>master_data_ptr := Some (obj\<lparr>cd_data := Some w\<rparr>)\<rparr>)"
    and "master_pid (master_datap w) = master_pid (fst (h_master host))"
  shows "hako_cmd env argv host = Inr (0, out, (publish HAKO_SHARED_MEMORY_ID_1 (asset_shmp (pdu_datap w)) host)
    \<lparr>h_master := (master_datap w, pdu_meta_data (pdu_datap w))\<rparr>)"
proof -
  let ?c = "c\<lparr>master_data_ptr := Some (obj\<lparr>cd_data := Some w\<rparr>)\<rparr>"
  have "ce_pid (cx_core env) \<noteq> master_pid (master_datap w)" using assms(1,8) by (simp add: pdu_served_def Let_def)
  then have "hako_destroy (cx_core env) ?c = Inr ?c" using assms(4) by (simp add: hako_destroy_def)
  then show ?thesis
    using assms(2-7) by (auto simp: hako_cmd_def hako_cmd_main_def left_by_def)
qed

lemma same_master: "(publish key s host)\<lparr>h_master := (fst (h_master host), snd (h_master host))\<rparr> = publish key s host"
  by (cases s) simp_all

lemma dump_served:
  assumes "pdu_served env host" and "k < HAKO_PDU_CHANNEL_MAX (he_build (cx_hako env))" and "atoi arg = Inr (int k)"
    and "ch_size (channel (snd (h_master host)) ! k) < SIZE_MAX"
    and "cx_malloc env (ch_size (channel (snd (h_master host)) ! k)) = Some block"
    and "length block = ch_size (channel (snd (h_master host)) ! k)"
  shows "hako_cmd env [prog, ''dump'', arg] host = Inr (0, [Raw (served_bytes env host k)], host)"
proof -
  let ?env = "he_pdu (cx_hako env)" and ?ch = "channel (snd (h_master host)) ! k" and ?shm = "served_shm env host"
  obtain c w where c: "get_simevent_controller (cx_core env) (fresh_core host) = Inr (True, c)" "attached_to host ?shm c w"
    using attach_served [OF assms(1)] by blast
  then obtain obj where obj: "master_data_ptr c = Some obj" "cd_data obj = Some w" "c_host c = host" "master_ptr c = None"
    "master_datap w = fst (h_master host)" by (auto simp: attached_to_def)
  obtain p where p: "ensure_loaded ?env (pdu_datap w) = Inr p" "pdu_ready any_invar ?env p"
    "pdu_meta_data p = snd (h_master host)"
    "asset_shmp p = snd (any_load_memory HAKO_SHARED_MEMORY_ID_1 (sizes_total (channel (snd (h_master host)))) ?shm)"
    "pdu_bytes ?env p = any_region HAKO_SHARED_MEMORY_ID_1 ?shm"
    using load_served [OF assms(1) c(2)] by blast
  have bytes: "channel_bytes ?env p k = served_bytes env host k" "length (channel_bytes ?env p k) = ch_size ?ch"
    using p assms(2) length_channel_bytes [OF p(2), of k]
    by (simp_all add: channel_bytes_def served_bytes_def pdu_ready_def meta_ok_def Let_def)
  have "read_pdu_nolock ?env (int k) True (ch_size ?ch) (pdu_datap w) = Inr (Some (served_bytes env host k), p)"
    using nolock_after_load(1) [OF p(1)] read_pdu_nolock_eq [OF p(2), of k] assms(2) p(2) bytes
    by (simp add: pdu_ready_def)
  then have run: "cmd_dump env (int k) c = Inr (0, [Raw (served_bytes env host k)],
      c\<lparr>master_data_ptr := Some (obj\<lparr>cd_data := Some (w\<lparr>pdu_datap := p\<rparr>)\<rparr>)\<rparr>)" (is "_ = Inr (_, _, ?c)")
    using obj(1,2) assms(4-6) bytes served_size(1) [OF assms(1) c(2) assms(2)]
    by (simp add: cmd_dump_def on_data_def reads_def sim_read_pdu_def pdu_call_def)
  have "publish HAKO_SHARED_MEMORY_ID_1 (asset_shmp p) host = host"
    using p(4) publish_loaded assms(1) by (auto simp: pdu_served_def served_shm_def Let_def)
  moreover have "cmd_dispatch env [prog, ''dump'', arg] (int k) '''' c = Inr (0, [Raw (served_bytes env host k)], ?c)"
    using run by (simp add: cmd_dispatch_def)
  ultimately show ?thesis
    using hako_cmd_run [OF assms(1) c(1) obj(3,4) _ cmd_args(1) [OF assms(3)], of prog _ "w\<lparr>pdu_datap := p\<rparr>" obj]
      obj(5) p(3) same_master [where host = host] by simp
qed

text \<open>
  \<open>restore\<close>: the bytes of the file, and past its end those of the allocated block, are the
  channel's afterwards; the computer still serves the same data.
\<close>

lemma restore_served:
  assumes srv: "pdu_served env host" and k: "k < HAKO_PDU_CHANNEL_MAX (he_build (cx_hako env))" and "atoi arg = Inr (int k)"
    and n: "ch_size (channel (snd (h_master host)) ! k) = n" "n < 2 ^ 31"
    and mem: "cx_malloc env n = Some block" "length block = n" and contents: "cx_file env path = Contents bs"
  shows "\<exists>host'. hako_cmd env [prog, ''restore'', arg, path] host = Inr (0, [], host') \<and> pdu_served env host' \<and>
    h_master host' = h_master host \<and>
    served_bytes env host' k = take n (bs @ drop (length bs) block) \<and>
    (\<forall>j < HAKO_PDU_CHANNEL_MAX (he_build (cx_hako env)). j \<noteq> k \<longrightarrow> served_bytes env host' j = served_bytes env host j)"
proof -
  let ?env = "he_pdu (cx_hako env)" and ?m = "snd (h_master host)" and ?shm = "served_shm env host"
  define dat where "dat = take n (bs @ drop (length bs) block)"
  let ?n = "sizes_total (channel (snd (h_master host)))"
  obtain c w where c: "get_simevent_controller (cx_core env) (fresh_core host) = Inr (True, c)" "attached_to host ?shm c w"
    using attach_served [OF srv] by blast
  then obtain obj where obj: "master_data_ptr c = Some obj" "cd_data obj = Some w" "c_host c = host" "master_ptr c = None"
    "master_datap w = fst (h_master host)" by (auto simp: attached_to_def)
  obtain p where p: "ensure_loaded ?env (pdu_datap w) = Inr p" "pdu_ready any_invar ?env p" "pdu_meta_data p = ?m"
    "asset_shmp p = snd (any_load_memory HAKO_SHARED_MEMORY_ID_1 ?n ?shm)"
    "pdu_bytes ?env p = any_region HAKO_SHARED_MEMORY_ID_1 ?shm"
    using load_served [OF srv c(2)] by blast
  have vt: "env_shm ?env = HakoSharedMemoryAny" using srv by (simp add: pdu_served_def Let_def)
  have data: "length dat = n" using mem(2) by (simp add: dat_def)
  have got: "take n bs @ drop (min (length bs) n) block = dat"
    unfolding dat_def using mem(2) by (cases "length bs \<le> n") simp_all
  have "to_int32 n = int n" using n(2) by (simp add: to_int32_def Let_def)
  then have filled: "read_file_data (cx_file env) path (to_int32 n) block = Inr (0, [], dat)"
    using contents n(2) mem(2) got by (simp add: read_file_data_def Let_def)
  let ?p = "after_poke ?env k dat p"
  have wr: "write_pdu_nolock ?env (int k) (Some dat) n (pdu_datap w) = Inr (True, ?p)"
    using nolock_after_load(2) [OF p(1), of "int k" dat n] write_pdu_nolock_eq [OF p(2), of k dat] k p(2,3) n(1) data
    by (simp add: pdu_ready_def)
  have sz: "n \<noteq> SIZE_MAX" using n(2) by (simp add: SIZE_MAX_def)
  have run: "cmd_restore env (int k) path c = Inr (0, [],
      c\<lparr>master_data_ptr := Some (obj\<lparr>cd_data := Some (w\<lparr>pdu_datap := ?p\<rparr>)\<rparr>)\<rparr>)" (is "_ = Inr (_, _, ?c)")
    using obj(1,2) n(1) sz mem(1) filled wr served_size(1) [OF srv c(2) k]
    by (simp add: cmd_restore_def on_data_def reads_def sim_write_pdu_def pdu_call_def)
  have meta: "pdu_meta_data ?p = ?m" using p(3) by (simp add: after_poke_def)
  let ?host = "publish HAKO_SHARED_MEMORY_ID_1 (asset_shmp ?p) host"
  have out: "hako_cmd env [prog, ''restore'', arg, path] host = Inr (0, [], ?host)"
  proof -
    have "cmd_dispatch env [prog, ''restore'', arg, path] (int k) path c = Inr (0, [], ?c)"
      using run by (simp add: cmd_dispatch_def)
    then show ?thesis
      using hako_cmd_run [OF srv c(1) obj(3,4) _ cmd_args(2) [OF assms(3)], of prog path _ "w\<lparr>pdu_datap := ?p\<rparr>" obj]
        obj(5) meta same_master [where host = host] by simp
  qed
  let ?reg = "any_region HAKO_SHARED_MEMORY_ID_1 ?shm" and ?ch = "channel ?m ! k"
  have within: "ch_offset ?ch + n \<le> length ?reg" using pdu_ready_within(2) [OF p(2) k] p(3,5) n(1) by simp
  have shm': "asset_shmp ?p = any_set_region HAKO_SHARED_MEMORY_ID_1 (splice ?reg (ch_offset ?ch) dat)
      (snd (any_load_memory HAKO_SHARED_MEMORY_ID_1 ?n ?shm))"
    using p(3-5) vt by (simp add: after_poke_def HakoSharedMemoryAny_def)
  obtain type timeout where t: "ce_config (cx_core env) = Some (type, timeout)"
    "hako_shared_memory_create host type = Some ?shm"
    "fst (any_load_memory HAKO_SHARED_MEMORY_ID_0 (ce_size (cx_core env)) ?shm)"
    "fst (any_load_memory HAKO_SHARED_MEMORY_ID_1 ?n ?shm)" "?n \<le> length ?reg"
    using srv by (auto simp: pdu_served_def served_shm_def Let_def)
  have len: "length (splice ?reg (ch_offset ?ch) dat) = length ?reg" using within data by simp
  obtain shm2 where shm2: "hako_shared_memory_create ?host type = Some shm2"
    "\<forall>k m. fst (any_load_memory k m shm2) = fst (any_load_memory k m ?shm)"
    "any_region HAKO_SHARED_MEMORY_ID_1 shm2 = splice ?reg (ch_offset ?ch) dat"
    using publish_set [OF t(2) len t(4)] shm' by auto
  have hm: "h_master ?host = h_master host" by (rule publish_h_master)
  have srv': "pdu_served env ?host"
    using srv t(1,3-5) shm2 len unfolding pdu_served_def hm Let_def by auto
  have served2: "served_shm env ?host = shm2" using t(1) shm2(1) by (simp add: served_shm_def)
  have lo: "laid_out (channel ?m)" "length (channel ?m) = HAKO_PDU_CHANNEL_MAX (he_build (cx_hako env))"
    using srv by (simp_all add: pdu_served_def meta_ok_def Let_def)
  have "served_bytes env ?host k = dat"
    unfolding served_bytes_def served2 hm shm2(3) using slice_splice_same [of "ch_offset ?ch" dat ?reg n] within data n(1)
    by (simp add: Let_def)
  moreover have "served_bytes env ?host j = served_bytes env host j"
    if j: "j < HAKO_PDU_CHANNEL_MAX (he_build (cx_hako env))" "j \<noteq> k" for j
  proof -
    have "ch_offset (channel ?m ! j) + ch_size (channel ?m ! j) \<le> length ?reg"
      using pdu_ready_within(2) [OF p(2) j(1)] p(3,5) by simp
    then show ?thesis
      unfolding served_bytes_def served2 hm shm2(3)
      using slice_splice_other [of "ch_offset ?ch" dat ?reg "ch_offset (channel ?m ! j)" "ch_size (channel ?m ! j)"]
        laid_out_disjoint [OF lo(1), of j k] j k lo(2) within data n(1)
      by (auto simp: Let_def)
  qed
  ultimately show ?thesis using out srv' hm unfolding dat_def by blast
qed

section \<open>Numbers as text\<close>

lemma digit_of [simp]: "d < 10 \<Longrightarrow> isdigit (char_of (48 + d :: nat))" "d < 10 \<Longrightarrow> of_char (char_of (48 + d :: nat)) = (48 + d :: nat)"
  by (simp_all add: isdigit_def)

lemma show_nat_isdigit: "list_all isdigit (show_nat n)"
proof (induction n rule: show_nat.induct)
  case (1 n)
  then show ?case by (subst show_nat.simps) simp
qed

lemma show_nat_value: "foldl (\<lambda>n c. 10 * n + (of_char c - 48)) 0 (show_nat n) = int n"
proof (induction n rule: show_nat.induct)
  case (1 n)
  have d: "of_char (char_of (48 + d :: nat)) = (48 + int d)" if "d < 10" for d
    using digit_of(2) [OF that] by (metis of_nat_add of_nat_numeral of_nat_of_char)
  show ?case
  proof (cases "n < 10")
    case True
    then show ?thesis by (subst show_nat.simps) (simp add: d)
  next
    case False
    have "int n = 10 * int (n div 10) + int (n mod 10)" by presburger
    then show ?thesis using 1 False by (subst show_nat.simps) (simp add: d)
  qed
qed

lemma show_nat_nonempty: "show_nat n \<noteq> []"
  by (subst show_nat.simps) simp

lemma leading_number_show: "leading_number (show_int n) = n"
proof -
  have dv: "digits_value (show_nat m) = int m" for m
  proof -
    have "takeWhile isdigit (show_nat m) = show_nat m"
      using show_nat_isdigit [of m] by (simp only: takeWhile_eq_all_conv list_all_iff)
    then show ?thesis using show_nat_value [of m] by (simp only: digits_value_def)
  qed
  show ?thesis
  proof (cases "n < 0")
    case True
    then show ?thesis using dv by (simp add: show_int_def leading_number_def isspace_def)
  next
    case False
    obtain c cs where s: "show_nat (nat n) = c # cs" using show_nat_nonempty by (cases "show_nat (nat n)") auto
    then have "isdigit c" using show_nat_isdigit [of "nat n"] by simp
    then have "\<not> isspace c" "c \<noteq> CHR ''-''" "c \<noteq> CHR ''+''" by (auto simp: isdigit_def isspace_def)
    then show ?thesis using False s dv [of "nat n"] by (simp add: show_int_def leading_number_def)
  qed
qed

section \<open>Commands to the simulation\<close>

text \<open>A command neither touches the area nor its description, if it calls nothing back.\<close>

definition same_area :: "'m HakoMasterData \<Rightarrow> 'm HakoMasterData \<Rightarrow> bool" where
  "same_area w w' \<longleftrightarrow> pdu_meta_data (pdu_datap w') = pdu_meta_data (pdu_datap w) \<and>
     asset_shmp (pdu_datap w') = asset_shmp (pdu_datap w)"

lemma same_area_simps [simp]:
  "same_area w w" "same_area w (effect e w') = same_area w w'" "same_area w (upd_md f w') = same_area w w'"
  "same_area (effect e w) w' = same_area w w'"
  "same_area w (md_lock w') = same_area w w'" "same_area w (md_unlock w') = same_area w w'"
  by (simp_all add: same_area_def effect_def upd_md_def md_lock_def md_unlock_def emit_def)

lemma same_area_ev [simp]: "same_area w (upd_ev i f w') = same_area w w'"
  by (simp add: upd_ev_def)

lemma same_area_trans: "same_area w w' \<Longrightarrow> same_area w' w'' \<Longrightarrow> same_area w w''"
  by (simp add: same_area_def)

lemma notify_same_area:
  assumes "table_ok (he_build env) (master_datap w)" and "notified_remotely env (master_datap w)"
    and "i < length (assets (master_datap w))" "entry_used (assets (master_datap w) ! i)"
    and "notify env (int i) event w = Inr w'"
  shows "same_area w w'"
proof -
  have "get_asset_event_nolock (he_build env) (int i) w = Some i"
    using get_asset_Some [OF assms(1), of i i] assms(3,4) by (simp add: get_asset_event_nolock_def)
  moreover have "i < length (assets_ev (master_datap w))" using assms(1,3) by (simp add: table_ok_def)
  ultimately show ?thesis
    using assms(2-5) by (auto simp: notify_def Let_def notified_remotely_def split: if_splits)
qed

lemma publish_same_area:
  assumes "table_ok (he_build env) (master_datap w)" and "notified_remotely env (master_datap w)"
    and "publish_from env event is w = Inr w'"
  shows "same_area w w'"
  using assms
proof (induction "is" arbitrary: w)
  case (Cons i "is")
  show ?case
  proof (cases "get_asset (he_build env) (int i) w")
    case None
    then show ?thesis using Cons by simp
  next
    case (Some slot)
    then have i: "slot = i" "i < length (assets (master_datap w))" "entry_used (assets (master_datap w) ! i)"
      using get_asset_Some [OF Cons.prems(1), of i slot] by simp_all
    obtain w1 where w1: "publish_from env event [i] w = Inr w1" "publish_from env event is w1 = Inr w'"
      using Cons.prems(3) Some by (auto simp: fault_simps)
    have one: "same_area w w1"
      using w1(1) Some i notify_same_area [OF Cons.prems(1,2) i(2,3)]
      by (cases event) (auto simp: fault_simps split: if_splits)
    from publish_from_remote [OF Cons.prems(1,2), of "[i]" event] w1(1)
    have ev: "events_published event {i} (master_datap w) (master_datap w1)" by auto
    have und: "undisturbed (master_datap w) (master_datap w1)" by (rule events_published_undisturbed [OF ev])
    have "table_ok (he_build env) (master_datap w1)" using undisturbed_table [OF und] Cons.prems(1) by simp
    moreover have "assets (master_datap w1) = assets (master_datap w)" using und by (simp add: undisturbed_def)
    then have "notified_remotely env (master_datap w1)"
      using ev Cons.prems(1,2) unfolding events_published_def notified_remotely_def by (auto simp: table_ok_def)
    ultimately show ?thesis using Cons.IH [OF _ _ w1(2)] one same_area_trans by blast
  qed
qed simp

lemma refused_same:
  assumes "cmd_next cmd (sim_state (master_datap w)) = None"
  shows "\<exists>w'. sim_exec env cmd w = Inr (False, w') \<and> master_datap w' = master_datap w \<and> same_area w w'"
  using assms
  by (cases cmd; cases "sim_state (master_datap w)")
     (auto simp: sim_start_def sim_stop_def sim_reset_def trigger_event_def Let_def)

lemma accepted_same_area:
  assumes "table_ok (he_build env) (master_datap w)" and "notified_remotely env (master_datap w)"
    and "cmd_next cmd (sim_state (master_datap w)) = Some st" and "sim_exec env cmd w = Inr (r, w')"
  shows "same_area w w'"
proof -
  obtain e where e: "sim_exec env cmd w = trigger_event env (sim_state (master_datap w)) st (cmd_event cmd) (effect e w)"
    using sim_exec_trigger [OF assms(3)] by blast
  define w1 where "w1 = md_unlock (upd_md clear_feedback (upd_md (\<lambda>d. d\<lparr>sim_state := st\<rparr>) (md_lock (effect e w))))"
  have d1: "master_datap w1 = clear_feedback ((master_datap w)\<lparr>sim_state := st\<rparr>)" by (simp add: w1_def)
  have und: "undisturbed ((master_datap w)\<lparr>sim_state := st\<rparr>) (master_datap w1)"
    by (simp add: d1 undisturbed_def clear_feedback_def)
  have "table_ok (he_build env) (master_datap w1)" using undisturbed_table [OF und] assms(1) by simp
  moreover have "notified_remotely env (master_datap w1)"
    using assms(1,2) by (simp add: notified_remotely_def d1 clear_feedback_def table_ok_def in_use_iff)
  moreover have "publish_event_nolock env (cmd_event cmd) w1 = Inr w'"
    using assms(4) e by (auto simp: trigger_event_def w1_def Let_def fault_simps)
  ultimately have "same_area w1 w'" using publish_same_area by (auto simp: publish_event_nolock_def)
  then show ?thesis by (simp add: w1_def same_area_def)
qed

fun cmd_word :: "sim_cmd \<Rightarrow> string" where
  "cmd_word Cmd_Start = ''start''"
| "cmd_word Cmd_Stop = ''stop''"
| "cmd_word Cmd_Reset = ''reset''"

lemma dispatch_cmd:
  "argv ! 1 = cmd_word cmd \<Longrightarrow> cmd_dispatch env argv k path c =
     bindE (on_data (sim_exec (cx_hako env) cmd) c) (\<lambda>(_, c). Inr (0, [Line (cmd_word cmd)], c))"
  by (cases cmd) (simp_all add: cmd_dispatch_def)

lemma new_object_published:
  "hako_shared_memory_create host type = Some shm \<Longrightarrow> publish key shm host = host"
  by (auto simp: hako_shared_memory_create_def split: if_splits)

lemma served_published: "pdu_served env host \<Longrightarrow> publish HAKO_SHARED_MEMORY_ID_1 (served_shm env host) host = host"
  using new_object_published by (auto simp: pdu_served_def served_shm_def Let_def)

section \<open>A small computer for the examples\<close>

definition demo_served_meta :: HakoPduMetaDataType where
  "demo_served_meta = (zero_meta small_build)\<lparr>channel_num := 2,
     channel := [\<lparr>ch_offset = 0, ch_size = 4\<rparr>, \<lparr>ch_offset = 4, ch_size = 2\<rparr>, \<lparr>ch_offset = 6, ch_size = 0\<rparr>],
     channel_map := [\<lparr>robo_name = zero_fixed, logical_channel_id = 0\<rparr>,
       \<lparr>robo_name = hako_string2fixed ''r'' zero_fixed, logical_channel_id = 7\<rparr>,
       \<lparr>robo_name = zero_fixed, logical_channel_id = 0\<rparr>]\<rparr>"

definition demo_file :: "nat \<Rightarrow> byte list \<Rightarrow> SharedMemoryMetaDataType" where
  "demo_file sz bs = \<lparr>magic = HAKO_SHM_MAGIC, version = HAKO_SHM_LAYOUT_VERSION, meta_shm_id = -1, meta_sem_id = 1,
     data_size = sz, meta_data = bs\<rparr>"

definition demo_served_host :: "HakoSimulationStateType \<Rightarrow> host" where
  "demo_served_host st = \<lparr>
     h_mmap = \<lparr>mm_files = [HAKO_SHARED_MEMORY_ID_0 \<mapsto> demo_file 100 [], HAKO_SHARED_MEMORY_ID_1 \<mapsto> demo_file 6 (replicate 14 0)],
       mm_map = Map.empty, mm_os = good_os\<rparr>,
     h_shm = h_shm demo_host, h_master = (demo_master st, demo_served_meta)\<rparr>"

definition demo_cmd_env :: cmd_env where
  "demo_cmd_env = \<lparr>
     cx_core = \<lparr>ce_build = small_build, ce_pid = 5, ce_size = 100, ce_config = Some (''mmap'', None)\<rparr>,
     cx_hako = \<lparr>he_pdu = \<lparr>env_build = small_build, env_shm = HakoSharedMemoryAny, env_init_lock = True\<rparr>,
       he_pid = 5, he_now = 0, he_call = (\<lambda>_ _. Inl Null_Deref)\<rparr>,
     cx_log = \<lparr>log_index = 0, log_data = []\<rparr>,
     cx_file = (\<lambda>path. if path = ''full'' then Contents [1, 2, 3] else if path = ''short'' then Contents [1] else Open_Fails 2),
     cx_malloc = (\<lambda>n. Some (replicate n 9))\<rparr>"

lemma demo_cmd_simps [simp]:
  "he_build (cx_hako demo_cmd_env) = small_build" "cx_malloc demo_cmd_env n = Some (replicate n 9)"
  "snd (h_master (demo_served_host st)) = demo_served_meta" "fst (h_master (demo_served_host st)) = demo_master st"
  "channel demo_served_meta =
    [\<lparr>ch_offset = 0, ch_size = 4\<rparr>, \<lparr>ch_offset = 4, ch_size = 2\<rparr>, \<lparr>ch_offset = 6, ch_size = 0\<rparr>]"
  by (simp_all add: demo_cmd_env_def demo_served_host_def demo_served_meta_def)

lemma demo_meta_ok: "meta_ok small_build demo_served_meta" "pdu_idle demo_served_meta" "laid_out (channel demo_served_meta)"
proof -
  show "meta_ok small_build demo_served_meta" "pdu_idle demo_served_meta"
    by (simp_all add: demo_served_meta_def meta_ok_def zero_meta_def pdu_idle_def Let_def fixed_ok_string2fixed
        HAKO_FIXED_STRLEN_MAX_def)
  have "channel demo_served_meta = assign_offsets 0 (channel demo_served_meta)" by (simp add: SIZE_MAX_def)
  then show "laid_out (channel demo_served_meta)"
    using laid_out_assign_offsets [of "channel demo_served_meta"] by (simp add: SIZE_MAX_def)
qed

lemma demo_served: "pdu_served demo_cmd_env (demo_served_host st)"
proof -
  have "HAKO_SHARED_MEMORY_ID_0 \<noteq> HAKO_SHARED_MEMORY_ID_1"
    by (simp add: HAKO_SHARED_MEMORY_ID_0_def HAKO_SHARED_MEMORY_ID_1_def)
  moreover have "env_shm (he_pdu (cx_hako demo_cmd_env)) = HakoSharedMemoryAny" "env_init_lock (he_pdu (cx_hako demo_cmd_env))"
    "cx_core demo_cmd_env = \<lparr>ce_build = small_build, ce_pid = 5, ce_size = 100, ce_config = Some (''mmap'', None)\<rparr>"
    by (simp_all add: demo_cmd_env_def)
  ultimately show ?thesis
    using demo_meta_ok
    by (simp add: pdu_served_def hako_shared_memory_create_def demo_served_host_def demo_file_def good_os_def
        mmap_load_memory_def hako_mmap_open_def mmap_region_def demo_master_def Let_def)
qed

section \<open>Properties\<close>

text \<open>
  C24: \<open>hako-cmd restore\<close> and then, in a new process, \<open>hako-cmd dump\<close> of a channel on a computer
  with a running simulation: both succeed, and the dump gives back the first bytes of the
  file, as many as the channel has. If the file is shorter, the rest of the dump is what the
  allocated block happened to hold. The dump changes nothing, and every other channel dumps
  the bytes that it had before.
\<close>

theorem restore_then_dump:
  assumes "pdu_served env host" and "k < HAKO_PDU_CHANNEL_MAX (he_build (cx_hako env))" and "atoi arg = Inr (int k)"
    and "ch_size (channel (snd (h_master host)) ! k) = n" and "n < 2 ^ 31"
    and "cx_malloc env n = Some block" and "length block = n" and "cx_file env path = Contents bs"
  shows "\<exists>host'. hako_cmd env [prog, ''restore'', arg, path] host = Inr (0, [], host') \<and>
    hako_cmd env [prog, ''dump'', arg] host' = Inr (0, [Raw (take n (bs @ drop (length bs) block))], host') \<and>
    (\<forall>j arg' block'. j < HAKO_PDU_CHANNEL_MAX (he_build (cx_hako env)) \<and> j \<noteq> k \<and> atoi arg' = Inr (int j) \<and>
       ch_size (channel (snd (h_master host)) ! j) < SIZE_MAX \<and>
       cx_malloc env (ch_size (channel (snd (h_master host)) ! j)) = Some block' \<and>
       length block' = ch_size (channel (snd (h_master host)) ! j) \<longrightarrow>
       hako_cmd env [prog, ''dump'', arg'] host' = Inr (0, [Raw (served_bytes env host j)], host'))"
proof -
  obtain host' where h: "hako_cmd env [prog, ''restore'', arg, path] host = Inr (0, [], host')" "pdu_served env host'"
    "h_master host' = h_master host" "served_bytes env host' k = take n (bs @ drop (length bs) block)"
    "\<forall>j < HAKO_PDU_CHANNEL_MAX (he_build (cx_hako env)). j \<noteq> k \<longrightarrow> served_bytes env host' j = served_bytes env host j"
    using restore_served [OF assms] by blast
  have "n < SIZE_MAX" using assms(5) by (simp add: SIZE_MAX_def)
  note dump = dump_served [OF h(2), unfolded h(3)]
  show ?thesis
  proof (intro exI [of _ host'] conjI allI impI)
    show "hako_cmd env [prog, ''dump'', arg] host' = Inr (0, [Raw (take n (bs @ drop (length bs) block))], host')"
      using dump [OF assms(2,3)] \<open>n < SIZE_MAX\<close> assms(4,6,7) h(4) by simp
  qed (use h(1,5) dump in auto)
qed

theorem restore_then_dump_witness:
  "\<exists>host'. hako_cmd demo_cmd_env [''hako-cmd'', ''restore'', ''1'', ''short''] (demo_served_host HakoSim_Running) = Inr (0, [], host') \<and>
    hako_cmd demo_cmd_env [''hako-cmd'', ''dump'', ''1''] host' = Inr (0, [Raw [1, 9]], host')"
proof -
  have prem: "1 < HAKO_PDU_CHANNEL_MAX (he_build (cx_hako demo_cmd_env))" "atoi ''1'' = Inr (int 1)"
    "ch_size (channel (snd (h_master (demo_served_host HakoSim_Running))) ! 1) = 2" "(2::nat) < 2 ^ 31"
    "cx_malloc demo_cmd_env 2 = Some (replicate 2 9)" "length (replicate 2 (9 :: byte)) = 2"
    "cx_file demo_cmd_env ''short'' = Contents [1]"
    by (simp_all add: atoi_def leading_number_def isspace_def digits_value_def isdigit_def) (simp add: demo_cmd_env_def)
  from restore_then_dump [OF demo_served prem, of "''hako-cmd''"] obtain host' where
    "hako_cmd demo_cmd_env [''hako-cmd'', ''restore'', ''1'', ''short''] (demo_served_host HakoSim_Running) = Inr (0, [], host')"
    "hako_cmd demo_cmd_env [''hako-cmd'', ''dump'', ''1''] host' =
       Inr (0, [Raw (take 2 ([1] @ drop (length [1 :: byte]) (replicate 2 9)))], host')" by blast
  then show ?thesis by (auto simp: numeral_2_eq_2)
qed



text \<open>
  From a robot's name and its own channel number to the bytes of the channel:
  \<open>hako-cmd real_cid\<close> prints the number of the channel in the area, and \<open>hako-cmd dump\<close> with
  that text, as it was printed, puts out the bytes of that channel. Neither changes
  anything.
\<close>

lemma real_cid_then_dump:
  assumes "pdu_served env host" and "NUL \<notin> set name" and "atoi arg = Inr cid"
    and "lookup_channel (snd (h_master host)) name cid = int k" and "k < HAKO_PDU_CHANNEL_MAX (he_build (cx_hako env))"
    and "HAKO_PDU_CHANNEL_MAX (he_build (cx_hako env)) \<le> 2 ^ 31"
    and "ch_size (channel (snd (h_master host)) ! k) = n" and "n < SIZE_MAX"
    and "cx_malloc env n = Some block" and "length block = n"
  shows "\<exists>text. hako_cmd env [prog, ''real_cid'', name, arg] host = Inr (0, [Line text], host) \<and>
    hako_cmd env [prog, ''dump'', text] host = Inr (0, [Raw (served_bytes env host k)], host)"
proof -
  obtain c w where c: "get_simevent_controller (cx_core env) (fresh_core host) = Inr (True, c)"
    "attached_to host (served_shm env host) c w"
    using attach_served [OF assms(1)] by blast
  then obtain obj where obj: "master_data_ptr c = Some obj" "cd_data obj = Some w" "c_host c = host" "master_ptr c = None"
    "master_datap w = fst (h_master host)" "pdu_meta_data (pdu_datap w) = snd (h_master host)"
    "asset_shmp (pdu_datap w) = served_shm env host" "cache_ok (snd (h_master host)) (pdu_channel_cache (pdu_datap w))"
    by (auto simp: attached_to_def)
  have "meta_ok (he_build (cx_hako env)) (pdu_meta_data (pdu_datap w))"
    using assms(1) obj(6) by (simp add: pdu_served_def Let_def)
  then obtain ch where ch: "get_pdu_channel name cid (pdu_datap w) = Inr (int k, (pdu_datap w)\<lparr>pdu_channel_cache := ch\<rparr>)"
    using get_pdu_channel_eq [of _ "pdu_datap w" name cid] obj(6,8) assms(2,4) by (metis (full_types))
  let ?w = "w\<lparr>pdu_datap := (pdu_datap w)\<lparr>pdu_channel_cache := ch\<rparr>\<rparr>"
  have disp: "cmd_dispatch env [prog, ''real_cid'', name, arg] 0 '''' c = Inr (0, [Line (show_int (int k))],
      c\<lparr>master_data_ptr := Some (obj\<lparr>cd_data := Some ?w\<rparr>)\<rparr>)"
    using assms(3) obj(1,2) ch by (simp add: cmd_dispatch_def on_data_def sim_get_pdu_channel_def pdu_call_def numeral_3_eq_3)
  have "hako_cmd env [prog, ''real_cid'', name, arg] host = Inr (0, [Line (show_int (int k))], host)"
    using hako_cmd_run [OF assms(1) c(1) obj(3,4) _ _ disp] obj(5-7) served_published [OF assms(1)]
    by (simp add: cmd_arguments_def)
  moreover have "atoi (show_int (int k)) = Inr (int k)"
    using assms(5,6) by (simp add: atoi_def leading_number_show Let_def)
  from dump_served [OF assms(1,5) this] have "hako_cmd env [prog, ''dump'', show_int (int k)] host =
      Inr (0, [Raw (served_bytes env host k)], host)" using assms(7-10) by simp
  ultimately show ?thesis by blast
qed

text \<open>
  How \<open>hako-cmd\<close> fails. Without a command, with too many arguments, or with the wrong
  number of them for \<open>dump\<close> and \<open>restore\<close>, it ends with exit code 1, whatever the computer
  holds, and leaves that as it is; so it does where no master has set the data up. But
  \<open>real_cid\<close> does not look at the number of its arguments, and where a simulation can be
  attached to it reads past the end of a short argument list.
\<close>

lemma cmd_errors:
  shows "(length argv = 1 \<or> length argv > 4 \<or> length argv > 1 \<and> argv ! 1 = ''dump'' \<and> length argv \<noteq> 3 \<or>
        length argv > 1 \<and> argv ! 1 = ''restore'' \<and> length argv \<noteq> 4 \<longrightarrow>
      (\<exists>msg. hako_cmd env argv host = Inr (1, [Line msg], host))) \<and>
    (length argv \<in> {2, 3, 4} \<and> argv ! 1 \<notin> {''dump'', ''restore''} \<and> ce_config (cx_core env) = Some (type, timeout) \<and>
        hako_shared_memory_create host type = Some shm \<and> \<not> holds_region host type (ce_size (cx_core env)) \<longrightarrow>
      hako_cmd env argv host = Inr (1, [Line ''ERROR: Not found hako-master on this PC''], host)) \<and>
    (pdu_served env host \<and> length argv \<in> {2, 3} \<and> argv ! 1 = ''real_cid'' \<longrightarrow>
      hako_cmd env argv host = Inl Null_Deref)"
proof (intro conjI impI)
  have left: "left_by (fresh_core host) = host" by (simp add: left_by_def fresh_core_def)
  assume "length argv = 1 \<or> length argv > 4 \<or> length argv > 1 \<and> argv ! 1 = ''dump'' \<and> length argv \<noteq> 3 \<or>
      length argv > 1 \<and> argv ! 1 = ''restore'' \<and> length argv \<noteq> 4"
  then show "\<exists>msg. hako_cmd env argv host = Inr (1, [Line msg], host)"
    using left by (cases "length argv = 1 \<or> length argv > 4"; cases argv) (auto simp: hako_cmd_def hako_cmd_main_def cmd_arguments_def)
next
  assume a: "length argv \<in> {2, 3, 4} \<and> argv ! 1 \<notin> {''dump'', ''restore''} \<and> ce_config (cx_core env) = Some (type, timeout) \<and>
      hako_shared_memory_create host type = Some shm \<and> \<not> holds_region host type (ce_size (cx_core env))"
  then obtain shmp where "any_load_memory HAKO_SHARED_MEMORY_ID_0 (ce_size (cx_core env)) shm = (False, shmp)"
    by (cases "any_load_memory HAKO_SHARED_MEMORY_ID_0 (ce_size (cx_core env)) shm") (auto simp: holds_region_def)
  then have "md_load (cx_core env) type new_core_data host = Inr (False, new_core_data\<lparr>cd_shm_type := type, cd_shmp := Some shmp\<rparr>)"
    using a unfolding md_load_def core_type by (simp add: Let_def) (simp add: new_core_data_def)
  then have "get_simevent_controller (cx_core env) (fresh_core host) = Inr (False, (fresh_core host)
      \<lparr>master_data_ptr := Some (new_core_data\<lparr>cd_shm_type := type, cd_shmp := Some shmp\<rparr>)\<rparr>)"
    using a by (simp add: get_simevent_controller_def fresh_core_def Let_def)
  moreover have "cmd_arguments argv = Inr (Inr (0, ''''))" using a by (simp add: cmd_arguments_def)
  ultimately show "hako_cmd env argv host = Inr (1, [Line ''ERROR: Not found hako-master on this PC''], host)"
    using a by (cases argv) (auto simp: hako_cmd_def hako_cmd_main_def left_by_def fresh_core_def new_core_data_def)
next
  assume a: "pdu_served env host \<and> length argv \<in> {2, 3} \<and> argv ! 1 = ''real_cid''"
  then obtain c where "get_simevent_controller (cx_core env) (fresh_core host) = Inr (True, c)"
    using attach_served by blast
  moreover have "cmd_arguments argv = Inr (Inr (0, ''''))" using a by (simp add: cmd_arguments_def)
  moreover have "cmd_dispatch env argv 0 '''' c = Inl Null_Deref" using a by (auto simp: cmd_dispatch_def Let_def)
  ultimately show "hako_cmd env argv host = Inl Null_Deref"
    using a by (cases argv) (auto simp: hako_cmd_def hako_cmd_main_def)
qed

end
