(* ===== verification/Hako_Base_Procs.thy ===== *)
theory Hako_Base_Procs
  imports Hako_Cmd Hako_System
begin

text \<open>
  The two sample processes of a co-simulation: \<open>hako-asset\<close>
  (\<open>sample/base-procs/hako-asset/src/hako_asset.cpp\<close>), which advances a clock of its own and
  reports it, and \<open>hako-master\<close> (\<open>sample/base-procs/hako-master/src/hako_master.cpp\<close>), which
  executes the master. The theorems put the asset's loop beside everything else that may
  happen in the system, one library call at a time, and state how far the two clocks can be
  apart while the simulation runs, and what a reset does to them.
\<close>

section \<open>The asset\<close>

text \<open>
  The state is \<open>hako_asset_time_usec\<close> and the data that the controller works on. The
  callbacks run in the thread of the proxy.
\<close>

definition reset_callback :: "'m hako_env \<Rightarrow> string \<Rightarrow> int \<times> 'm HakoMasterData \<Rightarrow> (int \<times> 'm HakoMasterData) result" where
  "reset_callback env asset_name = (\<lambda>(t, w). bindE (reset_feedback env asset_name True w) (\<lambda>(_, w). Inr (0, w)))"

definition start_callback :: "'m hako_env \<Rightarrow> string \<Rightarrow> int \<times> 'm HakoMasterData \<Rightarrow> (int \<times> 'm HakoMasterData) result" where
  "start_callback env asset_name = (\<lambda>(t, w). bindE (start_feedback env asset_name True w) (\<lambda>(_, w). Inr (t, w)))"

definition stop_callback :: "'m hako_env \<Rightarrow> string \<Rightarrow> int \<times> 'm HakoMasterData \<Rightarrow> (int \<times> 'm HakoMasterData) result" where
  "stop_callback env asset_name = (\<lambda>(t, w). bindE (stop_feedback env asset_name True w) (\<lambda>(_, w). Inr (t, w)))"

text \<open>The comparison with the world's time in the loop.\<close>

definition asset_advance :: "int \<Rightarrow> int \<Rightarrow> int \<Rightarrow> int result" where
  "asset_advance delta_usec world_time t = (if world_time \<ge> t then checked64 (t + delta_usec) else Inr t)"

text \<open>Bytes printed with \<open>%s\<close>.\<close>

definition bytes_string :: "byte list \<Rightarrow> string result" where
  "bytes_string bs = c_string (map (\<lambda>b. char_of (unat b)) bs)"

text \<open>
  One turn of the loop. \<open>buf\<close> and \<open>tmp\<close> are the arrays of the program, \<open>tmp\<close> uninitialised;
  the output is the lines printed.
\<close>

definition asset_turn ::
  "'m hako_env \<Rightarrow> string \<Rightarrow> int \<Rightarrow> byte list \<Rightarrow> byte list \<Rightarrow> int \<times> 'm HakoMasterData \<Rightarrow>
   (string list \<times> int \<times> 'm HakoMasterData) result" where
  "asset_turn env name delta_usec buf tmp = (\<lambda>(t, w).
     bindE (asset_is_pdu_created env w) (\<lambda>(created, w).
       if \<not> created then Inr ([''not pdu created...yet''], t, w)
       else if asset_is_simulation_mode w
       then
         bindE (notify_simtime env name t w) (\<lambda>w.
           let world_time = get_worldtime w
           in bindE (asset_advance delta_usec world_time t) (\<lambda>t.
              bindE (asset_read_pdu env name name 1 100 w) (\<lambda>(ret, w).
                let tmp = (case ret of Some bs \<Rightarrow> bs @ drop (length bs) tmp | None \<Rightarrow> tmp);
                    w = asset_notify_read_pdu_done env name w
                in bindE (bytes_string buf) (\<lambda>b. bindE (bytes_string tmp) (\<lambda>p.
                     Inr ([''TIME: W:'' @ show_int world_time @ '' A: '' @ show_int t,
                           ''buf:'' @ b @ '' pdu:'' @ p], t, w))))))
       else
         bindE (asset_is_pdu_sync_mode env name w) (\<lambda>sync.
           if \<not> sync then Inr ([], t, w)
           else
             bindE (asset_write_pdu env name name 1 buf 100 w) (\<lambda>(_, w).
             bindE (asset_notify_write_pdu_done env name w) (\<lambda>w. Inr ([], t, w))))))"

text \<open>
  The loop runs until a signal comes; a turn is given by the environment (its clock), the
  contents of \<open>tmp\<close>, and what the proxy's thread and the other processes do before it.
\<close>

record asset_round =
  ar_env :: "any_shm hako_env"
  ar_tmp :: "byte list"
  ar_others :: "int \<times> any_shm HakoMasterData \<Rightarrow> (int \<times> any_shm HakoMasterData) result"

fun asset_loop ::
  "string \<Rightarrow> int \<Rightarrow> byte list \<Rightarrow> asset_round list \<Rightarrow> int \<times> any_shm HakoMasterData \<Rightarrow>
   (string list \<times> int \<times> any_shm HakoMasterData) result" where
  "asset_loop name delta_usec buf [] s = Inr ([], s)"
| "asset_loop name delta_usec buf (r # rs) s =
     bindE (ar_others r s) (\<lambda>s.
     bindE (asset_turn (ar_env r) name delta_usec buf (ar_tmp r) s) (\<lambda>(out, s).
     bindE (asset_loop name delta_usec buf rs s) (\<lambda>(out', s). Inr (out @ out', s))))"

text \<open>\<open>memcpy(buf, "Hello World!!", 14)\<close> into an array of 100 bytes.\<close>

definition hello_bytes :: "byte list" where
  "hello_bytes = map (\<lambda>c. word_of_nat (of_char c)) ''Hello World!!'' @ [0]"

definition hako_asset_main ::
  "core_env \<Rightarrow> any_shm hako_env \<Rightarrow> byte list \<Rightarrow> asset_round list \<Rightarrow> string list \<Rightarrow> hako_core \<Rightarrow>
   (int \<times> string list \<times> hako_core) result" where
  "hako_asset_main env henv buf rounds argv c =
    (if argv = [] then Inl Out_Of_Bounds
     else if length argv \<noteq> 3 then Inr (1, [''Usage: '' @ argv ! 0 @ '' <delta_msec> <asset_name>''], c)
     else
       let name = argv ! 2;
           callback = \<lparr>cb_start = Some 1, cb_stop = Some 2, cb_reset = Some 0\<rparr>
       in bindE (checked64 (strtol (argv ! 1) * 1000)) (\<lambda>delta_usec.
          bindE (create_asset_controller env c) (\<lambda>(found, c).
            if \<not> found then Inr (1, [''START'', ''ERROR: Not found hako-master on this PC''], c)
            else
              bindE (on_data (create_pdu_lchannel henv name 1 100) c) (\<lambda>(_, c).
              bindE (on_data (\<lambda>w. let (ret, rpc, w) = asset_register henv name callback None w in Inr ((ret, rpc), w)) c)
                (\<lambda>((ret, rpc), c).
                if \<not> ret then Inr (1, [''START'', ''ERROR: Can not register asset''], c)
                else
                  bindE (on_data (\<lambda>w. bindE (asset_loop name delta_usec (hello_bytes @ drop 14 buf) rounds (0, w))
                                         (\<lambda>(out, t, w). Inr (out, w))) c) (\<lambda>(out, c).
                  bindE (on_data (\<lambda>w. bindE (asset_unregister henv name rpc w) (\<lambda>(_, _, w). Inr ((), w))) c) (\<lambda>(_, c).
                    Inr (0, [''START''] @ out @ [''EXIT''], c))))))))"

section \<open>The master\<close>

record master_round =
  mr_env :: "any_shm hako_env"
  mr_others :: "any_shm HakoMasterData \<Rightarrow> any_shm HakoMasterData result"

fun master_loop :: "master_round list \<Rightarrow> any_shm HakoMasterController \<Rightarrow> any_shm HakoMasterController result" where
  "master_loop [] c = Inr c"
| "master_loop (r # rs) c =
     bindE (mr_others r (mc_data c)) (\<lambda>w.
     bindE (execute (mr_env r) (c\<lparr>mc_data := w\<rparr>)) (\<lambda>(_, c). master_loop rs c))"

definition hako_master_main ::
  "core_env \<Rightarrow> master_round list \<Rightarrow> string list \<Rightarrow> hako_core \<Rightarrow> (int \<times> string list \<times> hako_core) result" where
  "hako_master_main env rounds argv c =
    (if argv = [] then Inl Out_Of_Bounds
     else if length argv \<noteq> 3 then Inr (1, [''Usage: '' @ argv ! 0 @ '' <delta_msec> <max_delay_msec>''], c)
     else
       bindE (checked64 (strtol (argv ! 1) * 1000)) (\<lambda>delta_usec.
       bindE (checked64 (strtol (argv ! 2) * 1000)) (\<lambda>max_delay_usec.
       bindE (hako_init env c) (\<lambda>c.
       bindE (create_master env c) (\<lambda>c.
       bindE (on_data (\<lambda>w. bindE (master_loop rounds (set_config_simtime max_delay_usec delta_usec \<lparr>theWorld = None, mc_data = w\<rparr>))
                              (\<lambda>ctl. Inr ((), mc_data ctl))) c) (\<lambda>(_, c).
       bindE (hako_destroy env c) (\<lambda>c. Inr (0, [''START'', ''EXIT''], c))))))))"

section \<open>The asset in the system\<close>

text \<open>
  \<open>asset_step\<close> is one call of the loop of the asset \<open>name\<close> with the step \<open>delta\<close>, or one step of
  another party of the system that neither reports the time of slot \<open>i\<close> nor takes the slot
  away; the asset's own accesses to its PDU object are such steps as well. The master of the
  sample configures the time once, before it executes, so that it is configured already.
\<close>

type_synonym 'm cosim = "int \<times> 'm HakoMasterController"

definition keeps_slot :: "nat \<Rightarrow> HakoMasterDataType \<Rightarrow> HakoMasterDataType \<Rightarrow> bool" where
  "keeps_slot i d d' \<longleftrightarrow> ae_type (assets d' ! i) = ae_type (assets d ! i) \<and> ae_name (assets d' ! i) = ae_name (assets d ! i) \<and>
     ev_ctime (assets_ev d' ! i) = ev_ctime (assets_ev d ! i)"

inductive asset_step :: "hako_build \<Rightarrow> (nat \<Rightarrow> bool) \<Rightarrow> string \<Rightarrow> nat \<Rightarrow> int \<Rightarrow> 'm cosim \<Rightarrow> 'm cosim \<Rightarrow> bool"
  for b known name i delta where
  step_others: "party_step b known c c' \<Longrightarrow> keeps_slot i (master_datap (mc_data c)) (master_datap (mc_data c')) \<Longrightarrow>
     asset_step b known name i delta (t, c) (t, c')"
| step_notify: "he_build env = b \<Longrightarrow> notify_simtime env name t (mc_data c) = Inr w \<Longrightarrow>
     asset_step b known name i delta (t, c) (t, c\<lparr>mc_data := w\<rparr>)"
| step_advance: "asset_is_simulation_mode (mc_data c) \<Longrightarrow> asset_advance delta (get_worldtime (mc_data c)) t = Inr t' \<Longrightarrow>
     asset_step b known name i delta (t, c) (t', c)"

text \<open>A run in which no reset is going on.\<close>

inductive asset_run :: "hako_build \<Rightarrow> (nat \<Rightarrow> bool) \<Rightarrow> string \<Rightarrow> nat \<Rightarrow> int \<Rightarrow> 'm cosim \<Rightarrow> 'm cosim \<Rightarrow> bool"
  for b known name i delta s where
  run_start: "asset_run b known name i delta s s"
| run_next: "asset_run b known name i delta s s' \<Longrightarrow> sim_state (master_datap (mc_data (snd s'))) \<noteq> HakoSim_Resetting \<Longrightarrow>
     asset_step b known name i delta s' s'' \<Longrightarrow> asset_run b known name i delta s s''"

section \<open>How the clocks move\<close>

text \<open>
  One step of the system outside a reset: the master's settings stay, and its clock stays or
  moves by one step, the latter only if no registered asset is late.
\<close>

definition clock_step :: "'m HakoMasterController \<Rightarrow> 'm HakoMasterController \<Rightarrow> bool" where
  "clock_step c c' \<longleftrightarrow> (\<forall>tw. theWorld c = Some tw \<longrightarrow> (\<exists>tw'. theWorld c' = Some tw' \<and>
     max_delay_time_usec tw' = max_delay_time_usec tw \<and> delta_time_usec tw' = delta_time_usec tw \<and>
     (world_time_usec tw' = world_time_usec tw \<or>
      world_time_usec tw' = world_time_usec tw + delta_time_usec tw \<and> in_time tw (get_asset_times (mc_data c')))))"

lemma asset_times_time:
  "master_datap w' = (master_datap w)\<lparr>time_usec := t\<rparr> \<Longrightarrow> get_asset_times w' = get_asset_times w"
  by (simp add: get_asset_times_def in_use_def [abs_def])

lemma execute_clock:
  assumes inv: "sys_inv (he_build env) known c" and run: "execute env c = Inr (r, c')"
    and "sim_state (master_datap (mc_data c)) \<noteq> HakoSim_Resetting"
  shows "clock_step c c'"
proof (cases "theWorld c")
  case None
  then show ?thesis by (simp add: clock_step_def)
next
  case (Some tw)
  then have tw: "theWorld c = Some tw" "0 < delta_time_usec tw"
    and dinv: "data_inv (he_build env) known (master_datap (mc_data c))" using inv by (auto simp: sys_inv_def)
  obtain ch prev nxt w1 where h: "do_event_handling env (mc_data c) = Inr ((ch, prev, nxt), w1)"
    using run tw(1) by (auto simp: execute_def fault_simps)
  have other: "\<not> (ch \<and> prev = HakoSim_Resetting \<and> nxt = HakoSim_Stopped)"
    using handling_step(2) [OF dinv h] assms(3) by auto
  define prep where "prep = (if ch \<and> prev = HakoSim_Runnable \<and> nxt = HakoSim_Running
      then bindE (create_pdu_data env w1) (\<lambda>w. Inr (tw, w)) else Inr (tw, w1))"
  have run': "bindE prep (\<lambda>(tw, w).
         if nxt \<noteq> HakoSim_Running then Inr (False, \<lparr>theWorld = Some tw, mc_data = w\<rparr>)
         else if \<not> is_simulation_mode (pdu_datap w) then Inr (False, \<lparr>theWorld = Some tw, mc_data = w\<rparr>)
         else bindE (move_time tw w) (\<lambda>(r, tw, w). Inr (r, \<lparr>theWorld = Some tw, mc_data = w\<rparr>))) = Inr (r, c')"
    using run tw(1) h other by (auto simp: execute_def prep_def)
  obtain w2 where prep: "prep = Inr (tw, w2)"
    using run' by (auto simp: prep_def create_pdu_data_def fault_simps split: if_splits)
  have "c' = \<lparr>theWorld = Some tw, mc_data = w2\<rparr> \<or>
      (\<exists>tw' w3. move_time tw w2 = Inr (r, tw', w3) \<and> c' = \<lparr>theWorld = Some tw', mc_data = w3\<rparr>)"
    using run' by (auto simp: prep fault_simps split: if_splits)
  then show ?thesis
  proof
    assume "\<exists>tw' w3. move_time tw w2 = Inr (r, tw', w3) \<and> c' = \<lparr>theWorld = Some tw', mc_data = w3\<rparr>"
    then obtain tw' w3 where m: "move_time tw w2 = Inr (r, tw', w3)" "c' = \<lparr>theWorld = Some tw', mc_data = w3\<rparr>" by blast
    note mv = move_time_result [OF m(1) tw(2)]
    show ?thesis
    proof (cases r)
      case True
      then have "get_asset_times w3 = get_asset_times w2" using asset_times_time mv(1) by blast
      then show ?thesis using True mv tw(1) m(2) by (simp add: clock_step_def)
    next
      case False
      then show ?thesis using mv tw(1) m(2) by (simp add: clock_step_def)
    qed
  qed (use tw(1) in \<open>simp add: clock_step_def\<close>)
qed

lemma party_step_clock:
  assumes "sys_inv b known c" and "party_step b known c c'" and "sim_state (master_datap (mc_data c)) \<noteq> HakoSim_Resetting"
  shows "clock_step c c'"
  using assms(2)
proof (cases rule: party_step.cases)
  case (sys_execute env r)
  then show ?thesis using execute_clock [of env known c] assms(1,3) by simp
qed (simp_all add: clock_step_def)

section \<open>The bound\<close>

text \<open>The asset has slot \<open>i\<close> under its name; its report is \<open>ctime\<close>.\<close>

definition holds_slot :: "string \<Rightarrow> nat \<Rightarrow> HakoMasterDataType \<Rightarrow> bool" where
  "holds_slot name i d \<longleftrightarrow> i < length (assets d) \<and> entry_used (assets d ! i) \<and> hako_fixed2string (ae_name (assets d ! i)) = name"

definition together :: "hako_build \<Rightarrow> (nat \<Rightarrow> bool) \<Rightarrow> string \<Rightarrow> nat \<Rightarrow> int \<Rightarrow> int \<Rightarrow> int \<Rightarrow> 'm cosim \<Rightarrow> bool" where
  "together b known name i delta max_delay step = (\<lambda>(t, c). sys_inv b known c \<and> in_step c \<and> holds_slot name i (master_datap (mc_data c)) \<and>
     (\<exists>tw. theWorld c = Some tw \<and> max_delay_time_usec tw = max_delay \<and> delta_time_usec tw = step) \<and>
     (let W = get_worldtime (mc_data c); R = ev_ctime (assets_ev (master_datap (mc_data c)) ! i)
      in R \<le> t \<and> t \<le> W + delta \<and> W < R + max_delay + step))"

lemma slot_lookup:
  assumes "data_inv b known (master_datap w)" and "holds_slot name i (master_datap w)"
  shows "get_asset_nolock name w = Some i" and "i < length (assets_ev (master_datap w))"
    and "ev_ctime (assets_ev (master_datap w) ! i) \<in> set (get_asset_times w)"
  using own_name_lookup [of b "master_datap w" i] assms asset_times_used [of w]
  by (auto simp: data_inv_def holds_slot_def get_asset_nolock_eq table_ok_def)

lemma report_result:
  assumes "data_inv (he_build env) known (master_datap w)" and "holds_slot name i (master_datap w)"
    and "notify_simtime env name t w = Inr w'"
  shows "w' = upd_ev i (\<lambda>e. e\<lparr>ev_ctime := t, ev_update_time := he_now env\<rparr>) w"
proof -
  have ok: "table_ok (he_build env) (master_datap w)" using assms(1) by (simp add: data_inv_def)
  note l = slot_lookup(1) [OF assms(1,2)]
  show ?thesis using assms(3) l lookup_slot(4,5) [OF ok l] by (simp add: notify_simtime_def)
qed

lemma worldtime_cong: "time_usec (master_datap w') = time_usec (master_datap w) \<Longrightarrow> get_worldtime w' = get_worldtime w"
  by (simp add: get_worldtime_def)

lemma asset_step_together:
  assumes inv: "together b known name i delta max_delay step s" and "0 \<le> delta"
    and calm: "sim_state (master_datap (mc_data (snd s))) \<noteq> HakoSim_Resetting"
    and step: "asset_step b known name i delta s s'"
  shows "together b known name i delta max_delay step s'"
  using step
proof (cases rule: asset_step.cases)
  case (step_others c c' t)
  let ?d = "master_datap (mc_data c)" and ?d' = "master_datap (mc_data c')"
  obtain tw where tw: "theWorld c = Some tw" "max_delay_time_usec tw = max_delay" "delta_time_usec tw = step"
    and sinv: "sys_inv b known c" "in_step c" and slot: "holds_slot name i ?d"
    using inv step_others by (auto simp: together_def)
  have sinv': "sys_inv b known c'" "in_step c'"
    using party_step_change [OF sinv(1) step_others(3)] sinv(2) by (simp_all add: sys_change_def)
  have "length (assets ?d') = length (assets ?d)" using sinv sinv' by (simp add: sys_inv_def data_inv_def table_ok_def)
  then have slot': "holds_slot name i ?d'"
    using slot step_others(4) by (simp add: holds_slot_def keeps_slot_def entry_used_def)
  have "clock_step c c'" using party_step_clock [OF sinv(1) step_others(3)] calm step_others(1) by simp
  then obtain tw' where tw': "theWorld c' = Some tw'" "max_delay_time_usec tw' = max_delay" "delta_time_usec tw' = step"
    "world_time_usec tw' = world_time_usec tw \<or>
     world_time_usec tw' = world_time_usec tw + step \<and> in_time tw (get_asset_times (mc_data c'))"
    using tw by (auto simp: clock_step_def)
  have W: "get_worldtime (mc_data c) = world_time_usec tw" "get_worldtime (mc_data c') = world_time_usec tw'" "0 < step"
    using sinv sinv' tw(1,3) tw'(1) by (auto simp: sys_inv_def in_step_def)
  have "data_inv b known ?d'" using sinv' by (simp add: sys_inv_def)
  from slot_lookup(3) [OF this slot'] have "ev_ctime (assets_ev ?d' ! i) \<in> set (get_asset_times (mc_data c'))" .
  moreover have "ev_ctime (assets_ev ?d' ! i) = ev_ctime (assets_ev ?d ! i)" using step_others(4) by (simp add: keeps_slot_def)
  ultimately show ?thesis
    using inv tw tw' W sinv' slot' step_others(1,2)
    by (auto simp: together_def Let_def in_time_def)
next
  case (step_notify env t c w)
  let ?d = "master_datap (mc_data c)"
  have sinv: "sys_inv b known c" "in_step c" and slot: "holds_slot name i ?d"
    using inv step_notify(1) by (auto simp: together_def)
  then have dinv: "data_inv b known ?d" by (simp add: sys_inv_def)
  have w: "w = upd_ev i (\<lambda>e. e\<lparr>ev_ctime := t, ev_update_time := he_now env\<rparr>) (mc_data c)"
    using report_result [of env known "mc_data c"] dinv slot step_notify(3,4) by simp
  have "party_step b known c (c\<lparr>mc_data := w\<rparr>)" by (rule sys_simtime [OF step_notify(3,4)])
  from party_step_change [OF sinv(1) this] sinv(2)
  have "sys_inv b known (c\<lparr>mc_data := w\<rparr>)" "in_step (c\<lparr>mc_data := w\<rparr>)" by (simp_all add: sys_change_def)
  then show ?thesis
    using inv step_notify(1,2) slot slot_lookup(2) [OF dinv slot]
    by (auto simp: together_def Let_def holds_slot_def get_worldtime_def w)
next
  case (step_advance c t t')
  then show ?thesis
    using inv assms(2) by (auto simp: together_def asset_advance_def checked64_def Let_def split: if_splits)
qed

lemma asset_run_together:
  assumes "asset_run b known name i delta s s'" and "together b known name i delta max_delay step s" and "0 \<le> delta"
  shows "together b known name i delta max_delay step s'"
  using assms by (induction rule: asset_run.induct) (auto intro: asset_step_together)

section \<open>A turn of the loop as a run\<close>

lemma run_pdu:
  assumes "pdu_call f (mc_data c) = Inr (r, w)" and "sim_state (master_datap (mc_data c)) \<noteq> HakoSim_Resetting"
  shows "asset_run b known name i delta (t, c) (t, c\<lparr>mc_data := w\<rparr>)" and "master_datap w = master_datap (mc_data c)"
proof -
  show d: "master_datap w = master_datap (mc_data c)" using assms(1) by (auto simp: pdu_call_def fault_simps)
  have "pdu_call (\<lambda>p. bindE (f p) (\<lambda>(_, p). Inr ((), p))) (mc_data c) = Inr ((), w)"
    using assms(1) by (auto simp: pdu_call_def fault_simps)
  then have "asset_step b known name i delta (t, c) (t, c\<lparr>mc_data := w\<rparr>)"
    by (intro step_others sys_pdu) (simp_all add: keeps_slot_def d)
  then show "asset_run b known name i delta (t, c) (t, c\<lparr>mc_data := w\<rparr>)"
    using run_next [OF run_start] assms(2) by fastforce
qed

lemma run_trans:
  "asset_run b known name i delta s' s'' \<Longrightarrow> asset_run b known name i delta s s' \<Longrightarrow> asset_run b known name i delta s s''"
  by (induction rule: asset_run.induct) (auto intro: run_next)

lemma run_step:
  "asset_step b known name i delta s s' \<Longrightarrow> sim_state (master_datap (mc_data (snd s))) \<noteq> HakoSim_Resetting \<Longrightarrow>
   asset_run b known name i delta s s'"
  using run_next [OF run_start] by blast

lemma effect_pdu: "pdu_call (\<lambda>p. Inr ((), emit e p)) w = Inr ((), effect e w)"
  by (simp add: pdu_call_def effect_def)

lemma run_channel:
  fixes c :: "'m HakoMasterController"
  assumes "with_channel rname k f missing (mc_data c) = Inr (r, w)" and "sim_state (master_datap (mc_data c)) \<noteq> HakoSim_Resetting"
    and "\<And>w. snd (missing w) = effect e w"
  shows "asset_run b known name i delta (t, c) (t, c\<lparr>mc_data := w\<rparr>)" and "master_datap w = master_datap (mc_data c)"
proof -
  obtain real_id w1 where get: "pdu_call (get_pdu_channel rname k) (mc_data c) = Inr (real_id, w1)"
    and rest: "(if real_id \<ge> 0 then pdu_call (f real_id) w1 else Inr (missing w1)) = Inr (r, w)"
    using assms(1) by (auto simp: with_channel_def fault_simps)
  note one = run_pdu [OF get assms(2)]
  let ?c = "c\<lparr>mc_data := w1\<rparr>"
  have calm: "sim_state (master_datap (mc_data ?c)) \<noteq> HakoSim_Resetting" using one(2) assms(2) by simp
  obtain g :: "(unit, 'm) pdu_op" where g: "pdu_call g (mc_data ?c) = Inr ((), w)"
  proof (cases "real_id \<ge> 0")
    case True
    then show ?thesis using rest that [of "\<lambda>p. bindE (f real_id p) (\<lambda>(_, p). Inr ((), p))"]
      by (auto simp: pdu_call_def fault_simps)
  next
    case False
    then have "w = effect e w1" using rest assms(3) [of w1] by (cases "missing w1") simp
    then show ?thesis using that [of "\<lambda>p. Inr ((), emit e p)"] effect_pdu [of e w1] by simp
  qed
  note two = run_pdu [OF g calm]
  show "master_datap w = master_datap (mc_data c)" using one(2) two(2) by simp
  show "asset_run b known name i delta (t, c) (t, c\<lparr>mc_data := w\<rparr>)"
    using run_trans [OF two(1) one(1)] by simp
qed

text \<open>Every turn that comes to an end is such a run; it moves the own clock by at most one step.\<close>

lemma asset_turn_run:
  assumes "sim_state (master_datap (mc_data c)) \<noteq> HakoSim_Resetting" and "he_build env = b"
    and turn: "asset_turn env name delta buf tmp (t, mc_data c) = Inr (out, t', w')"
  shows "asset_run b known name i delta (t, c) (t', c\<lparr>mc_data := w'\<rparr>)"
proof -
  obtain created w1 where created: "asset_is_pdu_created env (mc_data c) = Inr (created, w1)"
    using turn by (auto simp: asset_turn_def fault_simps)
  note one = run_pdu [OF created [unfolded asset_is_pdu_created_def] assms(1)]
  let ?c1 = "c\<lparr>mc_data := w1\<rparr>"
  have calm1: "sim_state (master_datap (mc_data ?c1)) \<noteq> HakoSim_Resetting" using one(2) assms(1) by simp
  consider (wait) "\<not> created" | (sim) "created" "asset_is_simulation_mode w1"
    | (sync) "created" "\<not> asset_is_simulation_mode w1" by blast
  then show ?thesis
  proof cases
    case wait
    then show ?thesis using turn created one(1) by (simp add: asset_turn_def)
  next
    case sim
    then obtain w2 ret w3 where turns: "notify_simtime env name t w1 = Inr w2"
      "asset_advance delta (get_worldtime w2) t = Inr t'" "asset_read_pdu env name name 1 100 w2 = Inr (ret, w3)"
      and w': "w' = asset_notify_read_pdu_done env name w3"
      using turn created by (auto simp: asset_turn_def fault_simps Let_def)
    let ?c2 = "?c1\<lparr>mc_data := w2\<rparr>"
    have same: "sim_state (master_datap w2) = sim_state (master_datap w1)" "pdu_datap w2 = pdu_datap w1"
      using turns(1) by (auto simp: notify_simtime_def upd_ev_def upd_md_def split: option.splits)
    have calm2: "sim_state (master_datap (mc_data ?c2)) \<noteq> HakoSim_Resetting" using calm1 same by simp
    have r1: "asset_run b known name i delta (t, ?c1) (t, ?c2)"
      by (intro run_step step_notify [OF assms(2)]) (use turns(1) calm1 in simp_all)
    have "asset_is_simulation_mode (mc_data ?c2)" using sim(2) same(2) by (simp add: asset_is_simulation_mode_def)
    then have r2: "asset_run b known name i delta (t, ?c2) (t', ?c2)"
      by (intro run_step step_advance) (use turns(2) calm2 in simp_all)
    have r3: "asset_run b known name i delta (t', ?c2) (t', ?c2\<lparr>mc_data := w3\<rparr>)"
    proof (cases "get_asset_nolock name w2")
      case None
      then show ?thesis using turns(3) run_start by (simp add: asset_read_pdu_def)
    next
      case (Some k)
      then have "with_channel name 1 (\<lambda>real_id. read_pdu (he_pdu env) (ae_id (assets (master_datap w2) ! k)) real_id 100)
         (\<lambda>w. (None, HAKO_LOG ''ERROR'' ''read_pdu: can not find pdu channel: robo_name=%s channel_id=%d'' w)) (mc_data ?c2) = Inr (ret, w3)"
        using turns(3) by (simp add: asset_read_pdu_def)
      from run_channel(1) [OF this calm2] show ?thesis by simp
    qed
    have "w' = w3" using w' by (simp add: asset_notify_read_pdu_done_def notify_read_pdu_done_def split: option.split)
    then show ?thesis using run_trans [OF r3 run_trans [OF r2 run_trans [OF r1 one(1)]]] by simp
  next
    case sync
    then obtain sy where sy: "asset_is_pdu_sync_mode env name w1 = Inr sy" "\<not> sy \<Longrightarrow> w' = w1 \<and> t' = t"
      "sy \<Longrightarrow> \<exists>ok w2. asset_write_pdu env name name 1 buf 100 w1 = Inr (ok, w2) \<and> asset_notify_write_pdu_done env name w2 = Inr w' \<and> t' = t"
      using turn created by (auto simp: asset_turn_def fault_simps split: if_splits)
    show ?thesis
    proof (cases sy)
      case False
      then show ?thesis using sy(2) one(1) by simp
    next
      case True
      then obtain ok w2 where w2: "asset_write_pdu env name name 1 buf 100 w1 = Inr (ok, w2)"
        "asset_notify_write_pdu_done env name w2 = Inr w'" "t' = t" using sy(3) by blast
      let ?c2 = "?c1\<lparr>mc_data := w2\<rparr>"
      have r1: "asset_run b known name i delta (t, ?c1) (t, ?c2) \<and> master_datap w2 = master_datap w1"
      proof (cases "get_asset_nolock name w1")
        case None
        then show ?thesis using w2(1) run_start by (auto simp: asset_write_pdu_def)
      next
        case (Some k)
        then have "with_channel name 1 (\<lambda>real_id. write_pdu (he_pdu env) real_id buf 100)
           (\<lambda>w. (False, HAKO_LOG ''ERROR'' ''write_pdu: can not find pdu channel: robo_name=%s channel_id=%d'' w)) (mc_data ?c1) = Inr (ok, w2)"
          using w2(1) by (simp add: asset_write_pdu_def)
        from run_channel [OF this calm1] show ?thesis by simp
      qed
      have calm2: "sim_state (master_datap (mc_data ?c2)) \<noteq> HakoSim_Resetting" using r1 calm1 by simp
      have "asset_run b known name i delta (t, ?c2) (t, ?c2\<lparr>mc_data := w'\<rparr>)"
      proof (cases "get_asset_nolock name w2")
        case None
        then show ?thesis using w2(2) run_start by (simp add: asset_notify_write_pdu_done_def)
      next
        case (Some k)
        then have "pdu_call (\<lambda>p. bindE (notify_write_pdu_done (he_build env) (ae_id (assets (master_datap w2) ! k)) p)
            (\<lambda>p. Inr ((), p))) (mc_data ?c2) = Inr ((), w')"
          using w2(2) by (auto simp: asset_notify_write_pdu_done_def pdu_call_def fault_simps)
        from run_pdu(1) [OF this calm2] show ?thesis by simp
      qed
      then show ?thesis using run_trans [OF _ run_trans [OF conjunct1 [OF r1] one(1)]] w2(3) by fastforce
    qed
  qed
qed

lemma reset_completes:
  assumes "sim_state (master_datap (mc_data c)) = HakoSim_Resetting" and "is_all_feedback_nolock (mc_data c)"
    and "execute env c = Inr (r, c')" and "theWorld c \<noteq> None"
  shows "get_worldtime (mc_data c') = 0 \<and> sim_state (master_datap (mc_data c')) = HakoSim_Stopped \<and>
    (\<exists>tw. theWorld c' = Some tw \<and> world_time_usec tw = 0)"
proof -
  obtain tw where tw: "theWorld c = Some tw" using assms(4) by blast
  have "do_event_handling env (mc_data c) = Inr ((True, HakoSim_Resetting, HakoSim_Stopped),
      md_unlock (upd_md (\<lambda>d. d\<lparr>sim_state := HakoSim_Stopped\<rparr>) (md_lock (mc_data c))))"
    using settle_handling [of "mc_data c" env] assms(1,2) by (simp add: sim_event_needs_handling_def)
  then show ?thesis
    using assms(3) tw by (auto simp: execute_def finish_reset_def destroy_pdu_data_def fault_simps Let_def
        reset_world_time_def get_worldtime_def reset_asset_ctime_nolock_def)
qed

lemma advances:
  assumes "asset_is_simulation_mode (mc_data c)" and "0 < delta" and "int n * delta \<le> get_worldtime (mc_data c) + delta"
    and "get_worldtime (mc_data c) + delta \<le> INT64_MAX"
  shows "(asset_step b known name i delta)\<^sup>*\<^sup>* (0, c) (int n * delta, c)"
  using assms(3)
proof (induction n)
  case (Suc n)
  have t: "int (Suc n) * delta = int n * delta + delta" by (simp add: algebra_simps)
  then have le: "int n * delta \<le> get_worldtime (mc_data c)" using Suc.prems by linarith
  have "0 \<le> int n * delta" using assms(2) by simp
  then have "fits_int64 (int n * delta + delta)"
    unfolding fits_int64_def INT64_MIN_def using le assms(2,4) by linarith
  then have "asset_advance delta (get_worldtime (mc_data c)) (int n * delta) = Inr (int (Suc n) * delta)"
    using le t by (simp add: asset_advance_def)
  then have "asset_step b known name i delta (int n * delta, c) (int (Suc n) * delta, c)"
    by (rule step_advance [OF assms(1)])
  moreover have "int n * delta \<le> get_worldtime (mc_data c) + delta" using le assms(2) by linarith
  ultimately show ?case using Suc.IH by (meson rtranclp.rtrancl_into_rtrancl)
qed simp

section \<open>Properties\<close>

text \<open>
  C26: The two clocks of a co-simulation. A sample asset that has registered at time zero and
  runs its loop beside a master with its conductor, while the other processes register,
  command, acknowledge, report and access PDUs in any order between its library calls: as
  long as no reset is going on and the asset keeps its slot, its own time is at most one of
  its steps ahead of the world, the time it has reported is not after its own, and the world
  is less than the maximal delay and one step of the master ahead of the report.
\<close>

theorem clocks_stay_together:
  assumes "sys_reach b known c" and "HAKO_DATA_MAX_ASSET_NUM b < 2 ^ 31"
    and "theWorld c = Some tw" and "0 \<le> max_delay_time_usec tw"
    and "i < length (assets (master_datap (mc_data c)))" and "get_asset_nolock name (mc_data c) = Some i" and "NUL \<notin> set name"
    and "get_worldtime (mc_data c) = 0" and "ev_ctime (assets_ev (master_datap (mc_data c)) ! i) = 0" and "0 \<le> delta"
    and "asset_run b known name i delta (0, c) (t, c')"
  shows "t \<le> get_worldtime (mc_data c') + delta \<and> ev_ctime (assets_ev (master_datap (mc_data c')) ! i) \<le> t \<and>
    get_worldtime (mc_data c') < ev_ctime (assets_ev (master_datap (mc_data c')) ! i) + max_delay_time_usec tw + delta_time_usec tw"
proof -
  have inv: "sys_inv b known c" by (rule sys_reach_inv [OF assms(1,2)])
  have ok: "table_ok b (master_datap (mc_data c))" "0 < delta_time_usec tw" "in_step c"
    using inv assms(3,8) by (auto simp: sys_inv_def data_inv_def in_step_def)
  have "entry_matches name (assets (master_datap (mc_data c)) ! i)"
    using assms(6) by (simp add: get_asset_nolock_eq first_index_Some)
  then have "holds_slot name i (master_datap (mc_data c))"
    using entry_matches_iff [OF assms(7), of "assets (master_datap (mc_data c)) ! i"] ok(1) assms(5)
    by (simp add: holds_slot_def table_ok_def)
  then have "together b known name i delta (max_delay_time_usec tw) (delta_time_usec tw) (0, c)"
    using inv assms(3,4,8-10) ok(2,3) by (simp add: together_def)
  from asset_run_together [OF assms(11) this assms(10)] show ?thesis by (simp add: together_def Let_def)
qed

definition demo_joined :: "mmap_state HakoMasterController" where
  "demo_joined = demo_booted\<lparr>mc_data := snd (asset_register_polling (demo_henv 0) ''a'' (mc_data demo_booted))\<rparr>"

lemma demo_joined_facts:
  "sys_reach small_build (\<lambda>_. False) demo_joined" "theWorld demo_joined = Some (new_TheWorld 20 10)"
  "length (assets (master_datap (mc_data demo_joined))) = 2" "get_asset_nolock ''a'' (mc_data demo_joined) = Some 0"
  "get_worldtime (mc_data demo_joined) = 0" "ev_ctime (assets_ev (master_datap (mc_data demo_joined)) ! 0) = 0"
  "sim_state (master_datap (mc_data demo_joined)) = HakoSim_Stopped"
  "pm_asset_num (pdu_meta_data (pdu_datap (mc_data demo_joined))) = 0"
proof -
  have "party_step small_build (\<lambda>_. False) demo_booted demo_joined"
    unfolding demo_joined_def
    by (rule sys_register_polling [of "demo_henv 0" _ "''a''" _ "fst (asset_register_polling (demo_henv 0) ''a'' (mc_data demo_booted))"])
       (simp_all add: NUL_def)
  then show "sys_reach small_build (\<lambda>_. False) demo_joined" using sys_next [OF demo_booted_reach sys_party] by blast
qed (simp_all add: demo_joined_def demo_booted_def set_config_simtime_def asset_register_polling_def alloc_asset_def
      fill_asset_def zero_master_def zero_entry_def get_asset_nolock_def get_worldtime_def numeral_2_eq_2
      upd_asset_def upd_ev_def update_asset_time_def Let_def HAKO_FIXED_STRLEN_MAX_def demo_pdu_def empty_pdu_def
      upd_meta_def zero_meta_def effect_def upd_md_def md_lock_def md_unlock_def)

theorem clocks_stay_together_witness:
  "\<exists>c. asset_run small_build (\<lambda>_. False) ''a'' 0 7 (0, demo_joined) (0, c) \<and>
    ev_ctime (assets_ev (master_datap (mc_data c)) ! 0) \<le> 0 \<and> get_worldtime (mc_data c) < 30"
proof -
  have "table_ok small_build (master_datap (mc_data demo_joined))"
    using sys_reach_inv [OF demo_joined_facts(1)] by (simp add: sys_inv_def data_inv_def)
  from lookup_slot(4,5) [OF this demo_joined_facts(4)] obtain w where
    w: "notify_simtime (demo_henv 3) ''a'' 0 (mc_data demo_joined) = Inr w"
    using demo_joined_facts(4) by (simp add: notify_simtime_def)
  have "asset_run small_build (\<lambda>_. False) ''a'' 0 7 (0, demo_joined) (0, demo_joined\<lparr>mc_data := w\<rparr>)"
    by (intro run_step step_notify) (use w demo_joined_facts(7) in simp_all)
  then show ?thesis
    using clocks_stay_together [OF demo_joined_facts(1) _ demo_joined_facts(2), of 0 "''a''" 7 0 "demo_joined\<lparr>mc_data := w\<rparr>"]
      demo_joined_facts(3-6) by (auto simp: new_TheWorld_def NUL_def)
qed

text \<open>
  The loop refines the calls that the bound is about: every turn of the loop that comes to
  an end is a run of the step relation, and it leaves the own clock alone or advances it by
  one step, the latter only if the world has reached it.
\<close>

lemma asset_turn_refines:
  assumes "asset_turn env name delta buf tmp (t, mc_data c) = Inr (out, t', w')"
    and "sim_state (master_datap (mc_data c)) \<noteq> HakoSim_Resetting"
  shows "asset_run (he_build env) known name i delta (t, c) (t', c\<lparr>mc_data := w'\<rparr>) \<and>
    (t' = t \<or> t' = t + delta \<and> t \<le> get_worldtime (mc_data c))"
proof
  show "asset_run (he_build env) known name i delta (t, c) (t', c\<lparr>mc_data := w'\<rparr>)"
    by (rule asset_turn_run [OF assms(2) refl assms(1)])
  obtain created w1 where created: "asset_is_pdu_created env (mc_data c) = Inr (created, w1)"
    using assms(1) by (auto simp: asset_turn_def fault_simps)
  have "master_datap w1 = master_datap (mc_data c)"
    by (rule run_pdu(2) [OF created [unfolded asset_is_pdu_created_def] assms(2)])
  then have w1: "get_worldtime w1 = get_worldtime (mc_data c)" by (simp add: get_worldtime_def)
  have "get_worldtime w2 = get_worldtime w1" if "notify_simtime env name t w1 = Inr w2" for w2
    using that by (auto simp: notify_simtime_def upd_ev_def upd_md_def get_worldtime_def split: option.splits)
  then show "t' = t \<or> t' = t + delta \<and> t \<le> get_worldtime (mc_data c)"
    using assms(1) created w1
    by (auto simp: asset_turn_def asset_advance_def checked64_def fault_simps Let_def split: if_splits)
qed

text \<open>
  A reset undoes this. The reset callback sets the own clock to zero and acknowledges,
  but the loop goes on, and the world keeps the time it had until the master finishes the
  reset: the asset can advance again up to one step beyond the old time of the world, \<open>n\<close>
  steps in all. When the master then completes the reset, the world is at zero, and the
  asset is \<open>n\<close> of its steps ahead.
\<close>

lemma reset_leaves_asset_ahead:
  assumes "sim_state (master_datap (mc_data c)) = HakoSim_Resetting" and "theWorld c \<noteq> None"
    and "reset_callback env name (t, mc_data c) = Inr (t0, w)" and "is_all_feedback_nolock w"
    and "sim_state (master_datap w) = HakoSim_Resetting" and "asset_is_simulation_mode w"
    and "0 < delta" and "int n * delta \<le> get_worldtime w + delta" and "get_worldtime w + delta \<le> INT64_MAX"
    and "execute env' (c\<lparr>mc_data := w\<rparr>) = Inr (r, c')"
  shows "(asset_step b known name i delta)\<^sup>*\<^sup>* (t0, c\<lparr>mc_data := w\<rparr>) (int n * delta, c\<lparr>mc_data := w\<rparr>) \<and>
    sim_state (master_datap (mc_data c')) = HakoSim_Stopped \<and> get_worldtime (mc_data c') = 0 \<and>
    (1 < n \<longrightarrow> get_worldtime (mc_data c') + delta < int n * delta)"
proof -
  have "t0 = 0" using assms(3) by (auto simp: reset_callback_def fault_simps)
  moreover have "(asset_step b known name i delta)\<^sup>*\<^sup>* (0, c\<lparr>mc_data := w\<rparr>) (int n * delta, c\<lparr>mc_data := w\<rparr>)"
    using advances [of "c\<lparr>mc_data := w\<rparr>" delta n b known name i] assms(6-9) by simp
  moreover have "get_worldtime (mc_data c') = 0 \<and> sim_state (master_datap (mc_data c')) = HakoSim_Stopped"
    using reset_completes [OF _ _ assms(10)] assms(2,4,5) by simp
  moreover have "delta < int n * delta" if "1 < n" using that assms(7) by simp
  ultimately show ?thesis by simp
qed

end
