(* ===== verification/Hako_Win_File.thy ===== *)
theory Hako_Win_File
  imports Hako_Flock
begin

text \<open>
  The lock file and the mapped file on Windows: the calls of the system in
  \<open>win/os_file_io.cpp\<close> with the handle of \<open>types/win/os_file_io.hpp\<close>, the lock file of
  \<open>win/hako_flock.cpp\<close> and the mapping of \<open>win/hako_mmap.cpp\<close>. The outcomes of the system
  calls are arguments. A lock of Windows belongs to a range of bytes, which must be unlocked
  as it was locked; the size of the file that a handle remembers is its own and grows while
  the lock is held. \<open>Hako_Flock_Interface\<close> compares the lock file with the one of POSIX;
  \<open>Hako_Win_Locking\<close> shows that the changing length does no harm to the exclusion, and which
  resources a mapping gives back.
\<close>

section \<open>Handles\<close>

text \<open>
  \<open>HANDLE\<close>s and the address are represented by whether they are valid (not
  \<open>INVALID_HANDLE_VALUE\<close>, not null).
\<close>

record WinHandleType =
  wh_handle :: bool
  map_handle :: bool
  wh_mmap_addr :: bool
  wh_size :: nat
  locked_size :: nat

text \<open>What the process holds of the system: file handles, mapping handles, mapped views.\<close>

record win_held =
  held_files :: nat
  held_maps :: nat
  held_views :: nat

definition hako_win_low32 :: "nat \<Rightarrow> 32 word" where
  "hako_win_low32 v = of_nat (v mod 2 ^ 32)"

definition hako_win_high32 :: "nat \<Rightarrow> 32 word" where
  "hako_win_high32 v = of_nat ((v div 2 ^ 32) mod 2 ^ 32)"

definition hako_win_lock_size :: "WinHandleType \<Rightarrow> nat" where
  "hako_win_lock_size whp = (if wh_size whp = 0 then 1 else wh_size whp)"

definition LONGLONG_MAX :: int where "LONGLONG_MAX = 2 ^ 63 - 1"
definition WIN_SIZE_MAX :: int where "WIN_SIZE_MAX = 2 ^ 64 - 1"

text \<open>
  The outcomes while a file is opened: what \<open>CreateFileW\<close> gives, whether the pointer and the
  end of the file can be set, and the size that \<open>GetFileSizeEx\<close> stores, if it succeeds.
\<close>

datatype create_file = File_Opened | File_Exists | File_Error

record win_open =
  wo_create :: create_file
  wo_seek :: bool
  wo_end :: bool
  wo_size :: "int option"

definition opened :: "WinHandleType \<Rightarrow> win_held \<Rightarrow> WinHandleType \<times> win_held" where
  "opened whp s = (whp\<lparr>wh_handle := True\<rparr>, s\<lparr>held_files := held_files s + 1\<rparr>)"

definition win_open_rw :: "win_open \<Rightarrow> WinHandleType \<Rightarrow> win_held \<Rightarrow> int \<times> WinHandleType \<times> win_held" where
  "win_open_rw os whp s =
    (let whp = whp\<lparr>locked_size := 0\<rparr>
     in if wo_create os \<noteq> File_Opened then (-1, whp\<lparr>wh_handle := False\<rparr>, s)
        else
          let (whp, s) = opened whp s
          in case wo_size os of
               None \<Rightarrow> (-1, whp, s)
             | Some file_size \<Rightarrow>
                 if file_size < 0 then (-1, whp, s)
                 else if file_size > WIN_SIZE_MAX then (-1, whp, s)
                 else (0, whp\<lparr>wh_size := nat file_size\<rparr>, s))"

definition win_create_rw :: "win_open \<Rightarrow> WinHandleType \<Rightarrow> win_held \<Rightarrow> int \<times> WinHandleType \<times> win_held" where
  "win_create_rw os whp s =
    (let whp = whp\<lparr>locked_size := 0\<rparr>
     in if wo_create os \<noteq> File_Opened then (-1, whp\<lparr>wh_handle := False\<rparr>, s)
        else
          let (whp, s) = opened whp s
          in if int (wh_size whp) > LONGLONG_MAX then (-1, whp, s)
             else if \<not> wo_seek os then (-1, whp, s)
             else if \<not> wo_end os then (-1, whp, s)
             else case wo_size os of
                    None \<Rightarrow> (-1, whp, s)
                  | Some file_size \<Rightarrow>
                      if file_size < 0 then (-1, whp, s) else (0, whp\<lparr>wh_size := nat file_size\<rparr>, s))"

definition win_close :: "WinHandleType \<Rightarrow> win_held \<Rightarrow> win_held" where
  "win_close whp s = s\<lparr>held_files := held_files s - 1\<rparr>"

definition win_create_new_rw :: "win_open \<Rightarrow> WinHandleType \<Rightarrow> win_held \<Rightarrow> int \<times> WinHandleType \<times> win_held" where
  "win_create_new_rw os whp s =
    (let whp = whp\<lparr>locked_size := 0\<rparr>
     in case wo_create os of
          File_Exists \<Rightarrow> (1, whp\<lparr>wh_handle := False\<rparr>, s)
        | File_Error \<Rightarrow> (-1, whp\<lparr>wh_handle := False\<rparr>, s)
        | File_Opened \<Rightarrow>
            let (whp, s) = opened whp s
            in if \<not> wo_seek os \<or> \<not> wo_end os then (-1, whp, win_close whp s) else (0, whp, s))"

section \<open>Mapping\<close>

text \<open>\<open>mapped\<close> and \<open>viewed\<close>: whether \<open>CreateFileMapping\<close> and \<open>MapViewOfFile\<close> succeed.\<close>

definition win_mmap :: "bool \<Rightarrow> bool \<Rightarrow> WinHandleType \<Rightarrow> win_held \<Rightarrow> bool \<times> WinHandleType \<times> win_held" where
  "win_mmap mapped viewed whp s =
    (if \<not> mapped then (False, whp\<lparr>map_handle := False\<rparr>, s)
     else
       let whp = whp\<lparr>map_handle := True, wh_mmap_addr := viewed\<rparr>;
           s = s\<lparr>held_maps := held_maps s + 1\<rparr>
       in if \<not> viewed then (False, whp, s) else (True, whp, s\<lparr>held_views := held_views s + 1\<rparr>))"

definition win_munmap :: "WinHandleType \<Rightarrow> win_held \<Rightarrow> WinHandleType \<times> win_held" where
  "win_munmap whp s =
    (if map_handle whp then (whp\<lparr>map_handle := False\<rparr>, s\<lparr>held_maps := held_maps s - 1\<rparr>) else (whp, s))"

text \<open>
  \<open>hako_mmap_close\<close>, which \<open>hako_mmap_destroy\<close> calls; \<open>mapped\<close> is whether the \<open>mmap_addr\<close>
  of the object is set.
\<close>

definition win_mmap_close :: "bool \<Rightarrow> WinHandleType \<Rightarrow> win_held \<Rightarrow> win_held" where
  "win_mmap_close addr whp s =
    (let (whp, s) = (if addr then win_munmap whp s else (whp, s))
     in if wh_handle whp then win_close whp s else s)"

record win_mmap_env =
  we_malloc :: bool
  we_open :: win_open
  we_create :: win_open
  we_mapping :: bool
  we_view :: bool

definition raw_handle :: "nat \<Rightarrow> WinHandleType" where
  "raw_handle sz = \<lparr>wh_handle = False, map_handle = False, wh_mmap_addr = False, wh_size = sz, locked_size = 0\<rparr>"

text \<open>The end of both functions: map the file, or destroy the object.\<close>

definition win_mmap_finish :: "win_mmap_env \<Rightarrow> WinHandleType \<Rightarrow> win_held \<Rightarrow> WinHandleType option \<times> win_held" where
  "win_mmap_finish env whp s =
    (let (addr, whp, s) = win_mmap (we_mapping env) (we_view env) whp s
     in if \<not> addr then (None, win_mmap_close False whp s) else (Some whp, s))"

definition win_mmap_create :: "win_mmap_env \<Rightarrow> nat \<Rightarrow> win_held \<Rightarrow> WinHandleType option \<times> win_held" where
  "win_mmap_create env sz s =
    (if \<not> we_malloc env then (None, s)
     else
       let (ret, whp, s) = win_open_rw (we_open env) (raw_handle 0) s
       in if ret < 0 \<or> wh_size whp < sz
          then
            let s = (if ret \<ge> 0 then win_close whp s else s);
                (ret, whp, s) = win_create_rw (we_create env) (whp\<lparr>wh_size := sz\<rparr>) s
            in if ret < 0 then (None, s) else win_mmap_finish env whp s
          else win_mmap_finish env whp s)"

definition win_mmap_open :: "win_mmap_env \<Rightarrow> win_held \<Rightarrow> WinHandleType option \<times> win_held" where
  "win_mmap_open env s =
    (if \<not> we_malloc env then (None, s)
     else
       let (ret, whp, s) = win_open_rw (we_open env) (raw_handle 0) s
       in if ret < 0 then (None, s) else win_mmap_finish env whp s)"

section \<open>Locking a range of bytes\<close>

text \<open>
  \<open>win_flock_acquire\<close> and \<open>win_flock_try_acquire\<close> with what \<open>LockFileEx\<close> answers:
  \<open>Flock_Busy\<close> is \<open>ERROR_LOCK_VIOLATION\<close>. The range starts at 0 and has the length that two
  words of 32 bits make up.
\<close>

definition lock_range :: "nat \<Rightarrow> nat" where
  "lock_range n = unat (hako_win_low32 n) + 2 ^ 32 * unat (hako_win_high32 n)"

definition win_flock_acquire :: "bool \<Rightarrow> WinHandleType \<Rightarrow> int \<times> WinHandleType" where
  "win_flock_acquire ok whp =
    (let lock_size = hako_win_lock_size whp
     in if \<not> ok then (-1, whp) else (0, whp\<lparr>locked_size := lock_size\<rparr>))"

definition win_flock_try_acquire :: "flock_result \<Rightarrow> WinHandleType \<Rightarrow> int \<times> WinHandleType" where
  "win_flock_try_acquire r whp =
    (let lock_size = hako_win_lock_size whp
     in if r = Flock_Ok then (0, whp\<lparr>locked_size := lock_size\<rparr>)
        else if r = Flock_Busy then (1, whp) else (-1, whp))"

text \<open>\<open>unlock n\<close> is what \<open>UnlockFileEx\<close> answers for a range of length \<open>n\<close>.\<close>

definition win_flock_release :: "(nat \<Rightarrow> bool) \<Rightarrow> WinHandleType \<Rightarrow> int \<times> WinHandleType" where
  "win_flock_release unlock whp =
    (if locked_size whp = 0 then (-1, whp)
     else if \<not> unlock (lock_range (locked_size whp)) then (-1, whp)
     else (0, whp\<lparr>locked_size := 0\<rparr>))"

text \<open>
  \<open>win_pwrite\<close> and \<open>win_pread\<close>: a transfer moves everything, fails with an error number, or
  moves a part and reports success; neither function looks at the number of bytes moved.
\<close>

datatype win_transfer = All_Moved | Part_Moved nat | Move_Failed nat

definition DWORD_MAX :: nat where "DWORD_MAX = 2 ^ 32 - 1"

definition win_pwrite :: "win_transfer \<Rightarrow> byte list \<Rightarrow> nat \<Rightarrow> byte list \<Rightarrow> int \<times> byte list" where
  "win_pwrite tr data off file =
    (if length data > DWORD_MAX then (-1, file)
     else case tr of
            All_Moved \<Rightarrow> (0, put_at off data file)
          | Part_Moved k \<Rightarrow> (0, put_at off (take k data) file)
          | Move_Failed err \<Rightarrow> (- int err, file))"

text \<open>\<open>buf\<close> is what the buffer held; the result is what it holds then.\<close>

definition win_pread :: "win_transfer \<Rightarrow> byte list \<Rightarrow> nat \<Rightarrow> byte list \<Rightarrow> int \<times> byte list" where
  "win_pread tr buf off file =
    (if length buf > DWORD_MAX then (-1, buf)
     else
       let data = take (length buf) (drop off file)
       in case tr of
            All_Moved \<Rightarrow> (0, data @ drop (length data) buf)
          | Part_Moved k \<Rightarrow> (0, take k data @ drop (length (take k data)) buf)
          | Move_Failed err \<Rightarrow> (- int err, buf))"

section \<open>The lock file\<close>

text \<open>A handle of \<open>win/hako_flock.cpp\<close>; the bytes are those of the file.\<close>

record WinFlock =
  wf_count :: int
  wf_created :: bool
  wf_fd :: WinHandleType
  wf_bytes :: "byte list"

definition new_win_flock :: "bool \<Rightarrow> WinHandleType \<Rightarrow> byte list \<Rightarrow> WinFlock" where
  "new_win_flock created whp bytes = \<lparr>wf_count = 0, wf_created = created, wf_fd = whp, wf_bytes = bytes\<rparr>"

text \<open>
  \<open>hako_flock_create\<close> and \<open>hako_flock_open\<close>. \<open>bytes\<close> are the contents that the file then
  has; a second outcome is for the \<open>win_open_rw\<close> of an existing file.
\<close>

definition win_create_flock ::
  "bool \<Rightarrow> win_open \<Rightarrow> win_open \<Rightarrow> nat \<Rightarrow> byte list \<Rightarrow> win_held \<Rightarrow> WinFlock option \<times> win_held" where
  "win_create_flock malloc os os' create_size bytes s =
    (if \<not> malloc then (None, s)
     else
       let (ret, whp, s) = win_create_new_rw os (raw_handle create_size) s;
           created = (ret = 0);
           (ret, whp, s) = (if ret = 1 then win_open_rw os' whp s else (ret, whp, s))
       in if ret < 0 then (None, s) else (Some (new_win_flock created whp bytes), s))"

definition win_open_flock :: "bool \<Rightarrow> win_open \<Rightarrow> byte list \<Rightarrow> win_held \<Rightarrow> WinFlock option \<times> win_held" where
  "win_open_flock malloc os bytes s =
    (if \<not> malloc then (None, s)
     else
       let (ret, whp, s) = win_open_rw os (raw_handle 0) s
       in if ret < 0 then (None, s) else (Some (new_win_flock False whp bytes), s))"

definition win_close_flock :: "WinFlock option \<Rightarrow> win_held \<Rightarrow> win_held" where
  "win_close_flock handle s =
    (case handle of None \<Rightarrow> s | Some h \<Rightarrow> if wh_handle (wf_fd h) then win_close (wf_fd h) s else s)"

text \<open>The loop of a bounded wait from attempt \<open>k\<close> on, as on POSIX.\<close>

partial_function (option) win_acquire_bounded ::
  "wait_state \<Rightarrow> 64 word \<Rightarrow> (nat \<Rightarrow> flock_attempt) \<Rightarrow> WinHandleType \<Rightarrow> nat \<Rightarrow>
   (HakoFlockWaitErrorType option \<times> WinHandleType) option" where
  "win_acquire_bounded s started_at_ms at whp k =
    (case hako_flock_wait_checkpoint s started_at_ms (at_now (at k)) (at_interrupted (at k)) of
       Some e \<Rightarrow> Some (Some e, whp)
     | None \<Rightarrow>
         (case win_flock_try_acquire (at_result (at k)) whp of
            (ret, whp) \<Rightarrow>
              if ret = 0 then Some (None, whp)
              else if ret < 0 then Some (Some Wait_SystemError, whp)
              else win_acquire_bounded s started_at_ms at whp (Suc k)))"

definition win_acquire ::
  "wait_state \<Rightarrow> 64 word \<Rightarrow> (nat \<Rightarrow> flock_attempt) \<Rightarrow> WinFlock \<Rightarrow> (HakoFlockWaitErrorType option \<times> WinFlock) option" where
  "win_acquire s started_at_ms at h =
    (if wf_count h \<le> 0
     then
       case (if \<not> wait_enabled s
             then (case win_flock_acquire (at_result (at 0) = Flock_Ok) (wf_fd h) of
                     (ret, whp) \<Rightarrow> Some (if ret \<noteq> 0 then Some Wait_SystemError else None, whp))
             else win_acquire_bounded s started_at_ms at (wf_fd h) 0) of
         None \<Rightarrow> None
       | Some (Some e, whp) \<Rightarrow> Some (Some e, h\<lparr>wf_fd := whp\<rparr>)
       | Some (None, whp) \<Rightarrow> Some (None, h\<lparr>wf_fd := whp, wf_count := 1\<rparr>)
     else Some (None, h\<lparr>wf_count := wf_count h + 1\<rparr>))"

definition win_try_acquire :: "flock_result \<Rightarrow> WinFlock \<Rightarrow> int \<times> WinFlock" where
  "win_try_acquire r h =
    (if wf_count h > 0 then (0, h\<lparr>wf_count := wf_count h + 1\<rparr>)
     else case win_flock_try_acquire r (wf_fd h) of
            (result, whp) \<Rightarrow>
              (result, if result = 0 then h\<lparr>wf_fd := whp, wf_count := 1\<rparr> else h\<lparr>wf_fd := whp\<rparr>))"

definition win_release :: "(nat \<Rightarrow> bool) \<Rightarrow> WinFlock \<Rightarrow> HakoFlockWaitErrorType option \<times> WinFlock" where
  "win_release unlock h =
    (if wf_count h \<le> 0 then (None, h)
     else if wf_count h > 1 then (None, h\<lparr>wf_count := wf_count h - 1\<rparr>)
     else case win_flock_release unlock (wf_fd h) of
            (ret, whp) \<Rightarrow>
              if ret \<noteq> 0 then (Some Wait_SystemError, h\<lparr>wf_fd := whp\<rparr>)
              else (None, h\<lparr>wf_fd := whp, wf_count := 0\<rparr>))"

definition win_write :: "win_transfer \<Rightarrow> nat \<Rightarrow> 32 word \<Rightarrow> WinFlock \<Rightarrow> WinFlock" where
  "win_write tr index v h = h\<lparr>wf_bytes := snd (win_pwrite tr (int_bytes v) (index * 4) (wf_bytes h))\<rparr>"

definition win_read :: "win_transfer \<Rightarrow> nat \<Rightarrow> 32 word \<Rightarrow> WinFlock \<Rightarrow> 32 word" where
  "win_read tr index old h = int_of_bytes (snd (win_pread tr (int_bytes old) (index * 4) (wf_bytes h)))"

definition win_write_bytes :: "win_transfer \<Rightarrow> nat \<Rightarrow> byte list \<Rightarrow> WinFlock \<Rightarrow> bool \<times> WinFlock" where
  "win_write_bytes tr off data h =
    (let (result, file) = win_pwrite tr data off (wf_bytes h);
         h = h\<lparr>wf_bytes := file\<rparr>
     in if result = 0
        then (True, if off + length data > wh_size (wf_fd h)
                    then h\<lparr>wf_fd := (wf_fd h)\<lparr>wh_size := off + length data\<rparr>\<rparr> else h)
        else (False, h))"

definition win_read_bytes :: "win_transfer \<Rightarrow> nat \<Rightarrow> byte list \<Rightarrow> WinFlock \<Rightarrow> byte list option" where
  "win_read_bytes tr off buf h =
    (if off > wh_size (wf_fd h) \<or> length buf > wh_size (wf_fd h) - off then None
     else case win_pread tr buf off (wf_bytes h) of (ret, data) \<Rightarrow> if ret = 0 then Some data else None)"

text \<open>\<open>hako_flock_size\<close>; \<open>sized\<close> is whether \<open>GetFileSizeEx\<close> succeeds.\<close>

definition win_size :: "bool \<Rightarrow> WinFlock \<Rightarrow> nat \<times> WinFlock" where
  "win_size sized h =
    (if \<not> sized then (0, h)
     else (length (wf_bytes h), h\<lparr>wf_fd := (wf_fd h)\<lparr>wh_size := length (wf_bytes h)\<rparr>\<rparr>))"

end
