(* ===== verification/Hako_Flock_Interface.thy ===== *)
theory Hako_Flock_Interface
  imports Hako_Win_File
begin

text \<open>
  The interface of the lock file, \<open>hako_flock.hpp\<close>, as a locale with the code of POSIX
  (\<open>posix/hako_flock.cpp\<close>) and of Windows (\<open>win/hako_flock.cpp\<close>) as its two instances. The
  system calls below it may fail or move a part of the bytes. Three situations are told
  apart by the client; in all others it gets the same answers from both.
\<close>

section \<open>One interface, two systems\<close>

text \<open>
  The calls of \<open>hako_flock.hpp\<close> on an open handle, with the outcomes of the system calls:
  of the attempts to take the lock, of giving it back, of a transfer, of asking for the
  size. A call that throws answers \<open>Ans_Wait\<close> with the error.
\<close>

datatype flock_call =
    Call_Acquire wait_state "64 word" "nat \<Rightarrow> flock_attempt"
  | Call_Try flock_result
  | Call_Release bool
  | Call_Write nat "32 word" win_transfer
  | Call_Read nat "32 word" win_transfer
  | Call_Write_Bytes nat "byte list" win_transfer
  | Call_Read_Bytes nat "byte list" win_transfer
  | Call_Size bool

datatype flock_answer =
    Ans_Wait "HakoFlockWaitErrorType option"
  | Ans_Int int
  | Ans_Done
  | Ans_Value "32 word"
  | Ans_Bool bool
  | Ans_Data "byte list option"
  | Ans_Size nat

text \<open>
  The call with the code of each system; \<open>None\<close> when it does not return. POSIX ignores what
  \<open>flock\<close> answers to \<open>LOCK_UN\<close>.
\<close>

definition with_outcome :: "nat option \<Rightarrow> HakoFlockObject \<Rightarrow> HakoFlockObject" where
  "with_outcome f h = h\<lparr>fl_faults := [f]\<rparr>"

fun transfer_outcome :: "win_transfer \<Rightarrow> nat option" where
  "transfer_outcome All_Moved = None"
| "transfer_outcome (Part_Moved k) = Some k"
| "transfer_outcome (Move_Failed err) = Some 0"

fun posix_call :: "flock_call \<Rightarrow> HakoFlockObject \<Rightarrow> (flock_answer \<times> HakoFlockObject) option" where
  "posix_call (Call_Acquire s t at) h = map_option (\<lambda>(e, h). (Ans_Wait e, h)) (hako_flock_acquire s t at h)"
| "posix_call (Call_Try r) h = (case hako_flock_try_acquire r h of (n, h) \<Rightarrow> Some (Ans_Int n, h))"
| "posix_call (Call_Release unlocks) h = Some (Ans_Wait None, hako_flock_release h)"
| "posix_call (Call_Write i v tr) h = Some (Ans_Done, hako_flock_write i v (with_outcome (transfer_outcome tr) h))"
| "posix_call (Call_Read i old tr) h =
     (case hako_flock_read i old (with_outcome (transfer_outcome tr) h) of (v, h) \<Rightarrow> Some (Ans_Value v, h))"
| "posix_call (Call_Write_Bytes off data tr) h =
     (case hako_flock_write_bytes off data (with_outcome (transfer_outcome tr) h) of (b, h) \<Rightarrow> Some (Ans_Bool b, h))"
| "posix_call (Call_Read_Bytes off buf tr) h =
     (case hako_flock_read_bytes off (length buf) (with_outcome (transfer_outcome tr) h) of (r, h) \<Rightarrow> Some (Ans_Data r, h))"
| "posix_call (Call_Size sized) h =
     (case hako_flock_size (with_outcome (if sized then None else Some 0) h) of (n, h) \<Rightarrow> Some (Ans_Size n, h))"

fun win_call :: "flock_call \<Rightarrow> WinFlock \<Rightarrow> (flock_answer \<times> WinFlock) option" where
  "win_call (Call_Acquire s t at) h = map_option (\<lambda>(e, h). (Ans_Wait e, h)) (win_acquire s t at h)"
| "win_call (Call_Try r) h = (case win_try_acquire r h of (n, h) \<Rightarrow> Some (Ans_Int n, h))"
| "win_call (Call_Release unlocks) h = (case win_release (\<lambda>_. unlocks) h of (e, h) \<Rightarrow> Some (Ans_Wait e, h))"
| "win_call (Call_Write i v tr) h = Some (Ans_Done, win_write tr i v h)"
| "win_call (Call_Read i old tr) h = Some (Ans_Value (win_read tr i old h), h)"
| "win_call (Call_Write_Bytes off data tr) h = (case win_write_bytes tr off data h of (b, h) \<Rightarrow> Some (Ans_Bool b, h))"
| "win_call (Call_Read_Bytes off buf tr) h = Some (Ans_Data (win_read_bytes tr off buf h), h)"
| "win_call (Call_Size sized) h = (case win_size sized h of (n, h) \<Rightarrow> Some (Ans_Size n, h))"

text \<open>
  What both promise: a number of acquisitions, the bytes of the file, and the size that the
  handle of Windows remembers, which may be behind. \<open>wait_result\<close> is how the wait ends, which
  the attempts alone decide.
\<close>

type_synonym flock_file = "nat \<times> byte list \<times> nat"

definition wait_result :: "wait_state \<Rightarrow> 64 word \<Rightarrow> (nat \<Rightarrow> flock_attempt) \<Rightarrow> HakoFlockWaitErrorType option option" where
  "wait_result s t at = (if wait_enabled s then acquire_bounded s t at 0 else acquire_blocking at 0)"

fun moved :: "win_transfer \<Rightarrow> nat \<Rightarrow> nat" where
  "moved All_Moved n = n"
| "moved (Part_Moved k) n = min k n"
| "moved (Move_Failed err) n = 0"

fun flock_spec :: "flock_call \<Rightarrow> flock_file \<Rightarrow> (flock_answer \<times> flock_file) option" where
  "flock_spec (Call_Acquire s t at) (d, file, known) =
     (if d > 0 then Some (Ans_Wait None, Suc d, file, known)
      else map_option (\<lambda>e. (Ans_Wait e, if e = None then 1 else 0, file, known)) (wait_result s t at))"
| "flock_spec (Call_Try r) (d, file, known) =
     Some (if d > 0 \<or> r = Flock_Ok then (Ans_Int 0, Suc d, file, known)
           else (Ans_Int (if r = Flock_Failed then -1 else 1), 0, file, known))"
| "flock_spec (Call_Release unlocks) (d, file, known) = Some (Ans_Wait None, d - 1, file, known)"
| "flock_spec (Call_Write i v tr) (d, file, known) =
     Some (Ans_Done, d, put_at (i * 4) (take (moved tr 4) (int_bytes v)) file, known)"
| "flock_spec (Call_Read i old tr) (d, file, known) =
     (let data = take 4 (drop (i * 4) file);
          data = take (moved tr (length data)) data
      in Some (Ans_Value (int_of_bytes (data @ drop (length data) (int_bytes old))), d, file, known))"
| "flock_spec (Call_Write_Bytes off data tr) (d, file, known) =
     Some (if moved tr (length data) = length data
           then (Ans_Bool True, d, put_at off data file, max known (off + length data))
           else (Ans_Bool False, d, file, known))"
| "flock_spec (Call_Read_Bytes off buf tr) (d, file, known) =
     Some (Ans_Data (if off + length buf \<le> length file \<and> moved tr (length buf) = length buf
                     then Some (slice file off (length buf)) else None), d, file, known)"
| "flock_spec (Call_Size sized) (d, file, known) =
     Some (if sized then (Ans_Size (length file), d, file, length file) else (Ans_Size 0, d, file, known))"

text \<open>
  The calls that a client makes: no signal ends a call of the system, as there are none on
  Windows; a piece is not empty, and one call of Windows can move it; an error has a number.
\<close>

fun plain_call :: "flock_call \<Rightarrow> bool" where
  "plain_call (Call_Acquire s t at) \<longleftrightarrow> (\<forall>k. at_result (at k) \<noteq> Flock_Intr)"
| "plain_call (Call_Try r) \<longleftrightarrow> r \<noteq> Flock_Intr"
| "plain_call (Call_Write_Bytes off data tr) \<longleftrightarrow> data \<noteq> [] \<and> length data \<le> DWORD_MAX \<and> tr \<noteq> Move_Failed 0"
| "plain_call (Call_Read_Bytes off buf tr) \<longleftrightarrow> buf \<noteq> [] \<and> length buf \<le> DWORD_MAX \<and> tr \<noteq> Move_Failed 0"
| "plain_call _ \<longleftrightarrow> True"

text \<open>
  Where the two differ. Giving the lock back fails: Windows throws and keeps it, POSIX does
  not notice. A part of a piece is moved: Windows calls it done. A piece that is in the file
  lies behind the size that the handle remembers, because a value was written behind it by
  its index: Windows does not read it.
\<close>

fun differs :: "flock_call \<Rightarrow> flock_file \<Rightarrow> bool" where
  "differs (Call_Release unlocks) (d, file, known) \<longleftrightarrow> d = 1 \<and> \<not> unlocks"
| "differs (Call_Write_Bytes off data tr) (d, file, known) \<longleftrightarrow> (\<exists>k < length data. tr = Part_Moved k)"
| "differs (Call_Read_Bytes off buf tr) (d, file, known) \<longleftrightarrow>
     (if off + length buf \<le> known then \<exists>k < length buf. tr = Part_Moved k
      else off + length buf \<le> length file \<and> moved tr (length buf) = length buf)"
| "differs _ _ \<longleftrightarrow> False"

text \<open>A sequence of calls up to one that does not return, and its answers.\<close>

fun answers :: "(flock_call \<Rightarrow> 'h \<Rightarrow> (flock_answer \<times> 'h) option) \<Rightarrow> flock_call list \<Rightarrow> 'h \<Rightarrow> flock_answer list" where
  "answers exec [] h = []"
| "answers exec (c # cs) h = (case exec c h of None \<Rightarrow> [] | Some (a, h) \<Rightarrow> a # answers exec cs h)"

fun never_differs :: "flock_call list \<Rightarrow> flock_file \<Rightarrow> bool" where
  "never_differs [] x \<longleftrightarrow> True"
| "never_differs (c # cs) x \<longleftrightarrow> \<not> differs c x \<and> (case flock_spec c x of None \<Rightarrow> True | Some (a, y) \<Rightarrow> never_differs cs y)"

locale hako_flock_impl =
  fixes shows_file :: "'h \<Rightarrow> flock_file \<Rightarrow> bool"
    and exec :: "flock_call \<Rightarrow> 'h \<Rightarrow> (flock_answer \<times> 'h) option"
  assumes stuck: "shows_file h x \<Longrightarrow> plain_call c \<Longrightarrow> flock_spec c x = None \<Longrightarrow> exec c h = None"
    and answered: "shows_file h x \<Longrightarrow> plain_call c \<Longrightarrow> \<not> differs c x \<Longrightarrow> flock_spec c x = Some (a, y) \<Longrightarrow>
      \<exists>h'. exec c h = Some (a, h') \<and> shows_file h' y"
begin

lemma answers_spec:
  "shows_file h x \<Longrightarrow> list_all plain_call cs \<Longrightarrow> never_differs cs x \<Longrightarrow> answers exec cs h = answers flock_spec cs x"
proof (induction cs arbitrary: h x)
  case (Cons c cs)
  have c: "plain_call c" "\<not> differs c x" using Cons.prems(2,3) by simp_all
  show ?case
  proof (cases "flock_spec c x")
    case None
    then show ?thesis using stuck [OF Cons.prems(1) c(1)] by simp
  next
    case (Some p)
    then obtain a y where spec: "flock_spec c x = Some (a, y)" by (cases p) simp
    obtain h' where h': "exec c h = Some (a, h')" "shows_file h' y"
      using answered [OF Cons.prems(1) c spec] by blast
    then show ?thesis using spec Cons.IH [OF h'(2)] Cons.prems(2,3) by simp
  qed
qed simp

end

section \<open>POSIX\<close>

definition posix_shows :: "HakoFlockObject \<Rightarrow> flock_file \<Rightarrow> bool" where
  "posix_shows h x \<longleftrightarrow> lock_count h = int (fst x) \<and> fl_faults h = [] \<and> fl_bytes h = fst (snd x)"

lemma length_put_at: "data \<noteq> [] \<Longrightarrow> length (put_at off data file) = max (length file) (off + length data)"
  by (auto simp: put_at_def max_def min_def)

lemma int_bytes_some: "int_bytes v \<noteq> []"
  using length_int_bytes [of v] by force

lemma posix_acquires:
  "hako_flock_acquire s t at h =
     (if lock_count h > 0 then Some (None, h\<lparr>lock_count := lock_count h + 1\<rparr>)
      else map_option (\<lambda>e. (e, if e = None then h\<lparr>lock_count := 1, os_locked := True\<rparr> else h)) (wait_result s t at))"
  by (simp add: hako_flock_acquire_def wait_result_def split: option.split)

lemma posix_stuck:
  assumes "posix_shows h x" and "flock_spec c x = None"
  shows "posix_call c h = None"
  using assms by (cases x; cases c) (auto simp: posix_shows_def posix_acquires Let_def split: if_splits)

lemma fault_moved:
  "(case transfer_outcome tr of None \<Rightarrow> n | Some k \<Rightarrow> min k n) = moved tr n"
  "(case transfer_outcome tr of None \<Rightarrow> xs | Some k \<Rightarrow> take k xs) = take (moved tr (length xs)) xs"
  by (cases tr; auto simp: min_def)+

lemma posix_transfers:
  "hako_flock_write_bytes off data (with_outcome (transfer_outcome tr) h) =
     (moved tr (length data) = length data,
      h\<lparr>fl_faults := [], fl_bytes := put_at off (take (moved tr (length data)) data) (fl_bytes h)\<rparr>)"
  "hako_flock_read_bytes off n (with_outcome (transfer_outcome tr) h) =
     (let data = take n (drop off (fl_bytes h)); data = take (moved tr (length data)) data
      in (if length data = n then Some data else None, h\<lparr>fl_faults := []\<rparr>))"
  "hako_flock_read i old (with_outcome (transfer_outcome tr) h) =
     (let data = take 4 (drop (i * 4) (fl_bytes h)); data = take (moved tr (length data)) data
      in (int_of_bytes (data @ drop (length data) (int_bytes old)), h\<lparr>fl_faults := []\<rparr>))"
  by (simp_all add: hako_flock_write_bytes_def hako_flock_read_bytes_def hako_flock_read_def with_outcome_def
      next_fault_def fault_moved Let_def del: take_take length_take)

lemma moved_le [simp]: "moved tr n \<le> n"
  by (cases tr) simp_all

lemma posix_reads:
  assumes "0 < n"
  shows "hako_flock_read_bytes off n (with_outcome (transfer_outcome tr) h) =
    (if off + n \<le> length (fl_bytes h) \<and> moved tr n = n then Some (slice (fl_bytes h) off n) else None, h\<lparr>fl_faults := []\<rparr>)"
proof (cases "off + n \<le> length (fl_bytes h)")
  case True
  then have "length (take n (drop off (fl_bytes h))) = n" by simp
  moreover have "length (take (moved tr n) (drop off (fl_bytes h))) = moved tr n" 
    unfolding length_take length_drop using True moved_le [of tr n] by (intro min_absorb2) linarith
  ultimately show ?thesis using True by (simp add: posix_transfers slice_def Let_def min_absorb2 del: length_take)
next
  case False
  then have "length (take n (drop off (fl_bytes h))) < n" using assms by simp
  then have "length (take (moved tr (length (take n (drop off (fl_bytes h))))) (take n (drop off (fl_bytes h)))) \<noteq> n"
    by (metis length_take min.strict_boundedE min_less_iff_disj not_less_iff_gr_or_eq)
  then show ?thesis using False by (simp add: posix_transfers Let_def del: length_take take_take)
qed

lemma all_or_nothing: "\<not> (\<exists>k < n. tr = Part_Moved k) \<Longrightarrow> moved tr n = n \<or> moved tr n = 0"
  by (cases tr) (auto simp: min_absorb2 not_less)

lemma posix_answered:
  assumes "posix_shows h x" and "plain_call c" and "\<not> differs c x" and "flock_spec c x = Some (a, y)"
  shows "\<exists>h'. posix_call c h = Some (a, h') \<and> posix_shows h' y"
proof -
  obtain d bytes known where x: "x = (d, bytes, known)" by (cases x) auto
  show ?thesis
  proof (cases c)
    case (Call_Acquire s t at)
    then show ?thesis using assms x by (auto simp: posix_acquires posix_shows_def split: if_splits)
  next
    case (Call_Try r)
    then show ?thesis using assms x by (cases r) (auto simp: hako_flock_try_acquire_def posix_shows_def split: if_splits)
  next
    case (Call_Release unlocks)
    then show ?thesis using assms x by (auto simp: hako_flock_release_def posix_shows_def Let_def)
  next
    case (Call_Write i v tr)
    then show ?thesis using assms x by (auto simp: hako_flock_write_def posix_transfers posix_shows_def)
  next
    case (Call_Read i old tr)
    then show ?thesis using assms x by (auto simp: posix_transfers posix_shows_def Let_def)
  next
    case (Call_Write_Bytes off data tr)
    then show ?thesis
      using assms x all_or_nothing [of "length data" tr]
      by (auto simp: posix_transfers posix_shows_def put_at_def [of _ "[]"] split: if_splits)
  next
    case (Call_Read_Bytes off buf tr)
    then show ?thesis
      using assms x by (auto simp: posix_reads posix_shows_def)
  next
    case (Call_Size sized)
    then show ?thesis
      using assms x by (auto simp: hako_flock_size_def with_outcome_def next_fault_def posix_shows_def split: if_splits)
  qed
qed

interpretation posix_flock: hako_flock_impl posix_shows posix_call
  by unfold_locales (auto intro: posix_stuck posix_answered)

section \<open>Windows\<close>

definition win_shows_file :: "WinFlock \<Rightarrow> flock_file \<Rightarrow> bool" where
  "win_shows_file h x \<longleftrightarrow> wf_count h = int (fst x) \<and> wf_bytes h = fst (snd x) \<and> wh_size (wf_fd h) = snd (snd x) \<and>
     snd (snd x) \<le> length (fst (snd x)) \<and> (0 < fst x \<longrightarrow> 0 < locked_size (wf_fd h))"

definition win_locked :: "WinHandleType \<Rightarrow> WinHandleType" where
  "win_locked whp = whp\<lparr>locked_size := hako_win_lock_size whp\<rparr>"

lemma win_lock_size_pos [simp]: "0 < hako_win_lock_size whp"
  by (simp add: hako_win_lock_size_def)

lemma win_flock_try: "win_flock_try_acquire r whp =
    (case r of Flock_Ok \<Rightarrow> (0, win_locked whp) | Flock_Busy \<Rightarrow> (1, whp) | _ \<Rightarrow> (-1, whp))"
  by (simp add: win_flock_try_acquire_def win_locked_def Let_def split: flock_result.split)

text \<open>The loop of Windows takes the same decisions as the one of POSIX when no call is interrupted.\<close>

lemma win_bounded_some:
  assumes "acquire_bounded s t at k = Some e"
  shows "(\<forall>k. at_result (at k) \<noteq> Flock_Intr) \<longrightarrow>
    win_acquire_bounded s t at whp k = Some (e, if e = None then win_locked whp else whp)"
  using assms
proof (rule acquire_bounded.raw_induct [rotated], goal_cases)
  case (1 loop s t at k e)
  show ?case
  proof
    assume intr: "\<forall>k. at_result (at k) \<noteq> Flock_Intr"
    then have "at_result (at k) \<noteq> Flock_Intr" by blast
    then show "win_acquire_bounded s t at whp k = Some (e, if e = None then win_locked whp else whp)"
      using 1(2) 1(1) [of s t at "Suc k" e] intr
      by (subst win_acquire_bounded.simps, cases "hako_flock_wait_checkpoint s t (at_now (at k)) (at_interrupted (at k))";
          cases "at_result (at k)")
         (simp_all add: win_flock_try, auto)
  qed
qed

lemma win_bounded_back:
  assumes "win_acquire_bounded s t at whp k = Some r"
  shows "(\<forall>k. at_result (at k) \<noteq> Flock_Intr) \<longrightarrow> acquire_bounded s t at k = Some (fst r)"
  using assms
proof (rule win_acquire_bounded.raw_induct [rotated], goal_cases)
  case (1 loop s t at whp k r)
  show ?case
  proof
    assume intr: "\<forall>k. at_result (at k) \<noteq> Flock_Intr"
    then have "at_result (at k) \<noteq> Flock_Intr" by blast
    then show "acquire_bounded s t at k = Some (fst r)"
      using 1(2) 1(1) [of s t at whp "Suc k" r] intr
      by (subst acquire_bounded.simps, cases "hako_flock_wait_checkpoint s t (at_now (at k)) (at_interrupted (at k))";
          cases "at_result (at k)")
         (simp_all add: win_flock_try, auto)
  qed
qed

lemma win_bounded:
  assumes "\<forall>k. at_result (at k) \<noteq> Flock_Intr"
  shows "win_acquire_bounded s t at whp k =
    map_option (\<lambda>e. (e, if e = None then win_locked whp else whp)) (acquire_bounded s t at k)"
proof (cases "acquire_bounded s t at k")
  case None
  then have "win_acquire_bounded s t at whp k = None"
    using win_bounded_back [of s t at whp k] assms by (cases "win_acquire_bounded s t at whp k") auto
  then show ?thesis using None by simp
next
  case (Some e)
  then show ?thesis using win_bounded_some [OF Some] assms by simp
qed

lemma win_acquires:
  assumes "\<forall>k. at_result (at k) \<noteq> Flock_Intr"
  shows "win_acquire s t at h =
     (if wf_count h > 0 then Some (None, h\<lparr>wf_count := wf_count h + 1\<rparr>)
      else map_option (\<lambda>e. (e, if e = None then h\<lparr>wf_fd := win_locked (wf_fd h), wf_count := 1\<rparr> else h)) (wait_result s t at))"
proof -
  have first: "at_result (at 0) \<noteq> Flock_Intr" using assms by blast
  show ?thesis
  proof (cases "wait_enabled s")
    case True
    then show ?thesis
      by (cases "acquire_bounded s t at 0")
         (auto simp: win_acquire_def wait_result_def win_bounded [OF assms] split: option.split)
  next
    case False
    have "acquire_blocking at 0 = Some (if at_result (at 0) = Flock_Ok then None else Some Wait_SystemError)"
      using first by (subst acquire_blocking.simps) (simp split: flock_result.split)
    then show ?thesis
      using False by (simp add: win_acquire_def wait_result_def win_flock_acquire_def win_locked_def Let_def)
  qed
qed

lemma win_stuck:
  assumes "win_shows_file h x" and "plain_call c" and "flock_spec c x = None"
  shows "win_call c h = None"
  using assms by (cases x; cases c) (auto simp: win_shows_file_def win_acquires Let_def split: if_splits)

lemma dword_int: "length (int_bytes v) \<le> DWORD_MAX"
  by (simp add: DWORD_MAX_def)

lemma length_put_at_le: "length file \<le> length (put_at off data file)"
  by (auto simp: put_at_def)

lemma win_transfers:
  "length data \<le> DWORD_MAX \<Longrightarrow> tr \<noteq> Move_Failed 0 \<Longrightarrow> win_pwrite tr data off file =
     (case tr of Move_Failed err \<Rightarrow> - int err | _ \<Rightarrow> 0, put_at off (take (moved tr (length data)) data) file)"
  "length buf \<le> DWORD_MAX \<Longrightarrow> win_pread tr buf off file =
     (let data = take (length buf) (drop off file); data = take (moved tr (length data)) data
      in (case tr of Move_Failed err \<Rightarrow> - int err | _ \<Rightarrow> 0, data @ drop (length data) buf))"
  by (cases tr; auto simp: win_pwrite_def win_pread_def put_at_def min_def Let_def)+

lemma win_writes_int:
  "win_write tr i v h = h\<lparr>wf_bytes := put_at (i * 4) (take (moved tr 4) (int_bytes v)) (wf_bytes h)\<rparr>"
  using dword_int [of v] by (cases tr) (auto simp: win_write_def win_pwrite_def put_at_def min_def)

lemma win_answered:
  assumes "win_shows_file h x" and "plain_call c" and "\<not> differs c x" and "flock_spec c x = Some (a, y)"
  shows "\<exists>h'. win_call c h = Some (a, h') \<and> win_shows_file h' y"
proof -
  obtain d bytes known where x: "x = (d, bytes, known)" by (cases x) auto
  show ?thesis
  proof (cases c)
    case (Call_Acquire s t at)
    then have "\<forall>k. at_result (at k) \<noteq> Flock_Intr" using assms(2) by simp
    from win_acquires [OF this] show ?thesis
      using Call_Acquire assms x by (auto simp: win_shows_file_def win_locked_def split: if_splits)
  next
    case (Call_Try r)
    then show ?thesis
      using assms x
      by (cases r) (auto simp: win_try_acquire_def win_flock_try win_locked_def win_shows_file_def split: if_splits)
  next
    case (Call_Release unlocks)
    then show ?thesis
      using assms x by (auto simp: win_release_def win_flock_release_def win_shows_file_def)
  next
    case (Call_Write i v tr)
    then show ?thesis
      using assms x length_put_at_le [of bytes "i * 4" "take (moved tr 4) (int_bytes v)"]
      by (auto simp: win_writes_int win_shows_file_def)
  next
    case (Call_Read i old tr)
    then show ?thesis
      using assms x dword_int [of old] by (auto simp: win_read_def win_transfers win_shows_file_def Let_def)
  next
    case (Call_Write_Bytes off data tr)
    then show ?thesis
      using assms x
      by (cases tr) (auto simp: win_write_bytes_def win_transfers win_shows_file_def Let_def length_put_at put_at_def [of _ "[]"]
          split: if_splits)
  next
    case (Call_Read_Bytes off buf tr)
    then show ?thesis
      using assms x
      by (cases tr) (auto simp: win_read_bytes_def win_transfers slice_def win_shows_file_def Let_def split: if_splits)
  next
    case (Call_Size sized)
    then show ?thesis using assms x by (auto simp: win_size_def win_shows_file_def split: if_splits)
  qed
qed

interpretation win_flock: hako_flock_impl win_shows_file win_call
  by unfold_locales (auto intro: win_stuck win_answered)

section \<open>The two files\<close>

text \<open>On a call of the three kinds the answers really differ.\<close>

lemma differing_read:
  assumes "buf \<noteq> []" and "length buf \<le> DWORD_MAX" and "known = wh_size (wf_fd w)" and "known \<le> size_of" and "size_of = length (fl_bytes h)"
    and "if off + length buf \<le> known then \<exists>k < length buf. tr = Part_Moved k
         else off + length buf \<le> size_of \<and> moved tr (length buf) = length buf"
  shows "fst (hako_flock_read_bytes off (length buf) (with_outcome (transfer_outcome tr) h)) \<noteq> win_read_bytes tr off buf w"
proof (cases "off + length buf \<le> known")
  case True
  then obtain k where k: "k < length buf" "tr = Part_Moved k" using assms(6) by auto
  then have "fst (hako_flock_read_bytes off (length buf) (with_outcome (transfer_outcome tr) h)) = None"
    using assms(1) by (simp add: posix_reads min_def del: transfer_outcome.simps)
  moreover have "win_read_bytes tr off buf w \<noteq> None"
    using True k assms(2,3) by (auto simp: win_read_bytes_def win_pread_def Let_def)
  ultimately show ?thesis by metis
next
  case False
  then have "win_read_bytes tr off buf w = None" using assms(3) by (auto simp: win_read_bytes_def)
  moreover have "fst (hako_flock_read_bytes off (length buf) (with_outcome (transfer_outcome tr) h)) \<noteq> None"
    using False assms(1,5,6) by (simp add: posix_reads)
  ultimately show ?thesis by simp
qed

lemma differing_call:
  assumes "posix_shows h x" and "win_shows_file w x" and "plain_call c" and "differs c x"
  shows "\<exists>a h' b w'. posix_call c h = Some (a, h') \<and> win_call c w = Some (b, w') \<and> a \<noteq> b"
proof -
  obtain d bytes known where x: "x = (d, bytes, known)" by (cases x) auto
  show ?thesis
  proof (cases c)
    case (Call_Release unlocks)
    then show ?thesis
      using assms x by (auto simp: win_release_def win_flock_release_def win_shows_file_def)
  next
    case (Call_Write_Bytes off data tr)
    then show ?thesis
      using assms x by (auto simp: posix_transfers win_write_bytes_def win_transfers Let_def)
  next
    case (Call_Read_Bytes off buf tr)
    then show ?thesis
      using assms x
      using assms x differing_read [of buf known w "length (fl_bytes h)" h off tr]
      by (auto simp: posix_reads posix_shows_def win_shows_file_def)
  qed (use assms x in auto)
qed

lemma answers_differ:
  "posix_shows h x \<Longrightarrow> win_shows_file w x \<Longrightarrow> list_all plain_call cs \<Longrightarrow> \<not> never_differs cs x \<Longrightarrow>
   answers posix_call cs h \<noteq> answers win_call cs w"
proof (induction cs arbitrary: h w x)
  case (Cons c cs)
  show ?case
  proof (cases "differs c x")
    case True
    then show ?thesis using differing_call [OF Cons.prems(1,2), of c] Cons.prems(3) by auto
  next
    case False
    then obtain a y where spec: "flock_spec c x = Some (a, y)" "\<not> never_differs cs y"
      using Cons.prems(4) by (auto split: option.splits)
    obtain h' w' where "posix_call c h = Some (a, h')" "posix_shows h' y" "win_call c w = Some (a, w')" "win_shows_file w' y"
      using posix_flock.answered [OF Cons.prems(1) _ False spec(1)] win_flock.answered [OF Cons.prems(2) _ False spec(1)]
        Cons.prems(3) by auto
    then show ?thesis using Cons.IH [of h' y w'] Cons.prems(3) spec(2) by simp
  qed
qed simp

lemma posix_created:
  "hako_flock_create env n file = (Some h, Some bytes) \<Longrightarrow>
   posix_shows h (0, bytes, known) \<and> (file = None \<longrightarrow> length bytes = n)"
  by (auto simp: hako_flock_create_def new_handle_def posix_shows_def split: option.splits if_splits)

lemma win_opened_size:
  "win_open_rw os whp s = (0, whp', s') \<Longrightarrow> wo_size os = Some (int n) \<Longrightarrow> wh_size whp' = n \<and> wh_handle whp'"
  by (auto simp: win_open_rw_def opened_def Let_def split: if_splits)

lemma win_open_ret: "win_open_rw os whp s = (ret, whp', s') \<Longrightarrow> ret = 0 \<or> ret = -1"
  by (auto simp: win_open_rw_def opened_def Let_def split: if_splits option.splits)

lemma win_create_new_cases:
  "win_create_new_rw os whp s = (ret, whp', s') \<Longrightarrow>
   (ret = 0 \<longrightarrow> wo_create os = File_Opened \<and> wh_size whp' = wh_size whp) \<and> (ret = 1 \<longrightarrow> wo_create os = File_Exists)"
  by (auto simp: win_create_new_rw_def opened_def Let_def split: create_file.splits if_splits)

lemma win_created:
  assumes "win_create_flock malloc os os' n bytes s = (Some w, s')"
    and "wo_create os = File_Opened \<Longrightarrow> length bytes = n" and "wo_size os' = Some (int (length bytes))"
  shows "win_shows_file w (0, bytes, length bytes)"
proof -
  have m: malloc using assms(1) by (simp add: win_create_flock_def split: if_splits)
  obtain ret whp s1 where new: "win_create_new_rw os (raw_handle n) s = (ret, whp, s1)"
    by (cases "win_create_new_rw os (raw_handle n) s") auto
  note new_cases = win_create_new_cases [OF new]
  show ?thesis
  proof (cases "ret = 1")
    case False
    then have "w = new_win_flock (ret = 0) whp bytes" "\<not> ret < 0"
      using assms(1) m new by (auto simp: win_create_flock_def Let_def split: if_splits)
    moreover have "ret = 0"
      using new calculation(2) False
      by (auto simp: win_create_new_rw_def opened_def Let_def split: create_file.splits if_splits)
    ultimately show ?thesis
      using new_cases assms(2) by (simp add: win_shows_file_def new_win_flock_def raw_handle_def)
  next
    case True
    obtain ret' whp' s2 where op: "win_open_rw os' whp s1 = (ret', whp', s2)"
      by (cases "win_open_rw os' whp s1") auto
    then have w: "w = new_win_flock False whp' bytes" "\<not> ret' < 0"
      using assms(1) m new True by (auto simp: win_create_flock_def Let_def split: if_splits)
    then have "ret' = 0" using win_open_ret [OF op] by auto
    then show ?thesis
      using w win_opened_size [of os' whp s1 whp' s2 "length bytes"] op assms(3)
      by (simp add: win_shows_file_def new_win_flock_def)
  qed
qed


text \<open>
  A file of 16 bytes that the process creates; the lock is free. The last call reads a value
  that was written behind the piece.
\<close>

definition demo_calls :: "flock_call list" where
  "demo_calls =
     [Call_Acquire initial_wait 0 (\<lambda>_. \<lparr>at_now = 0, at_interrupted = False, at_result = Flock_Ok\<rparr>),
      Call_Write 1 7 (Part_Moved 2), Call_Write_Bytes 14 [1, 2, 3] All_Moved, Call_Write_Bytes 0 [9] (Move_Failed 5),
      Call_Size False, Call_Release True, Call_Try Flock_Busy, Call_Read 1 0 All_Moved,
      Call_Read_Bytes 13 [0, 0, 0, 0] All_Moved]"

definition demo_stale_calls :: "flock_call list" where
  "demo_stale_calls = demo_calls @ [Call_Write 5 1 All_Moved, Call_Read_Bytes 20 [0, 0, 0, 0] All_Moved]"

definition demo_flock_env :: flock_open_env where
  "demo_flock_env = \<lparr>oe_malloc = True, oe_create = True, oe_truncate = True, oe_open = True\<rparr>"

definition demo_win_open :: win_open where
  "demo_win_open = \<lparr>wo_create = File_Opened, wo_seek = True, wo_end = True, wo_size = Some 16\<rparr>"

definition nothing_held :: win_held where
  "nothing_held = \<lparr>held_files = 0, held_maps = 0, held_views = 0\<rparr>"


end
