(* ===== verification/Hako_Win_Locking.thy ===== *)
theory Hako_Win_Locking
  imports Hako_Flock_Interface
begin

text \<open>
  The handles of the lock file on Windows, \<open>win/hako_flock.cpp\<close>, next to each other, with
  the table of locked ranges that the system keeps, and the resources of \<open>win/hako_mmap.cpp\<close>.
\<close>

section \<open>Handles and the table of the system\<close>

text \<open>
  \<open>ww_locks\<close> lists the owner and the length of every locked range; all ranges start at 0. As
  documented, \<open>LockFileEx\<close> with an exclusive lock is granted when no locked range, of any
  handle, overlaps the one asked for, and \<open>UnlockFileEx\<close> succeeds for a range that the handle
  has locked with exactly that length.
\<close>

record win_world =
  ww_handles :: "WinFlock list"
  ww_locks :: "(nat \<times> nat) list"

definition granted :: "nat \<Rightarrow> (nat \<times> nat) list \<Rightarrow> bool" where
  "granted n locks \<longleftrightarrow> list_all (\<lambda>(j, m). n = 0 \<or> m = 0) locks"

definition asked :: "WinFlock \<Rightarrow> nat" where
  "asked h = lock_range (hako_win_lock_size (wf_fd h))"

definition put_handle :: "nat \<Rightarrow> WinFlock \<Rightarrow> win_world \<Rightarrow> win_world" where
  "put_handle i h w = w\<lparr>ww_handles := (ww_handles w)[i := h]\<rparr>"

text \<open>
  One handle makes a call: the decisive attempt of an acquisition (attempts that fail change
  nothing), a release, a write, or a look at the size of the file, which others may have
  changed.
\<close>

inductive win_step :: "win_world \<Rightarrow> win_world \<Rightarrow> bool" where
  try_lock: "i < length (ww_handles w) \<Longrightarrow> h = ww_handles w ! i \<Longrightarrow> ok = granted (asked h) (ww_locks w) \<Longrightarrow>
    win_try_acquire (if ok then Flock_Ok else Flock_Busy) h = (ret, h') \<Longrightarrow>
    win_step w (put_handle i h' (if wf_count h \<le> 0 \<and> ok then w\<lparr>ww_locks := (i, asked h) # ww_locks w\<rparr> else w))"
| acquire: "i < length (ww_handles w) \<Longrightarrow> h = ww_handles w ! i \<Longrightarrow>
    (\<forall>k. at_result (at k) \<noteq> Flock_Intr \<and> (at_result (at k) = Flock_Ok \<longrightarrow> granted (asked h) (ww_locks w))) \<Longrightarrow>
    win_acquire s t at h = Some (e, h') \<Longrightarrow>
    win_step w (put_handle i h' (if wf_count h \<le> 0 \<and> e = None then w\<lparr>ww_locks := (i, asked h) # ww_locks w\<rparr> else w))"
| release: "i < length (ww_handles w) \<Longrightarrow> h = ww_handles w ! i \<Longrightarrow>
    win_release (\<lambda>n. (i, n) \<in> set (ww_locks w)) h = (e, h') \<Longrightarrow>
    win_step w (put_handle i h' (if wf_count h = 1 \<and> e = None
      then w\<lparr>ww_locks := remove1 (i, lock_range (locked_size (wf_fd h))) (ww_locks w)\<rparr> else w))"
| write_bytes: "i < length (ww_handles w) \<Longrightarrow> h = ww_handles w ! i \<Longrightarrow> off + length data < 2 ^ 63 \<Longrightarrow>
    win_write_bytes tr off data (h\<lparr>wf_bytes := bytes\<rparr>) = (ok, h') \<Longrightarrow> win_step w (put_handle i h' w)"
| file_size: "i < length (ww_handles w) \<Longrightarrow> h = ww_handles w ! i \<Longrightarrow> length bytes < 2 ^ 63 \<Longrightarrow>
    win_size sized (h\<lparr>wf_bytes := bytes\<rparr>) = (n, h') \<Longrightarrow> win_step w (put_handle i h' w)"

inductive win_reach :: "win_world \<Rightarrow> bool" where
  opened: "(\<forall>h \<in> set hs. wf_count h = 0 \<and> wh_size (wf_fd h) < 2 ^ 64) \<Longrightarrow> win_reach \<lparr>ww_handles = hs, ww_locks = []\<rparr>"
| stepped: "win_reach w \<Longrightarrow> win_step w w' \<Longrightarrow> win_reach w'"

section \<open>The invariant\<close>

lemma lock_range_exact [simp]: "n < 2 ^ 64 \<Longrightarrow> lock_range n = n"
proof -
  assume n: "n < 2 ^ 64"
  have low: "unat (hako_win_low32 n) = n mod 2 ^ 32"
    unfolding hako_win_low32_def by (simp add: unat_of_nat)
  have "n div 2 ^ 32 < 2 ^ 32" using n by (simp add: less_mult_imp_div_less)
  then have "unat (hako_win_high32 n) = n div 2 ^ 32"
    unfolding hako_win_high32_def by (simp add: unat_of_nat)
  then show ?thesis using low unfolding lock_range_def by simp
qed

lemma lock_size_bound: "wh_size whp < 2 ^ 64 \<Longrightarrow> hako_win_lock_size whp < 2 ^ 64"
  by (simp add: hako_win_lock_size_def)

text \<open>Handle \<open>i\<close> owns the only range, of the size that it remembers.\<close>

definition owns :: "nat \<Rightarrow> win_world \<Rightarrow> bool" where
  "owns i w \<longleftrightarrow> i < length (ww_handles w) \<and> 0 < wf_count (ww_handles w ! i) \<and>
     0 < locked_size (wf_fd (ww_handles w ! i)) \<and> locked_size (wf_fd (ww_handles w ! i)) < 2 ^ 64 \<and>
     ww_locks w = [(i, locked_size (wf_fd (ww_handles w ! i)))] \<and>
     (\<forall>j < length (ww_handles w). j \<noteq> i \<longrightarrow> wf_count (ww_handles w ! j) \<le> 0)"

definition unowned :: "win_world \<Rightarrow> bool" where
  "unowned w \<longleftrightarrow> ww_locks w = [] \<and> (\<forall>j < length (ww_handles w). wf_count (ww_handles w ! j) \<le> 0)"

definition sizes_fit :: "win_world \<Rightarrow> bool" where
  "sizes_fit w \<longleftrightarrow> (\<forall>j < length (ww_handles w). wh_size (wf_fd (ww_handles w ! j)) < 2 ^ 64)"

definition win_inv :: "win_world \<Rightarrow> bool" where
  "win_inv w \<longleftrightarrow> sizes_fit w \<and> (unowned w \<or> (\<exists>i. owns i w))"

lemma put_handle_simps [simp]:
  "ww_locks (put_handle i h w) = ww_locks w"
  "length (ww_handles (put_handle i h w)) = length (ww_handles w)"
  "i < length (ww_handles w) \<Longrightarrow> ww_handles (put_handle i h w) ! j = (if j = i then h else ww_handles w ! j)"
  by (simp_all add: put_handle_def nth_list_update)

lemma sizes_put:
  "sizes_fit w \<Longrightarrow> i < length (ww_handles w) \<Longrightarrow> wh_size (wf_fd h) < 2 ^ 64 \<Longrightarrow> sizes_fit (put_handle i h w)"
  by (simp add: sizes_fit_def)

lemma inv_kept:
  assumes "win_inv w" and i: "i < length (ww_handles w)" and "wh_size (wf_fd h) < 2 ^ 64"
    and "locked_size (wf_fd h) = locked_size (wf_fd (ww_handles w ! i))"
    and "0 < wf_count h \<longleftrightarrow> 0 < wf_count (ww_handles w ! i)"
  shows "win_inv (put_handle i h w)"
proof -
  have fit: "sizes_fit (put_handle i h w)" using assms sizes_put unfolding win_inv_def by blast
  consider "unowned w" | k where "owns k w" using assms(1) unfolding win_inv_def by blast
  then show ?thesis
  proof cases
    case 1
    then have "unowned (put_handle i h w)" using i assms(5) unfolding unowned_def by (auto simp: not_less [symmetric])
    then show ?thesis using fit unfolding win_inv_def by blast
  next
    case 2
    then have "owns k (put_handle i h w)"
      using i assms(4,5) unfolding owns_def by (auto simp: not_less [symmetric])
    then show ?thesis using fit unfolding win_inv_def by blast
  qed
qed

lemma inv_taken:
  assumes "win_inv w" and i: "i < length (ww_handles w)" and "wf_count (ww_handles w ! i) \<le> 0"
    and "granted (asked (ww_handles w ! i)) (ww_locks w)"
    and "wf_fd h = win_locked (wf_fd (ww_handles w ! i))" and "0 < wf_count h"
  shows "win_inv (put_handle i h (w\<lparr>ww_locks := (i, asked (ww_handles w ! i)) # ww_locks w\<rparr>))"
proof -
  let ?n = "hako_win_lock_size (wf_fd (ww_handles w ! i))"
  have fit: "sizes_fit w" using assms(1) unfolding win_inv_def by blast
  then have size: "wh_size (wf_fd (ww_handles w ! i)) < 2 ^ 64" using i unfolding sizes_fit_def by blast
  then have n: "asked (ww_handles w ! i) = ?n" "0 < ?n" "?n < 2 ^ 64"
    using lock_size_bound [OF size] by (simp_all add: asked_def)
  have "\<not> owns k w" for k
    using assms(4) n by (auto simp: owns_def granted_def)
  then have un: "unowned w" using assms(1) unfolding win_inv_def by blast
  have "owns i (put_handle i h (w\<lparr>ww_locks := (i, asked (ww_handles w ! i)) # ww_locks w\<rparr>))"
    using un i n assms(5,6) by (simp add: owns_def unowned_def win_locked_def)
  moreover have "sizes_fit (put_handle i h (w\<lparr>ww_locks := (i, asked (ww_handles w ! i)) # ww_locks w\<rparr>))"
    using fit i size assms(5) by (simp add: sizes_fit_def win_locked_def)
  ultimately show ?thesis unfolding win_inv_def by blast
qed

lemma owner_is:
  "win_inv w \<Longrightarrow> i < length (ww_handles w) \<Longrightarrow> 0 < wf_count (ww_handles w ! i) \<Longrightarrow> owns i w"
  unfolding win_inv_def unowned_def owns_def by (metis not_less)

lemma inv_freed:
  assumes "win_inv w" and "owns i w" and "wf_count h \<le> 0" and "wh_size (wf_fd h) = wh_size (wf_fd (ww_handles w ! i))"
  shows "win_inv (put_handle i h (w\<lparr>ww_locks := []\<rparr>))"
  using assms unfolding win_inv_def by (auto simp: unowned_def owns_def sizes_fit_def)

section \<open>Every call keeps it\<close>

lemma release_owner:
  assumes "owns i w"
  shows "win_release (\<lambda>n. (i, n) \<in> set (ww_locks w)) (ww_handles w ! i) =
    (None, if wf_count (ww_handles w ! i) = 1
           then (ww_handles w ! i)\<lparr>wf_fd := (wf_fd (ww_handles w ! i))\<lparr>locked_size := 0\<rparr>, wf_count := 0\<rparr>
           else (ww_handles w ! i)\<lparr>wf_count := wf_count (ww_handles w ! i) - 1\<rparr>)"
  using assms by (simp add: win_release_def win_flock_release_def owns_def)

lemma write_bytes_handle:
  "win_write_bytes tr off data h = (ok, h') \<Longrightarrow>
   wf_count h' = wf_count h \<and> locked_size (wf_fd h') = locked_size (wf_fd h) \<and>
   (wh_size (wf_fd h') = wh_size (wf_fd h) \<or> wh_size (wf_fd h') = off + length data)"
  by (auto simp: win_write_bytes_def Let_def split: prod.splits if_splits)

lemma wait_result_ok: "wait_result s t at = Some None \<Longrightarrow> \<exists>k. at_result (at k) = Flock_Ok"
proof -
  have bounded: "acquire_bounded s t at k = Some e \<Longrightarrow> e = None \<longrightarrow> (\<exists>k. at_result (at k) = Flock_Ok)" for k e
    by (rule acquire_bounded.raw_induct [rotated], assumption)
       (auto split: option.splits flock_result.splits)
  have blocking: "acquire_blocking at k = Some e \<Longrightarrow> e = None \<longrightarrow> (\<exists>k. at_result (at k) = Flock_Ok)" for k e
    by (rule acquire_blocking.raw_induct [rotated], assumption) (auto split: flock_result.splits)
  assume "wait_result s t at = Some None"
  then show ?thesis using bounded [of 0 None] blocking [of 0 None] by (simp add: wait_result_def split: if_splits)
qed

lemma inv_acquire:
  assumes inv: "win_inv w" and i: "i < length (ww_handles w)"
    and at: "\<forall>k. at_result (at k) \<noteq> Flock_Intr \<and> (at_result (at k) = Flock_Ok \<longrightarrow> granted (asked (ww_handles w ! i)) (ww_locks w))"
    and acq: "win_acquire s t at (ww_handles w ! i) = Some (e, h')"
  shows "win_inv (put_handle i h' (if wf_count (ww_handles w ! i) \<le> 0 \<and> e = None
    then w\<lparr>ww_locks := (i, asked (ww_handles w ! i)) # ww_locks w\<rparr> else w))"
proof -
  let ?h = "ww_handles w ! i"
  have size: "wh_size (wf_fd ?h) < 2 ^ 64" using inv i unfolding win_inv_def sizes_fit_def by blast
  have ni: "\<forall>k. at_result (at k) \<noteq> Flock_Intr" using at by blast
  show ?thesis
  proof (cases "0 < wf_count ?h")
    case True
    then have "h' = ?h\<lparr>wf_count := wf_count ?h + 1\<rparr>" using acq win_acquires [OF ni] by simp
    then show ?thesis using True inv_kept [OF inv i, of h'] size by simp
  next
    case False
    then obtain r where r: "wait_result s t at = Some r" "e = r"
      "h' = (if r = None then ?h\<lparr>wf_fd := win_locked (wf_fd ?h), wf_count := 1\<rparr> else ?h)"
      using acq win_acquires [OF ni] by auto
    show ?thesis
    proof (cases r)
      case None
      then obtain k where "at_result (at k) = Flock_Ok" using wait_result_ok r(1) by blast
      then have "granted (asked ?h) (ww_locks w)" using at by blast
      then show ?thesis using inv_taken [OF inv i, of h'] False r None by simp
    next
      case (Some x)
      then show ?thesis using inv_kept [OF inv i, of h'] size r False by simp
    qed
  qed
qed

lemma win_inv_step: "win_step w w' \<Longrightarrow> win_inv w \<Longrightarrow> win_inv w'"
proof (induction rule: win_step.induct)
  case (try_lock i w h ok ret h')
  have size: "wh_size (wf_fd h) < 2 ^ 64" using try_lock unfolding win_inv_def sizes_fit_def by blast
  show ?case
  proof (cases "0 < wf_count h \<or> \<not> ok")
    case True
    then have "h' = (if 0 < wf_count h then h\<lparr>wf_count := wf_count h + 1\<rparr> else h)"
      using try_lock by (auto simp: win_try_acquire_def win_flock_try)
    then show ?thesis using True inv_kept [of w i h'] try_lock size by auto
  next
    case False
    then have "h' = h\<lparr>wf_fd := win_locked (wf_fd h), wf_count := 1\<rparr>"
      using try_lock by (auto simp: win_try_acquire_def win_flock_try)
    then show ?thesis using False inv_taken [of w i h'] try_lock by simp
  qed
next
  case (acquire i w h at s t e h')
  note hyps = acquire.hyps [unfolded acquire.hyps(2)]
  show ?case
    unfolding acquire.hyps(2) by (rule inv_acquire [OF acquire.prems acquire.hyps(1) hyps(3,4)])
next
  case (release i w h e h')
  have size: "wh_size (wf_fd h) < 2 ^ 64" using release unfolding win_inv_def sizes_fit_def by blast
  show ?case
  proof (cases "0 < wf_count h")
    case True
    then have o: "owns i w" using owner_is release by blast
    note rel = release_owner [OF o]
    show ?thesis
    proof (cases "wf_count h = 1")
      case True
      have "remove1 (i, lock_range (locked_size (wf_fd h))) (ww_locks w) = []"
        using o release by (simp add: owns_def)
      moreover have "wf_count h' \<le> 0" "wh_size (wf_fd h') = wh_size (wf_fd (ww_handles w ! i))" "e = None"
        using rel release True by auto
      ultimately show ?thesis using True inv_freed [OF release.prems o, of h'] by simp
    next
      case False
      then show ?thesis using True inv_kept [of w i h'] rel release size by auto
    qed
  next
    case False
    then have "h' = h" using release by (simp add: win_release_def)
    then show ?thesis using False inv_kept [of w i h'] release size by auto
  qed
next
  case (write_bytes i w h off data tr bytes ok h')
  have "wh_size (wf_fd h) < 2 ^ 64" using write_bytes unfolding win_inv_def sizes_fit_def by blast
  then show ?case using inv_kept [of w i h'] write_bytes write_bytes_handle [OF write_bytes(4)] by auto
next
  case (file_size i w h bytes sized n h')
  have "wh_size (wf_fd h) < 2 ^ 64" using file_size unfolding win_inv_def sizes_fit_def by blast
  then show ?case using inv_kept [of w i h'] file_size by (auto simp: win_size_def split: if_splits)
qed

lemma win_inv_reach: "win_reach w \<Longrightarrow> win_inv w"
proof (induction rule: win_reach.induct)
  case (opened hs)
  then show ?case by (simp add: win_inv_def sizes_fit_def unowned_def)
next
  case (stepped w w')
  then show ?case using win_inv_step by blast
qed

text \<open>
  C36: On Windows, where a lock is on a range of bytes, the lock file excludes too. Whatever
  calls the handles make, in whatever order, and however the file grows and the sizes that
  the handles remember differ: at most one handle has the lock, the system has a range
  locked only while one has it, and the release of no handle fails, because it unlocks the
  range that was locked and not the one of the present size.
\<close>

theorem win_lock_excludes:
  assumes "win_reach w" and "i < length (ww_handles w)" and "j < length (ww_handles w)"
  shows "(0 < wf_count (ww_handles w ! i) \<and> 0 < wf_count (ww_handles w ! j) \<longrightarrow> i = j) \<and>
    (ww_locks w \<noteq> [] \<longrightarrow> (\<exists>k < length (ww_handles w). 0 < wf_count (ww_handles w ! k))) \<and>
    fst (win_release (\<lambda>n. (i, n) \<in> set (ww_locks w)) (ww_handles w ! i)) = None"
proof -
  note inv = win_inv_reach [OF assms(1)]
  have one: "i = j" if "0 < wf_count (ww_handles w ! i)" "0 < wf_count (ww_handles w ! j)"
    using owner_is [OF inv assms(2) that(1)] assms(3) that(2) unfolding owns_def by (metis not_less)
  have held: "\<exists>k < length (ww_handles w). 0 < wf_count (ww_handles w ! k)" if "ww_locks w \<noteq> []"
    using inv that unfolding win_inv_def unowned_def owns_def by blast
  have "fst (win_release (\<lambda>n. (i, n) \<in> set (ww_locks w)) (ww_handles w ! i)) = None"
  proof (cases "0 < wf_count (ww_handles w ! i)")
    case True
    then show ?thesis using release_owner [OF owner_is [OF inv assms(2) True]] by simp
  qed (simp add: win_release_def)
  then show ?thesis using one held by blast
qed

text \<open>
  Two handles on a file that is empty when they are opened: the first takes the lock, which
  is then on one byte, and lets the file grow; the second is refused.
\<close>

definition demo_win_handle :: WinFlock where
  "demo_win_handle = new_win_flock True (raw_handle 0) []"

definition demo_grown :: WinFlock where
  "demo_grown = demo_win_handle\<lparr>wf_fd := (raw_handle 24)\<lparr>locked_size := 1\<rparr>, wf_count := 1, wf_bytes := replicate 24 0\<rparr>"

lemma demo_win_reach: "win_reach \<lparr>ww_handles = [demo_grown, demo_win_handle], ww_locks = [(0, 1)]\<rparr>"
proof -
  let ?w0 = "\<lparr>ww_handles = [demo_win_handle, demo_win_handle], ww_locks = []\<rparr>"
  let ?h1 = "demo_win_handle\<lparr>wf_fd := (raw_handle 0)\<lparr>locked_size := 1\<rparr>, wf_count := 1\<rparr>"
  let ?w1 = "\<lparr>ww_handles = [?h1, demo_win_handle], ww_locks = [(0, 1)]\<rparr>"
  let ?w2 = "\<lparr>ww_handles = [demo_grown, demo_win_handle], ww_locks = [(0, 1)]\<rparr>"
  have r0: "win_reach ?w0"
    by (rule win_reach.opened) (simp add: demo_win_handle_def new_win_flock_def raw_handle_def)
  have asked: "asked demo_win_handle = 1"
    by (simp add: asked_def demo_win_handle_def new_win_flock_def raw_handle_def hako_win_lock_size_def)
  have t: "win_try_acquire Flock_Ok demo_win_handle = (0, ?h1)"
    by (simp add: win_try_acquire_def win_flock_try win_locked_def demo_win_handle_def new_win_flock_def raw_handle_def
        hako_win_lock_size_def)
  have s1: "win_step ?w0 ?w1"
    using win_step.try_lock [of 0 ?w0 demo_win_handle True 0 ?h1] t asked
    by (simp add: granted_def put_handle_def demo_win_handle_def new_win_flock_def)
  have wr: "win_write_bytes All_Moved 0 (replicate 24 0) (?h1\<lparr>wf_bytes := []\<rparr>) = (True, demo_grown)"
    by (simp add: win_write_bytes_def win_pwrite_def put_at_def DWORD_MAX_def demo_win_handle_def new_win_flock_def
        raw_handle_def demo_grown_def)
  have s2: "win_step ?w1 ?w2"
    using win_step.write_bytes [of 0 ?w1 ?h1 0 "replicate 24 0" All_Moved "[]" True demo_grown] wr
    by (simp add: put_handle_def)
  show ?thesis using r0 s1 s2 by (blast intro: win_reach.stepped)
qed

theorem win_lock_excludes_witness:
  "fst (win_release (\<lambda>n. (0, n) \<in> {(0 :: nat, 1 :: nat)}) demo_grown) = None \<and>
   hako_win_lock_size (wf_fd demo_grown) = 24"
  using win_lock_excludes [OF demo_win_reach, of 0 1]
  by (simp add: hako_win_lock_size_def demo_grown_def raw_handle_def)

section \<open>What a mapping leaves behind\<close>

text \<open>\<open>CreateFileW\<close> succeeds in \<open>win_open_rw\<close>, but the size cannot be had.\<close>

definition open_left :: "win_open \<Rightarrow> bool" where
  "open_left os \<longleftrightarrow> wo_create os = File_Opened \<and>
     (case wo_size os of None \<Rightarrow> True | Some n \<Rightarrow> n < 0 \<or> n > WIN_SIZE_MAX)"

lemma win_open_held:
  "win_open_rw os whp s = (ret, whp', s') \<Longrightarrow>
   held_maps s' = held_maps s \<and> held_views s' = held_views s \<and>
   held_files s' = held_files s + (if ret = 0 \<or> open_left os then 1 else 0) \<and> (ret = 0 \<or> ret = -1) \<and>
   (ret = 0 \<longrightarrow> wh_handle whp' \<and> \<not> open_left os)"
  by (auto simp: win_open_rw_def opened_def open_left_def Let_def split: if_splits option.splits)

lemma win_create_held:
  "win_create_rw os whp s = (ret, whp', s') \<Longrightarrow> 0 \<le> ret \<Longrightarrow>
   held_maps s' = held_maps s \<and> held_views s' = held_views s \<and> held_files s' = held_files s + 1 \<and> wh_handle whp'"
  by (auto simp: win_create_rw_def opened_def Let_def split: if_splits option.splits)

lemma win_finish_held:
  assumes "win_mmap_finish env whp s = (Some whp', s')" and "wh_handle whp" and "0 < held_files s"
  shows "held_files (win_mmap_close True whp' s') = held_files s - 1 \<and>
    held_maps (win_mmap_close True whp' s') = held_maps s \<and>
    held_views (win_mmap_close True whp' s') = held_views s + 1"
  using assms
  by (auto simp: win_mmap_finish_def win_mmap_def win_mmap_close_def win_munmap_def win_close_def Let_def
      split: if_splits)

text \<open>
  What a mapped file leaves behind on Windows. After \<open>hako_mmap_create\<close> and
  \<open>hako_mmap_close\<close> the process has as many file and mapping handles as before - one file
  handle more where the size of the existing file could not be had - but one mapped view
  more: nothing calls \<open>UnmapViewOfFile\<close>. And where the view cannot be mapped,
  \<open>hako_mmap_create\<close> gives the file back and keeps the mapping handle.
\<close>

lemma win_mapping_leaves_view:
  assumes "win_mmap_create env sz s = (Some whp, s1)"
  shows "held_files (win_mmap_close True whp s1) = held_files s + (if open_left (we_open env) then 1 else 0) \<and>
    held_maps (win_mmap_close True whp s1) = held_maps s \<and>
    held_views (win_mmap_close True whp s1) = held_views s + 1 \<and>
    (\<not> open_left (we_open env) \<longrightarrow> win_mmap_create (env\<lparr>we_view := False\<rparr>) sz s = (None, s\<lparr>held_maps := held_maps s + 1\<rparr>))"
proof -
  have m: "we_malloc env" using assms by (simp add: win_mmap_create_def split: if_splits)
  obtain ret whp1 s2 where op: "win_open_rw (we_open env) (raw_handle 0) s = (ret, whp1, s2)"
    by (cases "win_open_rw (we_open env) (raw_handle 0) s") auto
  note held = win_open_held [OF op]
  obtain whp3 s3 where fin: "win_mmap_finish env whp3 s3 = (Some whp, s1)"
    "win_mmap_create (env\<lparr>we_view := False\<rparr>) sz s = win_mmap_finish (env\<lparr>we_view := False\<rparr>) whp3 s3"
    "wh_handle whp3" "held_files s3 = held_files s + 1 + (if open_left (we_open env) then 1 else 0)"
    "held_maps s3 = held_maps s" "held_views s3 = held_views s"
  proof (cases "ret < 0 \<or> wh_size whp1 < sz")
    case True
    let ?s = "if ret \<ge> 0 then win_close whp1 s2 else s2"
    obtain ret' whp3 s3 where cr: "win_create_rw (we_create env) (whp1\<lparr>wh_size := sz\<rparr>) ?s = (ret', whp3, s3)"
      by (cases "win_create_rw (we_create env) (whp1\<lparr>wh_size := sz\<rparr>) ?s") auto
    have r: "0 \<le> ret'" using assms m op True cr by (simp add: win_mmap_create_def Let_def split: if_splits)
    show ?thesis
    proof (rule that)
      show "win_mmap_finish env whp3 s3 = (Some whp, s1)"
        using assms m op True cr r by (simp add: win_mmap_create_def Let_def)
      show "win_mmap_create (env\<lparr>we_view := False\<rparr>) sz s = win_mmap_finish (env\<lparr>we_view := False\<rparr>) whp3 s3"
        using m op True cr r by (simp add: win_mmap_create_def Let_def)
    qed (use win_create_held [OF cr r] held in \<open>auto simp: win_close_def\<close>)
  next
    case False
    show ?thesis
    proof (rule that)
      show "win_mmap_finish env whp1 s2 = (Some whp, s1)"
        using assms m op False by (simp add: win_mmap_create_def Let_def)
      show "win_mmap_create (env\<lparr>we_view := False\<rparr>) sz s = win_mmap_finish (env\<lparr>we_view := False\<rparr>) whp1 s2"
        using m op False by (simp add: win_mmap_create_def Let_def)
    qed (use held False in auto)
  qed
  have mp: "we_mapping env" using fin(1) by (auto simp: win_mmap_finish_def win_mmap_def Let_def split: if_splits)
  have "win_mmap_finish (env\<lparr>we_view := False\<rparr>) whp3 s3 =
      (None, s3\<lparr>held_maps := held_maps s3 + 1, held_files := held_files s3 - 1\<rparr>)"
    using mp fin(3) by (simp add: win_mmap_finish_def win_mmap_def win_mmap_close_def win_close_def)
  then show ?thesis
    using win_finish_held [OF fin(1,3)] fin(2,4,5,6) by simp
qed

end
