(* ===== verification/Hako_Paths.thy ===== *)
theory Hako_Paths
  imports Hako_Sem_Flock
begin

text \<open>
  The names of the files that the processes share, from \<open>utils/hako_config_loader.hpp\<close>,
  \<open>utils/hako_share/impl/hako_shared_memory_mmap.cpp\<close> and \<open>data/hako_pdu_data.hpp\<close>, and the
  lock around the set-up of the PDU area. The lemmas show that the files of different keys
  and the lock files never coincide while the configured directory is short enough, and that
  they all do when it is too long.
\<close>

section \<open>The configuration\<close>

text \<open>
  The JSON library is a parameter: \<open>parse\<close> gives the strings of the object, or fails, which
  throws; so does the conversion of a member that is not a string.
\<close>

datatype config_error = Parse_Error | Type_Error

type_synonym config = "(string \<rightharpoonup> string) option"

definition HAKO_CONFIG_DEFAULT_PATH :: string where
  "HAKO_CONFIG_DEFAULT_PATH = ''/etc/hakoniwa/cpp_core_config.json''"

definition hako_config_load ::
  "(string \<Rightarrow> (string \<rightharpoonup> string) option) \<Rightarrow> string option \<Rightarrow> (string \<Rightarrow> string option) \<Rightarrow> config_error + config" where
  "hako_config_load parse env_path read =
    (let config_path = (case env_path of Some p \<Rightarrow> p | None \<Rightarrow> HAKO_CONFIG_DEFAULT_PATH)
     in case read config_path of
          None \<Rightarrow> Inr None
        | Some text \<Rightarrow> (case parse text of None \<Rightarrow> Inl Parse_Error | Some j \<Rightarrow> Inr (Some j)))"

definition config_string :: "string \<Rightarrow> (string \<rightharpoonup> string) \<Rightarrow> config_error + string" where
  "config_string name j = (case j name of None \<Rightarrow> Inl Type_Error | Some v \<Rightarrow> Inr v)"

section \<open>File names\<close>

fun show_hex :: "nat \<Rightarrow> string" where
  "show_hex n = (if n < 16 then [''0123456789abcdef'' ! n] else show_hex (n div 16) @ [''0123456789abcdef'' ! (n mod 16)])"

declare show_hex.simps [simp del]

text \<open>\<open>snprintf\<close> into a buffer of 4096 bytes, with \<open>%s\<close> of a \<open>c_str()\<close>.\<close>

definition cut :: "string \<Rightarrow> string" where
  "cut s = take 4095 s"

definition c_str :: "string \<Rightarrow> string" where
  "c_str s = takeWhile (\<lambda>c. c \<noteq> CHR 0x00) s"

definition in_directory :: "config \<Rightarrow> string \<Rightarrow> config_error + string" where
  "in_directory config name =
    (case config of
       None \<Rightarrow> Inr (cut (''./'' @ name))
     | Some j \<Rightarrow> bindE (config_string ''core_mmap_path'' j) (\<lambda>path. Inr (cut (c_str path @ ''/'' @ name))))"

definition get_core_filepath :: "config \<Rightarrow> 32 word \<Rightarrow> config_error + string" where
  "get_core_filepath config key = in_directory config (''mmap-0x'' @ show_hex (unat key) @ ''.bin'')"

definition get_pdu_init_lock_filepath :: "config \<Rightarrow> config_error + string" where
  "get_pdu_init_lock_filepath config = in_directory config ''pdu_init.lock''"

definition find_memory_info :: "(int \<rightharpoonup> 'i) \<Rightarrow> int \<Rightarrow> 'i option" where
  "find_memory_info shared_memory_map key = shared_memory_map key"

section \<open>The lock around the set-up of the PDU area\<close>

text \<open>
  The result is the handle, or null; an exception of the wait leaves the handle behind. The
  file gets the size that \<open>hako_flock_create\<close> has by default.
\<close>

definition acquire_pdu_init_lock ::
  "flock_open_env \<Rightarrow> wait_state \<Rightarrow> 64 word \<Rightarrow> (nat \<Rightarrow> flock_attempt) \<Rightarrow> byte list option \<Rightarrow>
   ((HakoFlockWaitErrorType + HakoFlockObject option) \<times> byte list option) option" where
  "acquire_pdu_init_lock env s started_at_ms at file =
    (case hako_flock_create env MASTER_LOCK_METADATA_OFFSET file of
       (None, file) \<Rightarrow> Some (Inr None, file)
     | (Some lock, file) \<Rightarrow>
         (case hako_flock_acquire s started_at_ms at lock of
            None \<Rightarrow> None
          | Some (Some e, lock) \<Rightarrow> Some (Inl e, file)
          | Some (None, lock) \<Rightarrow> Some (Inr (Some lock), file)))"

definition release_pdu_init_lock :: "HakoFlockObject option \<Rightarrow> HakoFlockObject option" where
  "release_pdu_init_lock lock =
    (case lock of None \<Rightarrow> None | Some h \<Rightarrow> hako_flock_close (Some (hako_flock_release h)))"

lemma init_lock_given_back:
  assumes "acquire_pdu_init_lock env s t at file = Some (Inr (Some lock), file')"
  shows "os_locked lock \<and> lock_count lock = 1 \<and> file' = Some (fl_bytes lock) \<and>
    (\<exists>h. release_pdu_init_lock (Some lock) = Some h \<and> \<not> os_locked h \<and> lock_count h = 0 \<and> fl_bytes h = fl_bytes lock)"
  using assms
  by (auto simp: acquire_pdu_init_lock_def release_pdu_init_lock_def hako_flock_acquire_def hako_flock_close_def
      hako_flock_release_def hako_flock_create_def new_handle_def Let_def split: option.splits if_splits)

section \<open>Different files\<close>

fun hex_digit :: "char \<Rightarrow> nat" where
  "hex_digit c = (if of_char c < (58 :: nat) then of_char c - 48 else of_char c - 87)"

definition hex_value :: "string \<Rightarrow> nat" where
  "hex_value s = foldl (\<lambda>n c. 16 * n + hex_digit c) 0 s"

lemma hex_digit_char: "d < 16 \<Longrightarrow> hex_digit (''0123456789abcdef'' ! d) = d \<and> CHR ''.'' \<noteq> ''0123456789abcdef'' ! d"
proof -
  have "\<forall>d < 16. hex_digit (''0123456789abcdef'' ! d) = d \<and> CHR ''.'' \<noteq> ''0123456789abcdef'' ! d" by code_simp
  then show "d < 16 \<Longrightarrow> hex_digit (''0123456789abcdef'' ! d) = d \<and> CHR ''.'' \<noteq> ''0123456789abcdef'' ! d" by blast
qed

lemma show_hex_read: "hex_value (show_hex n) = n \<and> CHR ''.'' \<notin> set (show_hex n)"
proof (induction n rule: show_hex.induct)
  case (1 n)
  show ?case
  proof (cases "n < 16")
    case True
    then show ?thesis using hex_digit_char [OF True] by (subst (1 2) show_hex.simps) (simp add: hex_value_def del: hex_digit.simps)
  next
    case False
    have "16 * (n div 16) + n mod 16 = n" by simp
    then show ?thesis
      using False 1 hex_digit_char [of "n mod 16"]
      by (subst (1 2) show_hex.simps) (simp add: hex_value_def del: hex_digit.simps)
  qed
qed

lemma show_hex_inj: "show_hex m = show_hex n \<longleftrightarrow> m = n"
  using show_hex_read by metis

lemma show_hex_length: "n < 16 ^ Suc k \<Longrightarrow> length (show_hex n) \<le> Suc k"
proof (induction k arbitrary: n)
  case 0
  then show ?case by (subst show_hex.simps) simp
next
  case (Suc k)
  show ?case
  proof (cases "n < 16")
    case True
    then show ?thesis by (subst show_hex.simps) simp
  next
    case False
    have "n div 16 < 16 ^ Suc k" using Suc.prems by (simp add: less_mult_imp_div_less mult.commute)
    from Suc.IH [OF this] show ?thesis using False by (subst show_hex.simps) simp
  qed
qed

text \<open>
  While the directory leaves room for the longest name, the files of different keys, the
  lock file of the set-up and the lock file of the semaphores are different files; a
  directory of 4095 characters or more gives one name to all but the last.
\<close>

lemma shared_files_distinct:
  assumes "j ''core_mmap_path'' = Some path" and "c_str path = path" and "length path \<le> 4075"
  shows "(get_core_filepath (Some j) k = get_core_filepath (Some j) k' \<longleftrightarrow> k = k') \<and>
    get_core_filepath (Some j) k \<noteq> get_pdu_init_lock_filepath (Some j) \<and>
    get_core_filepath (Some j) k \<noteq> Inr (flock_path (Some path)) \<and>
    get_pdu_init_lock_filepath (Some j) \<noteq> Inr (flock_path (Some path))"
proof -
  have short: "length (show_hex (unat k)) \<le> 8" for k :: "32 word"
  proof -
    have "unat k < 16 ^ Suc 7" using unsigned_less [of k] by simp
    from show_hex_length [OF this] show ?thesis by simp
  qed
  have core: "get_core_filepath (Some j) k = Inr (path @ ''/mmap-0x'' @ show_hex (unat k) @ ''.bin'')" for k
    using assms short [of k] by (simp add: get_core_filepath_def in_directory_def config_string_def cut_def)
  have init: "get_pdu_init_lock_filepath (Some j) = Inr (path @ ''/pdu_init.lock'')"
    using assms by (simp add: get_pdu_init_lock_filepath_def in_directory_def config_string_def cut_def)
  show ?thesis
    by (simp add: core init flock_path_def show_hex_inj word_unat_eq_iff)
qed

lemma shared_files_collide:
  assumes "j ''core_mmap_path'' = Some path" and "4095 \<le> length (c_str path)"
  shows "get_core_filepath (Some j) k = Inr (take 4095 (c_str path))"
    and "get_pdu_init_lock_filepath (Some j) = Inr (take 4095 (c_str path))"
  using assms
  by (simp_all add: get_core_filepath_def get_pdu_init_lock_filepath_def in_directory_def config_string_def cut_def)

end
