(* ===== verification/Hako_Clock.thy ===== *)
theory Hako_Clock
  imports Hako_Types
begin

text \<open>
  The clock that updates and timeouts of the assets read, \<open>utils/hako_clock.hpp\<close>, in its two
  branches over what the system calls give, in the signed 64-bit arithmetic of
  \<open>HakoTimeType\<close>.
\<close>

definition posix_get_clock :: "int \<Rightarrow> int \<Rightarrow> int result" where
  "posix_get_clock tv_sec tv_nsec =
     bindE (checked64 (tv_sec * 1000000)) (\<lambda>s. checked64 (s + tv_nsec div 1000))"

text \<open>A counter that counts up from the start of the machine and is not negative.\<close>

definition win_get_clock :: "int \<Rightarrow> int \<Rightarrow> int result" where
  "win_get_clock counter frequency =
     bindE (checked64 (counter * 1000000)) (\<lambda>t. Inr (t div frequency))"

text \<open>The branch for POSIX is exact for all times of the next 290000 years.\<close>

lemma posix_clock_exact:
  assumes "0 \<le> tv_sec" and "tv_sec \<le> 9223372036853" and "0 \<le> tv_nsec" and "tv_nsec < 1000000000"
  shows "posix_get_clock tv_sec tv_nsec = Inr ((tv_sec * 1000000000 + tv_nsec) div 1000)"
proof -
  have n: "0 \<le> tv_nsec div 1000" "tv_nsec div 1000 < 1000000" using assms(3,4) by auto
  have s: "tv_sec * 1000000 \<le> 9223372036853 * 1000000" using assms(2) by simp
  have "(tv_sec * 1000000000 + tv_nsec) div 1000 = tv_sec * 1000000 + tv_nsec div 1000"
    using div_mult_self3 [of 1000 "tv_sec * 1000000" tv_nsec] by (simp add: algebra_simps)
  then show ?thesis
    using assms(1) n s by (simp add: posix_get_clock_def checked64_def int64_defs)
qed

text \<open>
  C40: On Windows the product overflows long before the counter does. The clock gives the time
  since the start of the machine in microseconds exactly as long as the counter is at most
  9223372036854; with the usual counter of 10 MHz the code has undefined behaviour from the
  922338th second on, after ten days and sixteen hours.
\<close>

theorem win_clock_overflows:
  assumes "0 \<le> counter" and "0 < frequency"
  shows "win_get_clock counter frequency =
      (if counter \<le> 9223372036854 then Inr (counter * 1000000 div frequency) else Inl Signed_Overflow) \<and>
    (\<forall>s \<ge> 0. win_get_clock (s * 10000000) 10000000 =
      (if s \<le> 922337 then Inr (s * 1000000) else Inl Signed_Overflow))"
proof -
  have closed: "win_get_clock c f = (if c \<le> 9223372036854 then Inr (c * 1000000 div f) else Inl Signed_Overflow)"
    if "0 \<le> c" for c f
    using that by (simp add: win_get_clock_def checked64_def int64_defs)
  have "win_get_clock (s * 10000000) 10000000 = (if s \<le> 922337 then Inr (s * 1000000) else Inl Signed_Overflow)"
    if "0 \<le> s" for s
  proof -
    have "s * 10000000 \<le> 9223372036854 \<longleftrightarrow> s \<le> 922337" by linarith
    moreover have "s * 10000000 * 1000000 div 10000000 = s * 1000000"
      using nonzero_mult_div_cancel_right [of 10000000 "s * 1000000"] by (simp add: mult.assoc mult.commute [of 10000000])
    ultimately show ?thesis using that closed [of "s * 10000000" 10000000] by simp
  qed
  then show ?thesis using closed [OF assms(1)] by blast
qed

theorem win_clock_overflows_witness:
  "win_get_clock 30000000 10000000 = Inr 3000000 \<and> win_get_clock (1000000 * 10000000) 10000000 = Inl Signed_Overflow"
proof -
  have "win_get_clock 30000000 10000000 = Inr 3000000"
    using win_clock_overflows [of 30000000 10000000] by simp
  moreover have "win_get_clock (1000000 * 10000000) 10000000 = Inl Signed_Overflow"
    using win_clock_overflows [of 30000000 10000000, THEN conjunct2, rule_format, of 1000000] by simp
  ultimately show ?thesis ..
qed

end
